(* ===== verification/Prelude.thy ===== *)
theory Prelude
  imports Main "HOL-Library.Word" "HOL-Library.Product_Lexorder"
begin

text \<open>
  Shared vocabulary of the development: machine-integer abbreviations, the ordered
  dictionary that stands for \<open>std::map\<close>, decimal and hexadecimal rendering, token tables
  for the enumerations that are written to text, bounded histories, and the theorem
  collections the component theories feed.

  \<^item> \<open>fabric_frame\<close> collects the frame equations of runtime operations (which fields an
    operation leaves alone);
  \<^item> \<open>inv_intro\<close> collects the invariant-preservation facts, one per operation;
  \<^item> \<open>token_simps\<close> collects the token tables of the enumerations.
\<close>

unbundle bit_operations_syntax

named_theorems fabric_frame
named_theorems inv_intro
named_theorems token_simps

section \<open>Machine integers\<close>

type_synonym u8 = "8 word"
type_synonym u16 = "16 word"
type_synonym u32 = "32 word"
type_synonym u64 = "64 word"

text \<open>\<open>std::uint64_t\<close> addition wraps; a sum that fits keeps its value.\<close>

lemma u64_add_no_wrap:
  fixes a b :: u64
  assumes "unat a + unat b < 2 ^ 64"
  shows "unat (a + b) = unat a + unat b"
  using assms by (simp add: unat_word_ariths)

lemma u64_add_mono:
  fixes a b :: u64
  assumes "unat a + unat b < 2 ^ 64"
  shows "a \<le> a + b"
  using u64_add_no_wrap [OF assms] by (simp add: word_le_nat_alt)

lemma u64_add_strict:
  fixes a b :: u64
  assumes "unat a + unat b < 2 ^ 64" and "b \<noteq> 0"
  shows "a < a + b"
proof -
  have "0 < unat b" using assms(2) by (simp add: unat_gt_0)
  then show ?thesis using u64_add_no_wrap [OF assms(1)] by (simp add: word_less_nat_alt)
qed

lemma u64_max_wraps: "(a :: u64) + 0xFFFFFFFFFFFFFFFF = a - 1"
proof -
  have "(0xFFFFFFFFFFFFFFFF :: u64) = - 1" by simp
  then show ?thesis by simp
qed

section \<open>Ordered dictionaries\<close>

text \<open>
  \<open>std::map\<close> keeps its entries in key order and every loop of the source walks them in that
  order, so a dictionary is an association list with strictly increasing keys. Lookup is
  \<^const>\<open>map_of\<close>; assignment \<open>m[k] = v\<close> is \<open>map_put\<close>; \<open>erase\<close> is \<open>map_erase\<close>.
\<close>

type_synonym ('k, 'v) omap = "('k \<times> 'v) list"

fun map_put :: "'k::linorder \<Rightarrow> 'v \<Rightarrow> ('k, 'v) omap \<Rightarrow> ('k, 'v) omap" where
  "map_put k v [] = [(k, v)]"
| "map_put k v (e # m) =
     (if fst e < k then e # map_put k v m
      else if fst e = k then (k, v) # m
      else (k, v) # e # m)"

definition map_erase :: "'k \<Rightarrow> ('k, 'v) omap \<Rightarrow> ('k, 'v) omap" where
  "map_erase k m = filter (\<lambda>e. fst e \<noteq> k) m"

definition ordered_keys :: "('k::linorder, 'v) omap \<Rightarrow> bool" where
  "ordered_keys m \<longleftrightarrow> sorted_wrt (<) (map fst m)"

text \<open>
  What the runtime relies on of a dictionary: lookups see the last assignment, iteration
  visits exactly the entries a lookup can find, and every operation keeps that agreement.
\<close>

locale dictionary =
  fixes find :: "'m \<Rightarrow> 'k \<Rightarrow> 'v option"
    and put :: "'k \<Rightarrow> 'v \<Rightarrow> 'm \<Rightarrow> 'm"
    and del :: "'k \<Rightarrow> 'm \<Rightarrow> 'm"
    and entries :: "'m \<Rightarrow> ('k \<times> 'v) list"
    and wf :: "'m \<Rightarrow> bool"
  assumes find_put: "find (put k v m) k' = (if k' = k then Some v else find m k')"
    and find_del: "find (del k m) k' = (if k' = k then None else find m k')"
    and entry_iff: "wf m \<Longrightarrow> (k, v) \<in> set (entries m) \<longleftrightarrow> find m k = Some v"
    and wf_put: "wf m \<Longrightarrow> wf (put k v m)"
    and wf_del: "wf m \<Longrightarrow> wf (del k m)"
begin

lemma entries_put:
  assumes "wf m"
  shows "set (entries (put k v m)) = insert (k, v) {e \<in> set (entries m). fst e \<noteq> k}"
proof (rule set_eqI)
  fix e :: "'k \<times> 'v"
  obtain a b where e: "e = (a, b)" by (cases e)
  have "(a, b) \<in> set (entries (put k v m)) \<longleftrightarrow> find (put k v m) a = Some b"
    using assms by (simp add: entry_iff wf_put)
  also have "\<dots> \<longleftrightarrow> (a = k \<and> b = v) \<or> (a \<noteq> k \<and> (a, b) \<in> set (entries m))"
    using assms by (auto simp: find_put entry_iff)
  finally show "e \<in> set (entries (put k v m)) \<longleftrightarrow>
      e \<in> insert (k, v) {e \<in> set (entries m). fst e \<noteq> k}"
    by (auto simp: e)
qed

lemma all_entries_put:
  assumes "wf m" and "P k v" and "\<And>a b. (a, b) \<in> set (entries m) \<Longrightarrow> a \<noteq> k \<Longrightarrow> P a b"
  shows "\<forall>(a, b) \<in> set (entries (put k v m)). P a b"
  using assms(2,3) by (auto simp: entries_put [OF assms(1)])

lemma all_entries_find:
  assumes "wf m"
  shows "(\<forall>(a, b) \<in> set (entries m). P a b) \<longleftrightarrow> (\<forall>a b. find m a = Some b \<longrightarrow> P a b)"
  using assms by (auto simp: entry_iff)

end

lemma map_of_put [simp]:
  "map_of (map_put k v m) k' = (if k' = k then Some v else map_of m k')"
  by (induction m) (auto split: if_splits)

lemma map_of_put_fun: "map_of (map_put k v m) = (map_of m)(k \<mapsto> v)"
  by (rule ext) simp

lemma map_of_erase [simp]:
  "map_of (map_erase k m) k' = (if k' = k then None else map_of m k')"
  by (induction m) (auto simp: map_erase_def)

lemma fst_set_put [simp]: "fst ` set (map_put k v m) = insert k (fst ` set m)"
  by (induction m) (auto split: if_splits)

lemma ordered_keys_Nil [simp]: "ordered_keys []"
  by (simp add: ordered_keys_def)

lemma ordered_keys_Cons:
  "ordered_keys (e # m) \<longleftrightarrow> (\<forall>x \<in> set m. fst e < fst x) \<and> ordered_keys m"
  by (simp add: ordered_keys_def)

lemma ordered_keys_put [simp, intro]: "ordered_keys m \<Longrightarrow> ordered_keys (map_put k v m)"
proof (induction m)
  case Nil
  then show ?case by (simp add: ordered_keys_Cons)
next
  case (Cons e m)
  have keys: "fst x \<in> insert k (fst ` set m)" if "x \<in> set (map_put k v m)" for x
    using that fst_set_put [of k v m] by blast
  show ?case
    using Cons keys by (fastforce simp: ordered_keys_Cons)
qed

lemma ordered_keys_erase [simp, intro]: "ordered_keys m \<Longrightarrow> ordered_keys (map_erase k m)"
  by (induction m) (auto simp: ordered_keys_Cons map_erase_def)

lemma ordered_keys_distinct: "ordered_keys m \<Longrightarrow> distinct (map fst m)"
  by (induction m) (auto simp: ordered_keys_Cons)

lemma ordered_entry_iff:
  "ordered_keys m \<Longrightarrow> (k, v) \<in> set m \<longleftrightarrow> map_of m k = Some v"
  using ordered_keys_distinct by (metis map_of_eq_Some_iff)

interpretation dict: dictionary map_of map_put map_erase "\<lambda>m. m" ordered_keys
  by unfold_locales (auto simp: ordered_entry_iff)

lemma map_put_same: "ordered_keys m \<Longrightarrow> map_of m k = Some v \<Longrightarrow> map_put k v m = m"
proof (induction m)
  case Nil
  then show ?case by simp
next
  case (Cons e m)
  show ?case
  proof (cases "fst e = k")
    case True
    with Cons.prems show ?thesis by (cases e) auto
  next
    case False
    with Cons.prems have "map_of m k = Some v" by (cases e) auto
    moreover from this have "(k, v) \<in> set m" by (rule map_of_SomeD)
    ultimately show ?thesis using Cons by (fastforce simp: ordered_keys_Cons)
  qed
qed

lemma ordered_map_rebuild:
  assumes "ordered_keys m"
  shows "map (\<lambda>k. (k, the (map_of m k))) (map fst m) = m"
proof -
  have "(fst e, the (map_of m (fst e))) = e" if "e \<in> set m" for e
    using that assms ordered_entry_iff [of m "fst e" "snd e"] by simp
  then show ?thesis by (simp add: map_idI)
qed

lemma ordered_map_eqI:
  assumes "ordered_keys m" "ordered_keys m'" "map_of m = map_of m'"
  shows "m = m'"
proof -
  have "fst ` set m = fst ` set m'"
    using assms(3) by (metis dom_map_of_conv_image_fst)
  then have "map fst m = map fst m'"
    using assms(1,2) by (intro strict_sorted_equal) (simp_all add: ordered_keys_def)
  then show ?thesis
    using ordered_map_rebuild [OF assms(1)] ordered_map_rebuild [OF assms(2)] assms(3) by simp
qed

lemma map_put_commute:
  "ordered_keys m \<Longrightarrow> k \<noteq> l \<Longrightarrow> map_put k v (map_put l w m) = map_put l w (map_put k v m)"
  by (rule ordered_map_eqI) (auto simp: fun_eq_iff)

lemma find_SomeD: "List.find P xs = Some x \<Longrightarrow> x \<in> set xs \<and> P x"
  by (induction xs) (auto split: if_splits)

section \<open>Rendering of numbers\<close>

text \<open>\<open>std::to_string\<close> of an unsigned value.\<close>

fun dec_digits :: "nat \<Rightarrow> string" where
  "dec_digits n =
     (if n < 10 then [char_of (48 + n)] else dec_digits (n div 10) @ [char_of (48 + n mod 10)])"

declare dec_digits.simps [simp del]

definition to_decimal :: "u64 \<Rightarrow> string" where
  "to_decimal w = dec_digits (unat w)"

definition dec_value :: "string \<Rightarrow> nat" where
  "dec_value = foldl (\<lambda>v c. v * 10 + (of_char c - 48)) 0"

lemma dec_value_snoc: "dec_value (s @ [c]) = dec_value s * 10 + (of_char c - 48)"
  by (simp add: dec_value_def)

lemma of_char_of_small: "n < 256 \<Longrightarrow> (of_char (char_of n) :: nat) = n"
  by (simp add: of_char_of)

lemma dec_value_digits [simp]: "dec_value (dec_digits n) = n"
proof (induction n rule: dec_digits.induct)
  case (1 n)
  show ?case
  proof (cases "n < 10")
    case True
    then show ?thesis by (simp add: dec_digits.simps [of n] dec_value_def of_char_of_small)
  next
    case False
    have "n mod 10 < 10" by simp
    then have "(of_char (char_of (48 + n mod 10)) :: nat) = 48 + n mod 10"
      by (intro of_char_of_small) linarith
    then show ?thesis using False 1 by (simp add: dec_digits.simps [of n] dec_value_snoc)
  qed
qed

lemma dec_digits_inj: "dec_digits a = dec_digits b \<longleftrightarrow> a = b"
  by (metis dec_value_digits)

lemma to_decimal_inj: "to_decimal a = to_decimal b \<longleftrightarrow> a = b"
  by (simp add: to_decimal_def dec_digits_inj word_unat_eq_iff)

lemma dec_digits_chars: "c \<in> set (dec_digits n) \<Longrightarrow> 48 \<le> (of_char c :: nat) \<and> (of_char c :: nat) \<le> 57"
proof (induction n rule: dec_digits.induct)
  case (1 n)
  have "n mod 10 < 10" by simp
  then have "(of_char (char_of (48 + n mod 10)) :: nat) = 48 + n mod 10"
    by (intro of_char_of_small) linarith
  with 1 show ?case
    by (auto simp: dec_digits.simps [of n] of_char_of_small split: if_splits)
qed

text \<open>Two texts cut at the first occurrence of a separator neither prefix contains.\<close>

lemma cut_at_separator:
  assumes "c \<notin> set a" "c \<notin> set b"
  shows "a @ c # x = b @ c # y \<longleftrightarrow> a = b \<and> x = y"
proof -
  have cut: "takeWhile (\<lambda>d. d \<noteq> c) (u @ c # v) = u" if "c \<notin> set u" for u v
    using that by (induction u) auto
  show ?thesis using cut [OF assms(1), of x] cut [OF assms(2), of y] by auto
qed

section \<open>Token tables\<close>

text \<open>
  Every enumeration of the source that reaches text has a \<open>to_string\<close> and a linear search
  that inverts it. \<open>token_search\<close> is that search over the values in declaration order.
\<close>

fun token_search :: "('a \<Rightarrow> string) \<Rightarrow> 'a list \<Rightarrow> string \<Rightarrow> 'a option" where
  "token_search tok [] t = None"
| "token_search tok (x # xs) t = (if tok x = t then Some x else token_search tok xs t)"

locale token_table =
  fixes tok :: "'a \<Rightarrow> string" and all :: "'a list"
  assumes all_complete: "x \<in> set all"
    and tok_distinct: "distinct (map tok all)"
begin

lemma tok_inj: "tok x = tok y \<longleftrightarrow> x = y"
  using all_complete tok_distinct by (metis distinct_map inj_on_eq_iff)

lemma search_tok: "token_search tok all (tok x) = Some x"
proof -
  have "y \<in> set ys \<Longrightarrow> token_search tok ys (tok y) = Some y" for y ys
    by (induction ys) (auto simp: tok_inj)
  then show ?thesis by (simp add: all_complete)
qed

lemma search_sound: "token_search tok all t = Some x \<Longrightarrow> tok x = t"
proof -
  have "token_search tok ys t = Some x \<Longrightarrow> tok x = t" for ys
    by (induction ys) (auto split: if_splits)
  then show "token_search tok all t = Some x \<Longrightarrow> tok x = t" .
qed

lemma search_Some_iff: "token_search tok all t = Some x \<longleftrightarrow> tok x = t"
  using search_tok search_sound by blast

end

section \<open>Bounded histories\<close>

text \<open>
  \<open>push_back\<close> followed by erasing from the front while the size exceeds the bound: what is
  kept is the newest \<open>bound\<close> entries.
\<close>

definition push_bounded :: "nat \<Rightarrow> 'a \<Rightarrow> 'a list \<Rightarrow> 'a list" where
  "push_bounded bound x xs = drop (length xs + 1 - bound) (xs @ [x])"

lemma length_push_bounded [simp]: "length (push_bounded n x xs) = min n (length xs + 1)"
  by (simp add: push_bounded_def)

lemma push_bounded_room: "length xs < n \<Longrightarrow> push_bounded n x xs = xs @ [x]"
  by (simp add: push_bounded_def)

lemma last_push_bounded: "0 < n \<Longrightarrow> last (push_bounded n x xs) = x \<and> push_bounded n x xs \<noteq> []"
  by (auto simp: push_bounded_def last_drop)

section \<open>Reachable states\<close>

text \<open>
  A runtime is a set of start states and a step relation; an invariant that every start state
  has and every step keeps holds in every reachable state.
\<close>

inductive reach :: "('s \<Rightarrow> bool) \<Rightarrow> ('s \<Rightarrow> 's \<Rightarrow> bool) \<Rightarrow> 's \<Rightarrow> bool"
  for start :: "'s \<Rightarrow> bool" and step :: "'s \<Rightarrow> 's \<Rightarrow> bool" where
  reach_start: "start s \<Longrightarrow> reach start step s"
| reach_step: "reach start step s \<Longrightarrow> step s t \<Longrightarrow> reach start step t"

locale safe_machine =
  fixes start :: "'s \<Rightarrow> bool" and step :: "'s \<Rightarrow> 's \<Rightarrow> bool" and inv :: "'s \<Rightarrow> bool"
  assumes inv_start: "start s \<Longrightarrow> inv s"
    and inv_step: "inv s \<Longrightarrow> step s t \<Longrightarrow> inv t"
begin

lemma reach_inv: "reach start step s \<Longrightarrow> inv s"
  by (induction rule: reach.induct) (auto intro: inv_start inv_step)

end

end
