(* ===== verification/Errors.thy ===== *)
theory Errors
  imports Prelude
begin

text \<open>
  The error and refusal vocabulary (\<open>error.hpp\<close>, \<open>error.cpp\<close>) and the bounds of every
  collection (\<open>limits.hpp\<close>, \<open>limits.cpp\<close>). A \<open>Status\<close> is modelled by its error code: the
  message that travels with it is explanation text, which the sources never branch on.
  Constructors of \<open>RefusalCode\<close> that share a name with an \<open>ErrorCode\<close> carry the prefix \<open>R\<close>.
\<close>

section \<open>Codes\<close>

datatype ErrorCode =
  Ok | InvalidArgument | NameInvalid | IdentityCollision | NotFound | AlreadyExists |
  CapacityExceeded | Unsupported | UnsupportedBoundary | IllegalTransition | StaleGeneration
  | StaleEpoch | StaleIncarnation | StaleEvidence | MissingEvidence | ConflictingEvidence |
  ConflictingClaim | ReservationExpired | ReservationNotHeld | AttemptConflict |
  NotAuthoritative | InvariantViolation | StoreLocked | StoreCorrupt |
  StoreVersionUnsupported | StoreIo | Closed | Internal

type_synonym Status = ErrorCode
type_synonym 'a result = "ErrorCode + 'a"

datatype RefusalCode =
  RNone | RInvalidArgument | UnknownResource | RNameInvalid | RIdentityCollision |
  UnsupportedCapability | UnsupportedEvidenceKind | RMissingEvidence | RStaleEvidence |
  RConflictingEvidence | InvalidEvidence | RStaleGeneration | RStaleEpoch |
  RStaleIncarnation | StaleReservation | RReservationExpired | RReservationNotHeld |
  ReservationConflict | RConflictingClaim | DuplicateClaim | RIllegalTransition |
  ObjectRetired | ObjectActive | ObjectNotActive | RNotAuthoritative | RAttemptConflict |
  PlannerUnavailable | RouteUnresolved | RCapacityExceeded | RInvariantViolation |
  PersistenceFailure | BoundaryNotImplemented

datatype OutcomeCode = Applied | IdempotentReplay | AlreadySatisfied | Refused

definition all_refusals :: "RefusalCode list" where
  "all_refusals = [
    RNone, RInvalidArgument, UnknownResource, RNameInvalid, RIdentityCollision,
    UnsupportedCapability, UnsupportedEvidenceKind, RMissingEvidence, RStaleEvidence,
    RConflictingEvidence, InvalidEvidence, RStaleGeneration, RStaleEpoch, RStaleIncarnation,
    StaleReservation, RReservationExpired, RReservationNotHeld, ReservationConflict,
    RConflictingClaim, DuplicateClaim, RIllegalTransition, ObjectRetired, ObjectActive,
    ObjectNotActive, RNotAuthoritative, RAttemptConflict, PlannerUnavailable,
    RouteUnresolved, RCapacityExceeded, RInvariantViolation, PersistenceFailure,
    BoundaryNotImplemented]"

fun refusal_to_string :: "RefusalCode \<Rightarrow> string" where
  "refusal_to_string RNone = ''none''"
| "refusal_to_string RInvalidArgument = ''invalid_argument''"
| "refusal_to_string UnknownResource = ''unknown_resource''"
| "refusal_to_string RNameInvalid = ''name_invalid''"
| "refusal_to_string RIdentityCollision = ''identity_collision''"
| "refusal_to_string UnsupportedCapability = ''unsupported_capability''"
| "refusal_to_string UnsupportedEvidenceKind = ''unsupported_evidence_kind''"
| "refusal_to_string RMissingEvidence = ''missing_evidence''"
| "refusal_to_string RStaleEvidence = ''stale_evidence''"
| "refusal_to_string RConflictingEvidence = ''conflicting_evidence''"
| "refusal_to_string InvalidEvidence = ''invalid_evidence''"
| "refusal_to_string RStaleGeneration = ''stale_generation''"
| "refusal_to_string RStaleEpoch = ''stale_epoch''"
| "refusal_to_string RStaleIncarnation = ''stale_incarnation''"
| "refusal_to_string StaleReservation = ''stale_reservation''"
| "refusal_to_string RReservationExpired = ''reservation_expired''"
| "refusal_to_string RReservationNotHeld = ''reservation_not_held''"
| "refusal_to_string ReservationConflict = ''reservation_conflict''"
| "refusal_to_string RConflictingClaim = ''conflicting_claim''"
| "refusal_to_string DuplicateClaim = ''duplicate_claim''"
| "refusal_to_string RIllegalTransition = ''illegal_transition''"
| "refusal_to_string ObjectRetired = ''object_retired''"
| "refusal_to_string ObjectActive = ''object_active''"
| "refusal_to_string ObjectNotActive = ''object_not_active''"
| "refusal_to_string RNotAuthoritative = ''not_authoritative''"
| "refusal_to_string RAttemptConflict = ''attempt_conflict''"
| "refusal_to_string PlannerUnavailable = ''planner_unavailable''"
| "refusal_to_string RouteUnresolved = ''route_unresolved''"
| "refusal_to_string RCapacityExceeded = ''capacity_exceeded''"
| "refusal_to_string RInvariantViolation = ''invariant_violation''"
| "refusal_to_string PersistenceFailure = ''persistence_failure''"
| "refusal_to_string BoundaryNotImplemented = ''boundary_not_implemented''"

fun outcome_to_string :: "OutcomeCode \<Rightarrow> string" where
  "outcome_to_string Applied = ''applied''"
| "outcome_to_string IdempotentReplay = ''idempotent_replay''"
| "outcome_to_string AlreadySatisfied = ''already_satisfied''"
| "outcome_to_string Refused = ''refused''"

definition is_conservative_refusal :: "RefusalCode \<Rightarrow> bool" where
  "is_conservative_refusal c \<longleftrightarrow> c \<in> {
    UnsupportedCapability, UnsupportedEvidenceKind, RMissingEvidence, RStaleEvidence,
    RConflictingEvidence, InvalidEvidence, RStaleGeneration, RStaleEpoch, RStaleIncarnation,
    StaleReservation, RReservationExpired, RNotAuthoritative, PlannerUnavailable,
    RouteUnresolved, BoundaryNotImplemented}"

fun to_error_code :: "RefusalCode \<Rightarrow> ErrorCode" where
  "to_error_code RNone = Ok"
| "to_error_code RInvalidArgument = InvalidArgument"
| "to_error_code UnknownResource = NotFound"
| "to_error_code RNameInvalid = NameInvalid"
| "to_error_code RIdentityCollision = IdentityCollision"
| "to_error_code UnsupportedCapability = Unsupported"
| "to_error_code UnsupportedEvidenceKind = Unsupported"
| "to_error_code RMissingEvidence = MissingEvidence"
| "to_error_code RStaleEvidence = StaleEvidence"
| "to_error_code RConflictingEvidence = ConflictingEvidence"
| "to_error_code InvalidEvidence = InvalidArgument"
| "to_error_code RStaleGeneration = StaleGeneration"
| "to_error_code RStaleEpoch = StaleEpoch"
| "to_error_code RStaleIncarnation = StaleIncarnation"
| "to_error_code StaleReservation = ReservationExpired"
| "to_error_code RReservationExpired = ReservationExpired"
| "to_error_code RReservationNotHeld = ReservationNotHeld"
| "to_error_code ReservationConflict = ConflictingClaim"
| "to_error_code RConflictingClaim = ConflictingClaim"
| "to_error_code DuplicateClaim = AlreadyExists"
| "to_error_code RIllegalTransition = IllegalTransition"
| "to_error_code ObjectRetired = IllegalTransition"
| "to_error_code ObjectActive = IllegalTransition"
| "to_error_code ObjectNotActive = IllegalTransition"
| "to_error_code RNotAuthoritative = NotAuthoritative"
| "to_error_code RAttemptConflict = AttemptConflict"
| "to_error_code PlannerUnavailable = Unsupported"
| "to_error_code RouteUnresolved = NotFound"
| "to_error_code RCapacityExceeded = CapacityExceeded"
| "to_error_code RInvariantViolation = InvariantViolation"
| "to_error_code PersistenceFailure = StoreIo"
| "to_error_code BoundaryNotImplemented = UnsupportedBoundary"

interpretation refusal_tokens: token_table refusal_to_string all_refusals
proof
  fix x show "x \<in> set all_refusals" by (cases x) (simp_all add: all_refusals_def)
next
  show "distinct (map refusal_to_string all_refusals)" by (simp add: all_refusals_def)
qed

interpretation outcome_tokens: token_table outcome_to_string
  "[Applied, IdempotentReplay, AlreadySatisfied, Refused]"
proof
  fix x show "x \<in> set [Applied, IdempotentReplay, AlreadySatisfied, Refused]" by (cases x) simp_all
qed simp

lemma to_error_code_Ok_iff: "to_error_code c = Ok \<longleftrightarrow> c = RNone"
  by (cases c) simp_all

section \<open>Limits\<close>

record Limits =
  max_sites :: nat
  max_optical_nodes :: nat
  max_ports :: nat
  max_line_systems :: nat
  max_spans :: nat
  max_cross_connects :: nat
  max_channels :: nat
  max_wavelength_references :: nat
  max_name_length :: nat
  max_evidence_records :: nat
  max_evidence_sources :: nat
  max_evidence_detail_length :: nat
  max_connectivity_objects :: nat
  max_path_segments :: nat
  max_reservations :: nat
  max_attempt_history_per_object :: nat
  max_attempt_history_total :: nat
  max_authority_grants :: nat
  max_controllers :: nat
  max_diagnostics :: nat
  max_fence_reasons_history :: nat
  max_record_payload_bytes :: nat
  max_journal_bytes :: nat
  max_journal_records :: nat
  max_persisted_attempts :: nat
  max_frame_payload_bytes :: nat
  max_connections :: nat
  max_outbound_queue :: nat

definition default_limits :: Limits where
  "default_limits = \<lparr>
    max_sites = 4096, max_optical_nodes = 16384, max_ports = 262144, max_line_systems =
    16384, max_spans = 65536, max_cross_connects = 262144, max_channels = 65536,
    max_wavelength_references = 65536, max_name_length = 128, max_evidence_records = 131072,
    max_evidence_sources = 64, max_evidence_detail_length = 512, max_connectivity_objects =
    65536, max_path_segments = 256, max_reservations = 65536, max_attempt_history_per_object
    = 64, max_attempt_history_total = 65536, max_authority_grants = 4096, max_controllers =
    1024, max_diagnostics = 8192, max_fence_reasons_history = 1024, max_record_payload_bytes
    = 4194304, max_journal_bytes = 67108864, max_journal_records = 200000,
    max_persisted_attempts = 65536, max_frame_payload_bytes = 1048576, max_connections = 16,
    max_outbound_queue = 256\<rparr>"

definition limits_checks :: "Limits \<Rightarrow> nat list" where
  "limits_checks l = [
    max_sites l, max_optical_nodes l, max_ports l, max_line_systems l, max_spans l,
    max_cross_connects l, max_channels l, max_wavelength_references l, max_name_length l,
    max_evidence_records l, max_evidence_sources l, max_evidence_detail_length l,
    max_connectivity_objects l, max_path_segments l, max_reservations l,
    max_attempt_history_per_object l, max_attempt_history_total l, max_authority_grants l,
    max_controllers l, max_diagnostics l, max_fence_reasons_history l,
    max_record_payload_bytes l, max_journal_bytes l, max_journal_records l,
    max_persisted_attempts l, max_frame_payload_bytes l, max_connections l,
    max_outbound_queue l]"

definition limits_validate :: "Limits \<Rightarrow> Status" where
  "limits_validate l =
     (if \<exists>v \<in> set (limits_checks l). v = 0 then InvalidArgument
      else if max_path_segments l > 4096 then InvalidArgument
      else if max_evidence_detail_length l > 65536 then InvalidArgument
      else if max_record_payload_bytes l > 2 ^ 30 then InvalidArgument
      else if max_frame_payload_bytes l > 2 ^ 30 then InvalidArgument
      else if max_attempt_history_per_object l > max_attempt_history_total l then InvalidArgument
      else Ok)"

definition fits_u32 :: "nat \<Rightarrow> bool" where
  "fits_u32 value \<longleftrightarrow> value \<le> 0xFFFFFFFF"

definition fits_u16 :: "nat \<Rightarrow> bool" where
  "fits_u16 value \<longleftrightarrow> value \<le> 0xFFFF"

lemma limits_validate_Ok_iff:
  "limits_validate l = Ok \<longleftrightarrow>
     (\<forall>v \<in> set (limits_checks l). 0 < v) \<and> max_path_segments l \<le> 4096 \<and>
     max_evidence_detail_length l \<le> 65536 \<and> max_record_payload_bytes l \<le> 2 ^ 30 \<and>
     max_frame_payload_bytes l \<le> 2 ^ 30 \<and>
     max_attempt_history_per_object l \<le> max_attempt_history_total l"
  by (auto simp: limits_validate_def not_less intro: gr0I)

lemma limits_valid_positive:
  assumes "limits_validate l = Ok"
  shows "0 < max_attempt_history_per_object l" "0 < max_attempt_history_total l"
    "0 < max_fence_reasons_history l" "0 < max_diagnostics l" "0 < max_journal_records l"
  using assms by (auto simp: limits_validate_Ok_iff limits_checks_def)

lemma default_limits_valid: "limits_validate default_limits = Ok"
  by (simp add: limits_validate_def limits_checks_def default_limits_def)

lemma fits_u32_exact: "fits_u32 n \<longleftrightarrow> unat (of_nat n :: u32) = n"
proof -
  have "unat (of_nat n :: u32) = n mod 2 ^ 32" by (simp add: unat_of_nat)
  then show ?thesis by (auto simp: fits_u32_def mod_eq_self_iff_div_eq_0 div_eq_0_iff)
qed

lemma fits_u16_exact: "fits_u16 n \<longleftrightarrow> unat (of_nat n :: u16) = n"
proof -
  have "unat (of_nat n :: u16) = n mod 2 ^ 16" by (simp add: unat_of_nat)
  then show ?thesis by (auto simp: fits_u16_def mod_eq_self_iff_div_eq_0 div_eq_0_iff)
qed

end
