(* ===== verification/Digest.thy ===== *)
theory Digest
  imports Errors
begin

text \<open>
  Hashing and checksums (\<open>digest.hpp\<close>, \<open>digest.cpp\<close>, \<open>crc_stream.cpp\<close>): FNV-1a, the second
  64-bit mixing hash, the canonical hasher that combines both, the table-driven CRC-32C that
  frames the store, and the fixed-width hexadecimal text of identities and digests.
\<close>

section \<open>FNV-1a and the mixing hash\<close>

definition kFnvOffsetBasis :: u64 where "kFnvOffsetBasis = 0xCBF29CE484222325"
definition kFnvPrime :: u64 where "kFnvPrime = 0x00000100000001B3"

definition text_bytes :: "string \<Rightarrow> u8 list" where
  "text_bytes s = map of_char s"

definition u64_bytes :: "u64 \<Rightarrow> u8 list" where
  "u64_bytes v = map (\<lambda>i. ucast (drop_bit (8 * i) v AND 0xFF)) [0..<8]"

definition fnv_update :: "u64 \<Rightarrow> u8 list \<Rightarrow> u64" where
  "fnv_update state bytes = foldl (\<lambda>st b. (st XOR ucast b) * kFnvPrime) state bytes"

record Mix64 =
  mix_state :: u64
  mix_length :: u64

definition mix_init :: Mix64 where
  "mix_init = \<lparr>mix_state = 0x9E3779B97F4A7C15, mix_length = 0\<rparr>"

fun mix_loop :: "u64 \<Rightarrow> u64 \<Rightarrow> u64 \<Rightarrow> u8 list \<Rightarrow> u64" where
  "mix_loop state len index [] = state"
| "mix_loop state len index (b # bs) =
     (let value = ucast b + (index + len);
          s1 = state + value;
          s2 = s1 + push_bit 10 s1;
          s3 = s2 XOR drop_bit 6 s2
      in mix_loop s3 len (index + 1) bs)"

definition mix_update :: "Mix64 \<Rightarrow> u8 list \<Rightarrow> Mix64" where
  "mix_update m bytes =
     (let s = mix_loop (mix_state m) (mix_length m) 0 bytes;
          s1 = s + push_bit 3 s;
          s2 = s1 XOR drop_bit 11 s1;
          s3 = s2 + push_bit 15 s2
      in \<lparr>mix_state = s3, mix_length = mix_length m + of_nat (length bytes)\<rparr>)"

datatype Digest128 = Digest128 (dg_high: u64) (dg_low: u64)

definition nil_digest :: Digest128 where "nil_digest = Digest128 0 0"

record CanonicalHasher =
  ch_fnv :: u64
  ch_mix :: Mix64

definition hasher_init :: CanonicalHasher where
  "hasher_init = \<lparr>ch_fnv = kFnvOffsetBasis, ch_mix = mix_init\<rparr>"

definition hasher_raw_bytes :: "u8 list \<Rightarrow> CanonicalHasher \<Rightarrow> CanonicalHasher" where
  "hasher_raw_bytes bs h = \<lparr>ch_fnv = fnv_update (ch_fnv h) bs, ch_mix = mix_update (ch_mix h) bs\<rparr>"

definition add_raw :: "string \<Rightarrow> CanonicalHasher \<Rightarrow> CanonicalHasher" where
  "add_raw t h = hasher_raw_bytes (text_bytes t) h"

definition add_bytes :: "string \<Rightarrow> CanonicalHasher \<Rightarrow> CanonicalHasher" where
  "add_bytes t h =
     hasher_raw_bytes (text_bytes t) (hasher_raw_bytes (u64_bytes (of_nat (length t))) h)"

definition add_field :: "string \<Rightarrow> string \<Rightarrow> CanonicalHasher \<Rightarrow> CanonicalHasher" where
  "add_field name v h = add_bytes v (add_bytes name h)"

definition add_field_u64 :: "string \<Rightarrow> u64 \<Rightarrow> CanonicalHasher \<Rightarrow> CanonicalHasher" where
  "add_field_u64 name v h = hasher_raw_bytes (u64_bytes v) (add_bytes name h)"

definition hasher_digest :: "CanonicalHasher \<Rightarrow> Digest128" where
  "hasher_digest h = Digest128 (ch_fnv h) (mix_state (ch_mix h))"

lemma fnv_update_append [simp]: "fnv_update s (xs @ ys) = fnv_update (fnv_update s xs) ys"
  by (simp add: fnv_update_def)

section \<open>Hexadecimal text\<close>

definition hex_char :: "u64 \<Rightarrow> char" where
  "hex_char n = (if unat n < 10 then char_of (48 + unat n) else char_of (87 + unat n))"

definition hex_encode :: "u64 \<Rightarrow> string" where
  "hex_encode value = map (\<lambda>i. hex_char (drop_bit (4 * i) value AND 15)) (rev [0..<16])"

text \<open>The nibble of one hexadecimal digit, lower-case only or either case.\<close>

definition hex_nibble :: "bool \<Rightarrow> char \<Rightarrow> u64 option" where
  "hex_nibble upper c =
     (let n = of_char c :: nat in
      if 48 \<le> n \<and> n \<le> 57 then Some (of_nat (n - 48))
      else if 97 \<le> n \<and> n \<le> 102 then Some (of_nat (n - 97 + 10))
      else if upper \<and> 65 \<le> n \<and> n \<le> 70 then Some (of_nat (n - 65 + 10))
      else None)"

fun parse_nibbles :: "bool \<Rightarrow> u64 \<Rightarrow> string \<Rightarrow> u64 option" where
  "parse_nibbles upper value [] = Some value"
| "parse_nibbles upper value (c # cs) =
     (case hex_nibble upper c of
        None \<Rightarrow> None
      | Some nibble \<Rightarrow> parse_nibbles upper (push_bit 4 value OR nibble) cs)"

definition parse_hex_u64 :: "string \<Rightarrow> u64 option" where
  "parse_hex_u64 text =
     (let digits = (case text of
            c0 # c1 # rest \<Rightarrow> if c0 = CHR ''0'' \<and> (c1 = CHR ''x'' \<or> c1 = CHR ''X'') then rest else text
          | _ \<Rightarrow> text)
      in if digits = [] \<or> length digits > 16 then None else parse_nibbles True 0 digits)"

definition digest_to_string :: "Digest128 \<Rightarrow> string" where
  "digest_to_string d = hex_encode (dg_high d) @ hex_encode (dg_low d)"

definition digest_parse :: "string \<Rightarrow> Digest128 option" where
  "digest_parse text =
     (if length text \<noteq> 32 then None
      else case parse_nibbles False 0 (take 16 text) of
             None \<Rightarrow> None
           | Some high \<Rightarrow> (case parse_nibbles False 0 (drop 16 text) of
                 None \<Rightarrow> None
               | Some low \<Rightarrow> Some (Digest128 high low)))"

lemma nibble_lt16: "unat (drop_bit k (w :: u64) AND 15) < 16"
proof -
  have "drop_bit k w AND 15 \<le> 15" by (rule word_and_le1)
  then have "unat (drop_bit k w AND 15) \<le> unat (15 :: u64)" by (simp only: word_le_nat_alt)
  then show ?thesis by simp
qed

lemma hex_nibble_char_nat:
  "\<forall>n < 16. hex_nibble upper (if n < 10 then char_of (48 + n) else char_of (87 + n :: nat)) =
     Some (of_nat n)"
proof -
  have "\<forall>n \<in> set [0..<16]. hex_nibble upper (if n < 10 then char_of (48 + n) else char_of (87 + n :: nat)) =
     Some (of_nat n)"
    by (simp add: hex_nibble_def upt_rec Let_def of_char_of)
  then show ?thesis by simp
qed

lemma hex_nibble_hex_char: "unat n < 16 \<Longrightarrow> hex_nibble upper (hex_char n) = Some n"
  using hex_nibble_char_nat [of upper] by (auto simp: hex_char_def)

lemma bit_mask_const: "(c :: 'a::len word) = mask n \<Longrightarrow> bit c i \<longleftrightarrow> i < LENGTH('a) \<and> i < n"
  by (auto simp: bit_mask_iff)

lemma shift_in_nibble:
  "push_bit 4 (drop_bit (4 * Suc n) (w :: u64)) OR (drop_bit (4 * n) w AND 15) = drop_bit (4 * n) w"
proof (rule bit_word_eqI)
  fix i assume i: "i < LENGTH(64)"
  have "(15 :: u64) = mask 4" by (simp add: mask_eq_exp_minus_1)
  from bit_mask_const [OF this, of i] i have "bit (15 :: u64) i \<longleftrightarrow> i < 4" by simp
  then show "bit (push_bit 4 (drop_bit (4 * Suc n) w) OR (drop_bit (4 * n) w AND 15)) i =
      bit (drop_bit (4 * n) w) i"
    using i by (auto simp: bit_simps not_less algebra_simps)
qed

lemma parse_nibbles_encode:
  "parse_nibbles upper (drop_bit (4 * n) w)
     (map (\<lambda>i. hex_char (drop_bit (4 * i) w AND 15)) (rev [0..<n])) = Some w"
proof (induction n)
  case 0
  then show ?case by simp
next
  case (Suc n)
  have "hex_nibble upper (hex_char (drop_bit (4 * n) w AND 15)) = Some (drop_bit (4 * n) w AND 15)"
    by (rule hex_nibble_hex_char) (rule nibble_lt16)
  with Suc show ?case using shift_in_nibble [of n w] by simp
qed

lemma length_hex_encode [simp]: "length (hex_encode w) = 16"
  by (simp add: hex_encode_def)

lemma parse_nibbles_hex_encode [simp]: "parse_nibbles upper 0 (hex_encode w) = Some w"
proof -
  have "drop_bit (4 * 16) w = 0" by (rule bit_word_eqI) (simp add: bit_simps)
  then show ?thesis using parse_nibbles_encode [of upper 16 w] by (simp add: hex_encode_def)
qed

lemma hex_encode_inj: "hex_encode a = hex_encode b \<longleftrightarrow> a = b"
  using parse_nibbles_hex_encode by (metis option.inject)

lemma hex_char_not_x: "unat n < 16 \<Longrightarrow> hex_char n \<noteq> CHR ''x'' \<and> hex_char n \<noteq> CHR ''X''"
  using hex_nibble_hex_char [of n True]
  by (auto simp: hex_nibble_def Let_def split: if_splits)

lemma parse_hex_u64_hex_encode: "parse_hex_u64 (hex_encode w) = Some w"
proof -
  obtain c0 c1 rest where h: "hex_encode w = c0 # c1 # rest"
    and c1: "c1 = hex_char (drop_bit (4 * 14) w AND 15)"
    by (simp add: hex_encode_def upt_rec)
  have "c1 \<noteq> CHR ''x'' \<and> c1 \<noteq> CHR ''X''"
    unfolding c1 by (rule hex_char_not_x) (rule nibble_lt16)
  then show ?thesis
    using parse_nibbles_hex_encode [of True w] length_hex_encode [of w]
    by (simp add: parse_hex_u64_def Let_def h)
qed

lemma digest_parse_to_string: "digest_parse (digest_to_string d) = Some d"
  by (cases d) (simp add: digest_parse_def digest_to_string_def)

section \<open>CRC-32C\<close>

definition crc_polynomial :: u32 where "crc_polynomial = 0x82F63B78"

definition crc_bit :: "u32 \<Rightarrow> u32" where
  "crc_bit value = (if value AND 1 \<noteq> 0 then drop_bit 1 value XOR crc_polynomial else drop_bit 1 value)"

definition crc_table :: "u32 \<Rightarrow> u32" where
  "crc_table index = (crc_bit ^^ 8) index"

definition crc_update :: "u32 \<Rightarrow> u8 list \<Rightarrow> u32" where
  "crc_update state bytes =
     foldl (\<lambda>st b. crc_table ((st XOR ucast b) AND 0xFF) XOR drop_bit 8 st) state bytes"

definition crc32c :: "u8 list \<Rightarrow> u32" where
  "crc32c bytes = crc_update 0xFFFFFFFF bytes XOR 0xFFFFFFFF"

text \<open>The textbook definition: feed the message bit by bit through the shift register.\<close>

definition crc_update_bitwise :: "u32 \<Rightarrow> u8 list \<Rightarrow> u32" where
  "crc_update_bitwise state bytes = foldl (\<lambda>st b. (crc_bit ^^ 8) (st XOR ucast b)) state bytes"

lemma and_one_bit0: "(x :: u32) AND 1 \<noteq> 0 \<longleftrightarrow> bit x 0"
  by (simp add: and_one_eq bit_0 odd_iff_mod_2_eq_one)

lemma crc_bit_xor: "crc_bit (a XOR b) = crc_bit a XOR crc_bit b"
  by (auto simp: crc_bit_def and_one_bit0 bit_simps intro!: bit_word_eqI)

lemma crc_bits_xor: "(crc_bit ^^ n) (a XOR b) = (crc_bit ^^ n) a XOR (crc_bit ^^ n) b"
  by (induction n) (simp_all add: crc_bit_xor)

lemma crc_bits_shift:
  "(\<forall>i < n. \<not> bit x i) \<Longrightarrow> (crc_bit ^^ n) x = drop_bit n x"
proof (induction n)
  case 0
  then show ?case by simp
next
  case (Suc n)
  then have "(crc_bit ^^ n) x = drop_bit n x" and "\<not> bit (drop_bit n x) 0"
    by (simp_all add: bit_simps)
  then have "(crc_bit ^^ Suc n) x = drop_bit 1 (drop_bit n x)"
    by (simp add: crc_bit_def and_one_bit0)
  then show ?case by (simp add: drop_bit_drop_bit)
qed

lemma xor_mask_split: "(x :: u32) = (x AND m) XOR (x AND NOT m)"
  by (rule bit_word_eqI) (auto simp: bit_simps)

lemma high_part_shift:
  assumes "\<And>i. bit m i \<longleftrightarrow> i < n"
  shows "(crc_bit ^^ n) (x AND NOT m) = drop_bit n x"
proof -
  have "(crc_bit ^^ n) (x AND NOT m) = drop_bit n (x AND NOT m)"
    by (rule crc_bits_shift) (simp add: bit_simps assms)
  also have "\<dots> = drop_bit n x"
    by (rule bit_word_eqI) (auto simp: bit_simps assms dest: bit_imp_le_length)
  finally show ?thesis .
qed

lemma crc_step_table:
  "(crc_bit ^^ 8) x = crc_table (x AND 0xFF) XOR drop_bit 8 x"
proof -
  have eq: "(0xFF :: u32) = mask 8" by (simp add: mask_eq_exp_minus_1)
  have low: "bit (0xFF :: u32) i \<longleftrightarrow> i < 8" for i
    unfolding bit_mask_const [OF eq] by auto
  have "(crc_bit ^^ 8) x = (crc_bit ^^ 8) ((x AND 0xFF) XOR (x AND NOT 0xFF))"
    by (subst xor_mask_split [of x "0xFF"]) (rule refl)
  also have "\<dots> = (crc_bit ^^ 8) (x AND 0xFF) XOR (crc_bit ^^ 8) (x AND NOT 0xFF)"
    by (rule crc_bits_xor)
  also have "(crc_bit ^^ 8) (x AND NOT 0xFF) = drop_bit 8 x"
    by (rule high_part_shift) (rule low)
  finally show ?thesis unfolding crc_table_def .
qed

lemma drop_bit_byte: "drop_bit 8 (ucast (b :: u8) :: u32) = 0"
proof (rule bit_word_eqI)
  fix n
  have "\<not> bit b (8 + n)" using bit_imp_le_length [of b "8 + n"] by auto
  then show "bit (drop_bit 8 (ucast b :: u32)) n = bit (0 :: u32) n" by (simp add: bit_simps)
qed

lemma crc_update_eq_bitwise: "crc_update = crc_update_bitwise"
proof (intro ext)
  fix st bs
  show "crc_update st bs = crc_update_bitwise st bs"
    unfolding crc_update_def crc_update_bitwise_def
    by (induction bs arbitrary: st) (simp_all add: crc_step_table drop_bit_byte)
qed

lemma crc_update_append: "crc_update st (xs @ ys) = crc_update (crc_update st xs) ys"
  by (simp add: crc_update_def)

end
