(* ===== verification/Identity.thy ===== *)
theory Identity
  imports Digest
begin

text \<open>
  Strongly typed identities (\<open>identity.hpp\<close>, \<open>identity.cpp\<close>). Every \<open>StrongId\<close> is a 64-bit
  value, zero meaning nil; a \<open>ResourceRef\<close> pairs a resource kind with such a value and is
  ordered by kind first, as the defaulted comparison of the source orders it. Names are
  validated and hashed, domain separated, never to the nil identity.
\<close>

section \<open>Resource kinds and references\<close>

datatype ResourceKind =
  KUnknown | KSite | KOpticalNode | KPort | KLineSystem | KSpan | KCrossConnect | KChannel
| KWavelengthReference

datatype SharingMode = Exclusive | Channelized

fun kind_code :: "ResourceKind \<Rightarrow> nat" where
  "kind_code KUnknown = 0" | "kind_code KSite = 1" | "kind_code KOpticalNode = 2"
| "kind_code KPort = 3" | "kind_code KLineSystem = 4" | "kind_code KSpan = 5"
| "kind_code KCrossConnect = 6" | "kind_code KChannel = 7" | "kind_code KWavelengthReference = 8"

lemma kind_code_inj: "kind_code a = kind_code b \<longleftrightarrow> a = b"
  by (cases a; cases b) simp_all

instantiation ResourceKind :: linorder
begin

definition less_eq_ResourceKind :: "ResourceKind \<Rightarrow> ResourceKind \<Rightarrow> bool" where
  "less_eq_ResourceKind a b \<longleftrightarrow> kind_code a \<le> kind_code b"

definition less_ResourceKind :: "ResourceKind \<Rightarrow> ResourceKind \<Rightarrow> bool" where
  "less_ResourceKind a b \<longleftrightarrow> kind_code a < kind_code b"

instance
  by standard (auto simp: less_eq_ResourceKind_def less_ResourceKind_def kind_code_inj)

end

definition all_resource_kinds :: "ResourceKind list" where
  "all_resource_kinds = [KUnknown, KSite, KOpticalNode, KPort, KLineSystem, KSpan, KCrossConnect,
     KChannel, KWavelengthReference]"

fun resource_kind_to_string :: "ResourceKind \<Rightarrow> string" where
  "resource_kind_to_string KUnknown = ''unknown''"
| "resource_kind_to_string KSite = ''site''"
| "resource_kind_to_string KOpticalNode = ''optical-node''"
| "resource_kind_to_string KPort = ''port''"
| "resource_kind_to_string KLineSystem = ''line-system''"
| "resource_kind_to_string KSpan = ''span''"
| "resource_kind_to_string KCrossConnect = ''cross-connect''"
| "resource_kind_to_string KChannel = ''channel''"
| "resource_kind_to_string KWavelengthReference = ''wavelength-reference''"

definition resource_kind_from_string :: "string \<Rightarrow> ResourceKind" where
  "resource_kind_from_string text =
     (case token_search resource_kind_to_string all_resource_kinds text of
        Some k \<Rightarrow> k | None \<Rightarrow> KUnknown)"

fun sharing_to_string :: "SharingMode \<Rightarrow> string" where
  "sharing_to_string Exclusive = ''exclusive''"
| "sharing_to_string Channelized = ''channelized''"

interpretation kind_tokens: token_table resource_kind_to_string all_resource_kinds
proof
  fix x show "x \<in> set all_resource_kinds" by (cases x) (simp_all add: all_resource_kinds_def)
next
  show "distinct (map resource_kind_to_string all_resource_kinds)"
    by (simp add: all_resource_kinds_def)
qed

lemma resource_kind_round_trip [simp]:
  "resource_kind_from_string (resource_kind_to_string k) = k"
  by (simp add: resource_kind_from_string_def kind_tokens.search_tok)

datatype ResourceRef = ResourceRef (ref_kind: ResourceKind) (ref_id: u64)

instantiation ResourceRef :: linorder
begin

definition less_eq_ResourceRef :: "ResourceRef \<Rightarrow> ResourceRef \<Rightarrow> bool" where
  "less_eq_ResourceRef a b \<longleftrightarrow> (ref_kind a, ref_id a) \<le> (ref_kind b, ref_id b)"

definition less_ResourceRef :: "ResourceRef \<Rightarrow> ResourceRef \<Rightarrow> bool" where
  "less_ResourceRef a b \<longleftrightarrow> (ref_kind a, ref_id a) < (ref_kind b, ref_id b)"

instance
  by standard (auto simp: less_eq_ResourceRef_def less_ResourceRef_def less_le_not_le
      intro: ResourceRef.expand)

end

definition nil_ref :: ResourceRef where "nil_ref = ResourceRef KUnknown 0"

definition ref_is_nil :: "ResourceRef \<Rightarrow> bool" where
  "ref_is_nil r \<longleftrightarrow> ref_kind r = KUnknown \<or> ref_id r = 0"

definition ref_to_string :: "ResourceRef \<Rightarrow> string" where
  "ref_to_string r = resource_kind_to_string (ref_kind r) @ '':'' @ hex_encode (ref_id r)"

definition ref_parse :: "string \<Rightarrow> ResourceRef option" where
  "ref_parse text =
     (if CHR '':'' \<notin> set text then None
      else let kind = resource_kind_from_string (takeWhile (\<lambda>c. c \<noteq> CHR '':'') text) in
        if kind = KUnknown then None
        else case parse_hex_u64 (tl (dropWhile (\<lambda>c. c \<noteq> CHR '':'') text)) of
               None \<Rightarrow> None
             | Some i \<Rightarrow> Some (ResourceRef kind i))"

lemma kind_token_no_colon: "\<forall>c \<in> set (resource_kind_to_string k). c \<noteq> CHR '':''"
  by (cases k) simp_all

lemma ref_parse_to_string:
  "ref_parse (ref_to_string r) = (if ref_kind r = KUnknown then None else Some r)"
proof -
  have tw: "takeWhile (\<lambda>c. c \<noteq> CHR '':'') (ref_to_string r) = resource_kind_to_string (ref_kind r)"
    and dw: "dropWhile (\<lambda>c. c \<noteq> CHR '':'') (ref_to_string r) = '':'' @ hex_encode (ref_id r)"
    using kind_token_no_colon [of "ref_kind r"]
    by (simp_all add: ref_to_string_def takeWhile_append2 dropWhile_append2)
  have "CHR '':'' \<in> set (ref_to_string r)" by (simp add: ref_to_string_def)
  then show ?thesis
    by (simp add: ref_parse_def tw dw parse_hex_u64_hex_encode)
qed

section \<open>Names\<close>

definition kCanonicalDomain :: string where "kCanonicalDomain = ''ofab/1''"

definition is_name_byte :: "char \<Rightarrow> bool" where
  "is_name_byte c \<longleftrightarrow>
     (let n = of_char c :: nat in
      (65 \<le> n \<and> n \<le> 90) \<or> (97 \<le> n \<and> n \<le> 122) \<or> (48 \<le> n \<and> n \<le> 57) \<or>
      c = CHR ''.'' \<or> c = CHR ''_'' \<or> c = CHR '':'' \<or> c = CHR ''-'')"

definition is_separator :: "char \<Rightarrow> bool" where
  "is_separator c \<longleftrightarrow> c = CHR ''.'' \<or> c = CHR ''-'' \<or> c = CHR '':'' \<or> c = CHR ''_''"

definition names_valid :: "string \<Rightarrow> nat \<Rightarrow> bool" where
  "names_valid name max_length \<longleftrightarrow>
     (if name = [] \<or> length name > max_length then False
      else if is_separator (hd name) then False
      else if is_separator (last name) then False
      else list_all is_name_byte name)"

datatype NameDefect =
  NameEmpty | NameTooLong | NameLeadingSeparator | NameTrailingSeparator | NameBadCharacter
| NameUnspecified

text \<open>The branch \<open>Names::invalid_reason\<close> takes, named by its message.\<close>

definition names_invalid_reason :: "string \<Rightarrow> nat \<Rightarrow> NameDefect" where
  "names_invalid_reason name max_length =
     (if name = [] then NameEmpty
      else if length name > max_length then NameTooLong
      else if is_separator (hd name) then NameLeadingSeparator
      else if is_separator (last name) then NameTrailingSeparator
      else if \<not> list_all is_name_byte name then NameBadCharacter
      else NameUnspecified)"

definition never_nil :: "u64 \<Rightarrow> u64" where
  "never_nil value = (if value = 0 then 0x9E3779B97F4A7C15 else value)"

definition derive_resource :: "ResourceKind \<Rightarrow> string \<Rightarrow> u64" where
  "derive_resource kind name =
     never_nil (fnv_update (fnv_update (fnv_update (fnv_update (fnv_update kFnvOffsetBasis
       (text_bytes kCanonicalDomain)) [0x1F]) (text_bytes (resource_kind_to_string kind))) [0x1F])
       (text_bytes name))"

definition derive_named :: "string \<Rightarrow> string \<Rightarrow> u64" where
  "derive_named domain name =
     never_nil (fnv_update (fnv_update (fnv_update (fnv_update (fnv_update kFnvOffsetBasis
       (text_bytes kCanonicalDomain)) [0x1E]) (text_bytes domain)) [0x1F]) (text_bytes name))"

definition derive_composite :: "string \<Rightarrow> string \<Rightarrow> u64" where
  "derive_composite domain canonical =
     never_nil (fnv_update (fnv_update (fnv_update (fnv_update (fnv_update kFnvOffsetBasis
       (text_bytes kCanonicalDomain)) [0x1D]) (text_bytes domain)) [0x1F]) (text_bytes canonical))"

lemma never_nil_neq0 [simp]: "never_nil v \<noteq> 0"
  by (simp add: never_nil_def)

lemma derive_never_nil [simp]:
  "derive_resource k n \<noteq> 0" "derive_named d n \<noteq> 0" "derive_composite d c \<noteq> 0"
  by (simp_all add: derive_resource_def derive_named_def derive_composite_def)

lemma names_valid_iff_no_reason:
  "names_valid name n \<longleftrightarrow> names_invalid_reason name n = NameUnspecified"
  by (simp add: names_valid_def names_invalid_reason_def)

lemma names_valid_no_control:
  assumes "names_valid name n"
  shows "CHR 0x0A \<notin> set name \<and> CHR ''='' \<notin> set name \<and> name \<noteq> []"
proof -
  have "\<not> is_name_byte (CHR 0x0A)" "\<not> is_name_byte (CHR ''='')"
    by (simp_all add: is_name_byte_def)
  moreover have "\<forall>c \<in> set name. is_name_byte c" "name \<noteq> []"
    using assms by (auto simp: names_valid_def list_all_iff split: if_splits)
  ultimately show ?thesis by blast
qed

end
