(* ===== verification/Generation.thy ===== *)
theory Generation
  imports Identity
begin

text \<open>
  Time, epochs, generations, incarnations and authority scopes (\<open>generation.hpp\<close>,
  \<open>generation.cpp\<close>). Ticks, epochs and generations are 64-bit counters whose successor wraps.
\<close>

record Incarnation =
  boot_sequence :: u64
  inc_instance :: Digest128
  inc_host_label :: string

definition nil_incarnation :: Incarnation where
  "nil_incarnation = \<lparr>boot_sequence = 0, inc_instance = nil_digest, inc_host_label = ''''\<rparr>"

datatype ScopeKind = ScopeNone | ScopeSite | ScopeGlobal

datatype AuthorityScope = AuthorityScope (scope_kind: ScopeKind) (scope_site: u64)

definition scope_none :: AuthorityScope where "scope_none = AuthorityScope ScopeNone 0"
definition scope_global :: AuthorityScope where "scope_global = AuthorityScope ScopeGlobal 0"
definition of_site :: "u64 \<Rightarrow> AuthorityScope" where "of_site site = AuthorityScope ScopeSite site"

definition covers :: "AuthorityScope \<Rightarrow> AuthorityScope \<Rightarrow> bool" where
  "covers self other \<longleftrightarrow>
     (if scope_kind self = ScopeNone then False
      else if scope_kind self = ScopeGlobal then True
      else scope_kind other = ScopeSite \<and> scope_site other = scope_site self)"

definition overlaps :: "AuthorityScope \<Rightarrow> AuthorityScope \<Rightarrow> bool" where
  "overlaps self other \<longleftrightarrow>
     (if scope_kind self = ScopeNone \<or> scope_kind other = ScopeNone then False
      else if scope_kind self = ScopeGlobal \<or> scope_kind other = ScopeGlobal then True
      else scope_site self = scope_site other)"

definition scope_to_string :: "AuthorityScope \<Rightarrow> string" where
  "scope_to_string s =
     (case scope_kind s of ScopeNone \<Rightarrow> ''none'' | ScopeGlobal \<Rightarrow> ''global''
      | ScopeSite \<Rightarrow> ''site:'' @ hex_encode (scope_site s))"

record AuthorityToken =
  tok_grant :: u64
  tok_holder :: u64
  tok_epoch :: u64
  tok_incarnation :: Incarnation
  tok_scope :: AuthorityScope
  tok_generation :: u64

definition nil_token :: AuthorityToken where
  "nil_token = \<lparr>tok_grant = 0, tok_holder = 0, tok_epoch = 0, tok_incarnation = nil_incarnation,
     tok_scope = scope_none, tok_generation = 0\<rparr>"

definition token_is_nil :: "AuthorityToken \<Rightarrow> bool" where
  "token_is_nil t \<longleftrightarrow> tok_grant t = 0 \<or> tok_epoch t = 0"

definition token_to_string :: "AuthorityToken \<Rightarrow> string" where
  "token_to_string t =
     ''grant='' @ hex_encode (tok_grant t) @ '' holder='' @ hex_encode (tok_holder t) @
     '' epoch='' @ to_decimal (tok_epoch t) @ '' gen='' @ to_decimal (tok_generation t) @
     '' scope='' @ scope_to_string (tok_scope t) @
     '' boot='' @ to_decimal (boot_sequence (tok_incarnation t))"

datatype AuthorityCurrentness =
  Current | NoAuthority | UnknownGrant | ScopeNotCovered | AStaleEpoch | AStaleIncarnation
| Expired | HolderMismatch

datatype FenceReason =
  ExplicitOperatorFence | SupersededByNewerEpoch | SupersededByNewerIncarnation | StoreTakeover
| AuthorityReleased | ScopeRevoked

record FenceRecord =
  fr_grant :: u64
  fr_holder :: u64
  fr_fenced_epoch :: u64
  fr_fencing_epoch :: u64
  fr_fenced_boot :: u64
  fr_fencing_boot :: u64
  fr_scope :: AuthorityScope
  fr_reason :: FenceReason
  fr_fenced_tick :: u64

definition nil_fence :: FenceRecord where
  "nil_fence = \<lparr>fr_grant = 0, fr_holder = 0, fr_fenced_epoch = 0, fr_fencing_epoch = 0,
     fr_fenced_boot = 0, fr_fencing_boot = 0, fr_scope = scope_none,
     fr_reason = ExplicitOperatorFence, fr_fenced_tick = 0\<rparr>"

lemma overlaps_sym: "overlaps a b \<longleftrightarrow> overlaps b a"
  by (auto simp: overlaps_def)

lemma overlaps_refl: "overlaps a a \<longleftrightarrow> scope_kind a \<noteq> ScopeNone"
  by (simp add: overlaps_def)

lemma covers_overlaps: "covers a b \<Longrightarrow> scope_kind b \<noteq> ScopeNone \<Longrightarrow> overlaps a b"
  by (auto simp: covers_def overlaps_def split: if_splits)

lemma scope_kind_cases: "scope_kind s \<noteq> ScopeNone \<Longrightarrow> scope_kind s \<noteq> ScopeGlobal \<Longrightarrow> scope_kind s = ScopeSite"
  by (cases "scope_kind s") auto

lemma covers_trans: "covers a b \<Longrightarrow> covers b c \<Longrightarrow> covers a c"
  by (auto simp: covers_def split: if_splits)

text \<open>Two grants that both cover one site scope always overlap, so one of them is fenced.\<close>

lemma covers_same_overlap:
  assumes "covers a s" "covers b s"
  shows "overlaps a b"
  using assms by (auto simp: covers_def overlaps_def split: if_splits)

end
