(* ===== verification/Lifecycle.thy ===== *)
theory Lifecycle
  imports Generation
begin

text \<open>
  The lifecycle states of a connectivity object and their declared successor table
  (\<open>lifecycle.hpp\<close>, \<open>lifecycle.cpp\<close>).
\<close>

datatype ConnectivityState =
  Proposed | Validated | Reserved | Activating | Active | Degraded | Failed | Withdrawing
| Retired | SRefused

definition all_connectivity_states :: "ConnectivityState list" where
  "all_connectivity_states = [Proposed, Validated, Reserved, Activating, Active, Degraded, Failed,
     Withdrawing, Retired, SRefused]"

fun state_index :: "ConnectivityState \<Rightarrow> nat" where
  "state_index Proposed = 0" | "state_index Validated = 1" | "state_index Reserved = 2"
| "state_index Activating = 3" | "state_index Active = 4" | "state_index Degraded = 5"
| "state_index Failed = 6" | "state_index Withdrawing = 7" | "state_index Retired = 8"
| "state_index SRefused = 9"

definition kTransitions :: "bool list list" where
  "kTransitions = [
    [False, True, False, False, False, False, False, True, True, True],
    [False, False, True, False, False, False, False, True, True, True],
    [False, False, False, True, False, False, False, True, False, True],
    [False, False, False, False, True, False, True, True, False, False],
    [False, False, False, False, False, True, True, True, False, False],
    [False, False, False, False, True, False, True, True, False, False],
    [False, False, False, False, False, False, False, True, True, True],
    [False, False, False, False, False, False, True, False, True, False],
    [False, False, False, False, False, False, False, False, False, False],
    [False, False, False, False, False, False, False, True, True, False]]"

fun state_to_string :: "ConnectivityState \<Rightarrow> string" where
  "state_to_string Proposed = ''proposed''"
| "state_to_string Validated = ''validated''"
| "state_to_string Reserved = ''reserved''"
| "state_to_string Activating = ''activating''"
| "state_to_string Active = ''active''"
| "state_to_string Degraded = ''degraded''"
| "state_to_string Failed = ''failed''"
| "state_to_string Withdrawing = ''withdrawing''"
| "state_to_string Retired = ''retired''"
| "state_to_string SRefused = ''refused''"

definition connectivity_state_from_string :: "string \<Rightarrow> ConnectivityState option" where
  "connectivity_state_from_string text = token_search state_to_string all_connectivity_states text"

definition is_committed_state :: "ConnectivityState \<Rightarrow> bool" where
  "is_committed_state s \<longleftrightarrow> s = Active \<or> s = Degraded"

fun holds_claims :: "ConnectivityState \<Rightarrow> bool" where
  "holds_claims Reserved = True"
| "holds_claims Activating = True"
| "holds_claims Active = True"
| "holds_claims Degraded = True"
| "holds_claims Failed = True"
| "holds_claims Withdrawing = True"
| "holds_claims _ = False"

definition is_terminal_state :: "ConnectivityState \<Rightarrow> bool" where
  "is_terminal_state s \<longleftrightarrow> s = Retired"

definition transition_allowed :: "ConnectivityState \<Rightarrow> ConnectivityState \<Rightarrow> bool" where
  "transition_allowed from to = kTransitions ! state_index from ! state_index to"

record TransitionRecord =
  tr_from :: ConnectivityState
  tr_to :: ConnectivityState
  tr_outcome :: OutcomeCode
  tr_refusal :: RefusalCode
  tr_attempt :: u64
  tr_generation :: u64
  tr_epoch :: u64
  tr_tick :: u64

interpretation state_tokens: token_table state_to_string all_connectivity_states
proof
  fix x show "x \<in> set all_connectivity_states" by (cases x) (simp_all add: all_connectivity_states_def)
next
  show "distinct (map state_to_string all_connectivity_states)"
    by (simp add: all_connectivity_states_def)
qed

lemma transition_allowed_iff:
  "transition_allowed a b \<longleftrightarrow> b \<in> (case a of
      Proposed \<Rightarrow> {Validated, Withdrawing, Retired, SRefused}
    | Validated \<Rightarrow> {Reserved, Withdrawing, Retired, SRefused}
    | Reserved \<Rightarrow> {Activating, Withdrawing, SRefused}
    | Activating \<Rightarrow> {Active, Failed, Withdrawing}
    | Active \<Rightarrow> {Degraded, Failed, Withdrawing}
    | Degraded \<Rightarrow> {Active, Failed, Withdrawing}
    | Failed \<Rightarrow> {Withdrawing, Retired, SRefused}
    | Withdrawing \<Rightarrow> {Failed, Retired}
    | Retired \<Rightarrow> {}
    | SRefused \<Rightarrow> {Withdrawing, Retired})"
  by (cases a; cases b) (simp_all add: transition_allowed_def kTransitions_def numeral_eq_Suc)

lemma terminal_has_no_successor: "is_terminal_state a \<longleftrightarrow> (\<forall>b. \<not> transition_allowed a b)"
  by (cases a) (auto simp: is_terminal_state_def transition_allowed_iff)

lemma committed_only_from_activating:
  "transition_allowed a Active \<Longrightarrow> a = Activating \<or> a = Degraded"
  by (cases a) (auto simp: transition_allowed_iff)

end
