(* ===== verification/Evidence.thy ===== *)
theory Evidence
  imports Lifecycle
begin

text \<open>
  Evidence states, kinds and provenance, their conservative composition and the freshness
  policy (\<open>evidence.hpp\<close>, \<open>evidence.cpp\<close>). The constructor for an unsupported observation is
  \<open>EUnsupported\<close>, since the error vocabulary has an \<open>Unsupported\<close> of its own.
\<close>

section \<open>Evidence states and their composition\<close>

datatype EvidenceState =
  Known | Incomplete | Stale | Unknown | EUnsupported | Conflicting | Invalid

fun evidence_rank :: "EvidenceState \<Rightarrow> nat" where
  "evidence_rank Known = 0" | "evidence_rank Incomplete = 1" | "evidence_rank Stale = 2"
| "evidence_rank Unknown = 3" | "evidence_rank EUnsupported = 4" | "evidence_rank Conflicting = 5"
| "evidence_rank Invalid = 6"

definition all_evidence_states :: "EvidenceState list" where
  "all_evidence_states = [Known, Incomplete, Stale, Unknown, EUnsupported, Conflicting, Invalid]"

fun evidence_state_to_string :: "EvidenceState \<Rightarrow> string" where
  "evidence_state_to_string Known = ''known''"
| "evidence_state_to_string Incomplete = ''incomplete''"
| "evidence_state_to_string Stale = ''stale''"
| "evidence_state_to_string Unknown = ''unknown''"
| "evidence_state_to_string EUnsupported = ''unsupported''"
| "evidence_state_to_string Conflicting = ''conflicting''"
| "evidence_state_to_string Invalid = ''invalid''"

definition evidence_state_from_string :: "string \<Rightarrow> EvidenceState option" where
  "evidence_state_from_string text = token_search evidence_state_to_string all_evidence_states text"

definition compose :: "EvidenceState \<Rightarrow> EvidenceState \<Rightarrow> EvidenceState" where
  "compose lhs rhs = (if evidence_rank lhs \<ge> evidence_rank rhs then lhs else rhs)"

definition compose_all :: "EvidenceState list \<Rightarrow> EvidenceState" where
  "compose_all states = (if states = [] then Unknown else foldl compose Known states)"

definition is_healthy :: "EvidenceState \<Rightarrow> bool" where
  "is_healthy s \<longleftrightarrow> s = Known"

fun is_indeterminate :: "EvidenceState \<Rightarrow> bool" where
  "is_indeterminate Known = False"
| "is_indeterminate _ = True"

text \<open>
  The contract of a conservative join: states are ranked by how little they say, composition
  never ranks below its arguments and always is one of them.
\<close>

locale conservative_join =
  fixes rank :: "'s \<Rightarrow> nat" and join :: "'s \<Rightarrow> 's \<Rightarrow> 's" and best :: 's
  assumes rank_inj: "rank a = rank b \<Longrightarrow> a = b"
    and join_rank: "rank (join a b) = max (rank a) (rank b)"
    and best_least: "rank best = 0"
begin

lemma join_commute: "join a b = join b a"
  by (rule rank_inj) (simp add: join_rank max.commute)

lemma join_assoc: "join (join a b) c = join a (join b c)"
  by (rule rank_inj) (simp add: join_rank max.assoc)

lemma join_idem: "join a a = a"
  by (rule rank_inj) (simp add: join_rank)

lemma join_best_iff: "join a b = best \<longleftrightarrow> a = best \<and> b = best"
  by (metis best_least join_idem join_rank max_nat.eq_neutr_iff rank_inj)

lemma fold_rank: "rank (foldl join a xs) = Max (insert (rank a) (rank ` set xs))"
proof (induction xs arbitrary: a)
  case Nil
  then show ?case by simp
next
  case (Cons x xs)
  then have "rank (foldl join a (x # xs)) = Max (insert (max (rank a) (rank x)) (rank ` set xs))"
    by (simp add: join_rank)
  also have "\<dots> = Max (insert (rank a) (insert (rank x) (rank ` set xs)))"
    by (cases "xs = []") (auto simp: max.assoc)
  finally show ?case by simp
qed

lemma fold_best_iff: "foldl join best xs = best \<longleftrightarrow> (\<forall>x \<in> set xs. x = best)"
proof (induction xs)
  case Nil
  then show ?case by simp
next
  case (Cons x xs)
  have "foldl join x xs = best \<longleftrightarrow> x = best \<and> (\<forall>y \<in> set xs. y = best)" for x
    by (induction xs arbitrary: x) (auto simp: join_best_iff)
  then show ?case by (simp add: join_best_iff)
qed

lemma fold_member: "foldl join a xs \<in> insert a (set xs)"
proof (induction xs arbitrary: a)
  case Nil
  then show ?case by simp
next
  case (Cons x xs)
  have "join a x = a \<or> join a x = x"
    by (metis join_rank max_def rank_inj)
  with Cons [of "join a x"] show ?case by auto
qed

end

lemma evidence_rank_inj: "evidence_rank a = evidence_rank b \<Longrightarrow> a = b"
  by (cases a; cases b) simp_all

interpretation evidence_join: conservative_join evidence_rank compose Known
  by unfold_locales (auto simp: compose_def evidence_rank_inj)

interpretation evidence_state_tokens: token_table evidence_state_to_string all_evidence_states
proof
  fix x show "x \<in> set all_evidence_states" by (cases x) (simp_all add: all_evidence_states_def)
next
  show "distinct (map evidence_state_to_string all_evidence_states)"
    by (simp add: all_evidence_states_def)
qed

lemma is_indeterminate_iff: "is_indeterminate s \<longleftrightarrow> \<not> is_healthy s"
  by (cases s) (simp_all add: is_healthy_def)

lemma compose_all_Known_iff:
  "compose_all states = Known \<longleftrightarrow> states \<noteq> [] \<and> (\<forall>s \<in> set states. s = Known)"
  by (simp add: compose_all_def evidence_join.fold_best_iff)

lemma compose_all_member: "states \<noteq> [] \<Longrightarrow> compose_all states \<noteq> Known \<Longrightarrow> compose_all states \<in> set states"
  using evidence_join.fold_member [of Known states] by (auto simp: compose_all_def)

section \<open>Evidence kinds\<close>

datatype EvidenceKind =
  TopologyPresence | PortCapability | ChannelCapability | LineSystemCapability |
  SpanCapability | CrossConnectCapability | PortOperationalState | SpanOperationalState |
  LineSystemOperationalState | CrossConnectOperationalState | ChannelAvailability |
  WavelengthAvailability | TransceiverCapability | CableAttachment | OpticalPowerTelemetry |
  AlignmentQuality | OperatorAttestation

definition all_evidence_kinds :: "EvidenceKind list" where
  "all_evidence_kinds = [
    TopologyPresence, PortCapability, ChannelCapability, LineSystemCapability,
    SpanCapability, CrossConnectCapability, PortOperationalState, SpanOperationalState,
    LineSystemOperationalState, CrossConnectOperationalState, ChannelAvailability,
    WavelengthAvailability, TransceiverCapability, CableAttachment, OpticalPowerTelemetry,
    AlignmentQuality, OperatorAttestation]"

fun evidence_kind_code :: "EvidenceKind \<Rightarrow> nat" where
  "evidence_kind_code TopologyPresence = 0"
| "evidence_kind_code PortCapability = 1"
| "evidence_kind_code ChannelCapability = 2"
| "evidence_kind_code LineSystemCapability = 3"
| "evidence_kind_code SpanCapability = 4"
| "evidence_kind_code CrossConnectCapability = 5"
| "evidence_kind_code PortOperationalState = 6"
| "evidence_kind_code SpanOperationalState = 7"
| "evidence_kind_code LineSystemOperationalState = 8"
| "evidence_kind_code CrossConnectOperationalState = 9"
| "evidence_kind_code ChannelAvailability = 10"
| "evidence_kind_code WavelengthAvailability = 11"
| "evidence_kind_code TransceiverCapability = 12"
| "evidence_kind_code CableAttachment = 13"
| "evidence_kind_code OpticalPowerTelemetry = 14"
| "evidence_kind_code AlignmentQuality = 15"
| "evidence_kind_code OperatorAttestation = 16"

fun evidence_kind_to_string :: "EvidenceKind \<Rightarrow> string" where
  "evidence_kind_to_string TopologyPresence = ''topology-presence''"
| "evidence_kind_to_string PortCapability = ''port-capability''"
| "evidence_kind_to_string ChannelCapability = ''channel-capability''"
| "evidence_kind_to_string LineSystemCapability = ''line-system-capability''"
| "evidence_kind_to_string SpanCapability = ''span-capability''"
| "evidence_kind_to_string CrossConnectCapability = ''cross-connect-capability''"
| "evidence_kind_to_string PortOperationalState = ''port-operational-state''"
| "evidence_kind_to_string SpanOperationalState = ''span-operational-state''"
| "evidence_kind_to_string LineSystemOperationalState = ''line-system-operational-state''"
| "evidence_kind_to_string CrossConnectOperationalState = ''cross-connect-operational-state''"
| "evidence_kind_to_string ChannelAvailability = ''channel-availability''"
| "evidence_kind_to_string WavelengthAvailability = ''wavelength-availability''"
| "evidence_kind_to_string TransceiverCapability = ''transceiver-capability''"
| "evidence_kind_to_string CableAttachment = ''cable-attachment''"
| "evidence_kind_to_string OpticalPowerTelemetry = ''optical-power-telemetry''"
| "evidence_kind_to_string AlignmentQuality = ''alignment-quality''"
| "evidence_kind_to_string OperatorAttestation = ''operator-attestation''"

definition evidence_kind_from_string :: "string \<Rightarrow> EvidenceKind option" where
  "evidence_kind_from_string text = token_search evidence_kind_to_string all_evidence_kinds text"

definition is_hardware_telemetry_kind :: "EvidenceKind \<Rightarrow> bool" where
  "is_hardware_telemetry_kind k \<longleftrightarrow> k \<in> {
    OpticalPowerTelemetry, AlignmentQuality, PortOperationalState, SpanOperationalState,
    LineSystemOperationalState, CrossConnectOperationalState, ChannelAvailability,
    WavelengthAvailability}"

lemma evidence_kind_nth: "all_evidence_kinds ! evidence_kind_code k = k"
  by (cases k) (simp_all add: all_evidence_kinds_def)

lemma evidence_kind_code_inj: "evidence_kind_code a = evidence_kind_code b \<longleftrightarrow> a = b"
  by (metis evidence_kind_nth)

instantiation EvidenceKind :: linorder
begin

definition less_eq_EvidenceKind :: "EvidenceKind \<Rightarrow> EvidenceKind \<Rightarrow> bool" where
  "less_eq_EvidenceKind a b \<longleftrightarrow> evidence_kind_code a \<le> evidence_kind_code b"

definition less_EvidenceKind :: "EvidenceKind \<Rightarrow> EvidenceKind \<Rightarrow> bool" where
  "less_EvidenceKind a b \<longleftrightarrow> evidence_kind_code a < evidence_kind_code b"

instance
  by standard (auto simp: less_eq_EvidenceKind_def less_EvidenceKind_def evidence_kind_code_inj)

end

interpretation evidence_kind_tokens: token_table evidence_kind_to_string all_evidence_kinds
proof
  fix x show "x \<in> set all_evidence_kinds" by (cases x) (simp_all add: all_evidence_kinds_def)
next
  show "distinct (map evidence_kind_to_string all_evidence_kinds)"
    by (simp add: all_evidence_kinds_def)
qed

section \<open>Observations and the freshness policy\<close>

record EvidenceProvenance =
  source_runtime :: string
  source_instance :: string
  source_id :: u64
  source_sequence :: u64
  source_epoch :: u64
  ingested_incarnation :: Incarnation
  observed_generation :: u64
  observed_tick :: u64
  valid_until_tick :: u64
  content_digest :: Digest128

record EvidenceRecord =
  ev_id :: u64
  ev_subject :: ResourceRef
  ev_kind :: EvidenceKind
  ev_state :: EvidenceState
  ev_provenance :: EvidenceProvenance
  ev_detail :: string
  ev_advisory :: bool

record EvidenceBundle =
  eb_source_runtime :: string
  eb_source_instance :: string
  eb_source_id :: u64
  eb_records :: "EvidenceRecord list"

record EvidenceRequirement =
  rq_subject :: ResourceRef
  rq_kind :: EvidenceKind
  rq_blocking :: bool

record EvidenceEvaluation =
  ee_requirement :: EvidenceRequirement
  ee_state :: EvidenceState
  ee_record :: u64
  ee_current_generation :: u64

record EvidenceAssessment =
  as_aggregate :: EvidenceState
  as_advisory_aggregate :: EvidenceState
  as_evaluations :: "EvidenceEvaluation list"

definition healthy :: "EvidenceAssessment \<Rightarrow> bool" where
  "healthy a = is_healthy (as_aggregate a)"

definition count_of :: "EvidenceAssessment \<Rightarrow> EvidenceState \<Rightarrow> nat" where
  "count_of a s = length (filter (\<lambda>e. ee_state e = s) (as_evaluations a))"

record EvidencePolicy =
  require_current_incarnation :: bool
  require_current_generation :: bool
  enforce_validity_window :: bool

definition conservative_policy :: EvidencePolicy where
  "conservative_policy = \<lparr>require_current_incarnation = True, require_current_generation = True,
     enforce_validity_window = True\<rparr>"

definition apply_policy ::
  "EvidenceRecord \<Rightarrow> EvidencePolicy \<Rightarrow> Incarnation \<Rightarrow> u64 \<Rightarrow> u64 \<Rightarrow> EvidenceState" where
  "apply_policy record policy current_incarnation current_generation now =
     (let p = ev_provenance record in
      if enforce_validity_window policy \<and> valid_until_tick p \<le> observed_tick p then Invalid
      else if require_current_incarnation policy \<and> boot_sequence current_incarnation \<noteq> 0 \<and>
              boot_sequence (ingested_incarnation p) \<noteq> boot_sequence current_incarnation then Stale
      else if require_current_generation policy \<and> current_generation \<noteq> 0 \<and>
              observed_generation p \<noteq> current_generation then Stale
      else if enforce_validity_window policy \<and> valid_until_tick p \<le> now then Stale
      else ev_state record)"

lemma apply_policy_Known:
  assumes "apply_policy r policy inc gen now = Known"
  shows "ev_state r = Known"
    and "enforce_validity_window policy \<Longrightarrow> now < valid_until_tick (ev_provenance r)"
    and "enforce_validity_window policy \<Longrightarrow>
      observed_tick (ev_provenance r) < valid_until_tick (ev_provenance r)"
    and "require_current_incarnation policy \<Longrightarrow> boot_sequence inc \<noteq> 0 \<Longrightarrow>
      boot_sequence (ingested_incarnation (ev_provenance r)) = boot_sequence inc"
    and "require_current_generation policy \<Longrightarrow> gen \<noteq> 0 \<Longrightarrow> observed_generation (ev_provenance r) = gen"
  using assms by (auto simp: apply_policy_def Let_def not_le split: if_splits)

end
