(* ===== verification/Path.thy ===== *)
theory Path
  imports Evidence
begin

text \<open>
  Optical paths and their canonical identity (\<open>path.hpp\<close>, \<open>path.cpp\<close>): ordered segments with
  generations, the structural checks, the canonical text, its digest, and reversal.
\<close>

datatype SegmentRole = RolePort | RoleCrossConnect | RoleSpan | RoleLineSystem | RoleChannel

datatype Direction = Forward | Reverse | Bidirectional

fun role_to_string :: "SegmentRole \<Rightarrow> string" where
  "role_to_string RolePort = ''port''"
| "role_to_string RoleCrossConnect = ''cross-connect''"
| "role_to_string RoleSpan = ''span''"
| "role_to_string RoleLineSystem = ''line-system''"
| "role_to_string RoleChannel = ''channel''"

definition segment_role_from_string :: "string \<Rightarrow> SegmentRole option" where
  "segment_role_from_string text =
     token_search role_to_string [RolePort, RoleCrossConnect, RoleSpan, RoleLineSystem, RoleChannel] text"

fun direction_to_string :: "Direction \<Rightarrow> string" where
  "direction_to_string Forward = ''forward''"
| "direction_to_string Reverse = ''reverse''"
| "direction_to_string Bidirectional = ''bidirectional''"

definition direction_from_string :: "string \<Rightarrow> Direction option" where
  "direction_from_string text = token_search direction_to_string [Forward, Reverse, Bidirectional] text"

interpretation role_tokens: token_table role_to_string
  "[RolePort, RoleCrossConnect, RoleSpan, RoleLineSystem, RoleChannel]"
proof
  fix x show "x \<in> set [RolePort, RoleCrossConnect, RoleSpan, RoleLineSystem, RoleChannel]"
    by (cases x) simp_all
qed simp

interpretation direction_tokens: token_table direction_to_string "[Forward, Reverse, Bidirectional]"
proof
  fix x show "x \<in> set [Forward, Reverse, Bidirectional]" by (cases x) simp_all
qed simp

datatype PathSegment =
  PathSegment (seg_role: SegmentRole) (seg_resource: ResourceRef) (seg_generation: u64)

record PathDescriptor =
  pd_segments :: "PathSegment list"
  pd_channel :: u64
  pd_channel_generation :: u64
  pd_direction :: Direction
  pd_route_origin :: string

record CanonicalPath =
  cp_canonical_text :: string
  cp_identity :: Digest128
  cp_segment_count :: u32

text \<open>
  \<open>validate_path_structure\<close>: its checks in order. Every failure of the source carries
  \<open>ErrorCode::InvalidArgument\<close>, so the checks form one condition chain. The last loop of
  the source refuses a resource that occurred earlier, which is distinctness.
\<close>

definition validate_path_structure :: "PathDescriptor \<Rightarrow> Limits \<Rightarrow> Status" where
  "validate_path_structure path limits =
     (let segs = pd_segments path in
      if length segs < 2 then InvalidArgument
      else if length segs > max_path_segments limits then InvalidArgument
      else if \<exists>s \<in> set segs. ref_is_nil (seg_resource s) \<or> seg_generation s = 0 then InvalidArgument
      else if seg_role (hd segs) \<noteq> RolePort \<or> seg_role (last segs) \<noteq> RolePort then InvalidArgument
      else if pd_channel path = 0 \<and> pd_channel_generation path \<noteq> 0 then InvalidArgument
      else if pd_channel path \<noteq> 0 \<and> pd_channel_generation path = 0 then InvalidArgument
      else if \<not> distinct (map seg_resource segs) then InvalidArgument
      else Ok)"

definition segment_line :: "PathSegment \<Rightarrow> string" where
  "segment_line s =
     ''seg|'' @ role_to_string (seg_role s) @ ''|'' @ resource_kind_to_string (ref_kind (seg_resource s)) @
     ''|'' @ hex_encode (ref_id (seg_resource s)) @ ''|'' @ to_decimal (seg_generation s) @ [CHR 0x0A]"

definition canonical_text :: "PathDescriptor \<Rightarrow> string" where
  "canonical_text path =
     kCanonicalDomain @ ''|path'' @ [CHR 0x0A] @
     concat (map segment_line (pd_segments path)) @
     ''chan|'' @ (if pd_channel path = 0 then ''nil'' else hex_encode (pd_channel path)) @ ''|'' @
     (if pd_channel_generation path = 0 then ''nil'' else to_decimal (pd_channel_generation path)) @
     [CHR 0x0A] @ ''dir|'' @ direction_to_string (pd_direction path) @ [CHR 0x0A]"

definition path_digest :: "string \<Rightarrow> Digest128" where
  "path_digest text = hasher_digest (add_raw text hasher_init)"

definition canonicalize_path :: "PathDescriptor \<Rightarrow> Limits \<Rightarrow> CanonicalPath result" where
  "canonicalize_path path limits =
     (let structure = validate_path_structure path limits in
      if structure \<noteq> Ok then Inl structure
      else let text = canonical_text path in
        Inr \<lparr>cp_canonical_text = text, cp_identity = path_digest text,
             cp_segment_count = of_nat (length (pd_segments path))\<rparr>)"

definition canonical_path_matches :: "string \<Rightarrow> Digest128 \<Rightarrow> bool" where
  "canonical_path_matches text identity \<longleftrightarrow> path_digest text = identity"

definition reversed_path :: "PathDescriptor \<Rightarrow> PathDescriptor" where
  "reversed_path path =
     path\<lparr>pd_segments := rev (pd_segments path),
          pd_direction := (case pd_direction path of
              Forward \<Rightarrow> Reverse | Reverse \<Rightarrow> Forward | Bidirectional \<Rightarrow> Bidirectional)\<rparr>"

section \<open>Structure\<close>

lemma validate_path_structure_Ok:
  "validate_path_structure path limits = Ok \<longleftrightarrow>
     2 \<le> length (pd_segments path) \<and> length (pd_segments path) \<le> max_path_segments limits \<and>
     (\<forall>s \<in> set (pd_segments path). \<not> ref_is_nil (seg_resource s) \<and> seg_generation s \<noteq> 0) \<and>
     seg_role (hd (pd_segments path)) = RolePort \<and> seg_role (last (pd_segments path)) = RolePort \<and>
     (pd_channel path = 0 \<longleftrightarrow> pd_channel_generation path = 0) \<and>
     distinct (map seg_resource (pd_segments path))"
  by (auto simp: validate_path_structure_def Let_def not_less)

lemma canonicalize_path_Inr:
  "canonicalize_path path limits = Inr c \<longleftrightarrow>
     validate_path_structure path limits = Ok \<and>
     c = \<lparr>cp_canonical_text = canonical_text path, cp_identity = path_digest (canonical_text path),
          cp_segment_count = of_nat (length (pd_segments path))\<rparr>"
  by (auto simp: canonicalize_path_def Let_def)

lemma canonicalize_path_matches:
  "canonicalize_path path limits = Inr c \<Longrightarrow> canonical_path_matches (cp_canonical_text c) (cp_identity c)"
  by (auto simp: canonicalize_path_Inr canonical_path_matches_def)

lemma reversed_path_involutive: "reversed_path (reversed_path p) = p"
  by (cases "pd_direction p") (simp_all add: reversed_path_def)

lemma hd_last_rev: "xs \<noteq> [] \<Longrightarrow> hd (rev xs) = last xs \<and> last (rev xs) = hd xs"
  by (simp add: hd_rev last_rev)

lemma reversed_path_structure:
  "validate_path_structure (reversed_path p) limits = Ok \<longleftrightarrow> validate_path_structure p limits = Ok"
proof (cases "pd_segments p = []")
  case True
  then show ?thesis by (simp add: validate_path_structure_Ok reversed_path_def)
next
  case False
  then show ?thesis
    by (auto simp: validate_path_structure_Ok reversed_path_def hd_last_rev rev_map [symmetric])
qed

section \<open>The canonical text determines the path\<close>

text \<open>Characters of the fields of a line: none holds the field or the line separator.\<close>

lemma hex_encode_chars:
  assumes "c \<in> set (hex_encode w)"
  shows "c \<noteq> CHR ''|'' \<and> c \<noteq> CHR 0x0A"
proof -
  obtain n where "c = hex_char n" "unat n < 16"
    using assms by (auto simp: hex_encode_def nibble_lt16)
  then have "hex_nibble True c \<noteq> None" by (simp add: hex_nibble_hex_char)
  then show ?thesis by (auto simp: hex_nibble_def Let_def)
qed

lemma to_decimal_plain: "CHR ''|'' \<notin> set (to_decimal w)" "CHR 0x0A \<notin> set (to_decimal w)"
  using dec_digits_chars by (fastforce simp: to_decimal_def)+

lemma hex_plain: "CHR ''|'' \<notin> set (hex_encode w)" "CHR 0x0A \<notin> set (hex_encode w)"
  using hex_encode_chars by blast+

lemma role_plain: "CHR ''|'' \<notin> set (role_to_string r)" "CHR 0x0A \<notin> set (role_to_string r)"
  by (cases r; simp)+

lemma kind_plain: "CHR ''|'' \<notin> set (resource_kind_to_string k)"
  "CHR 0x0A \<notin> set (resource_kind_to_string k)"
  by (cases k; simp)+

lemma direction_plain: "CHR 0x0A \<notin> set (direction_to_string d)"
  by (cases d) simp_all

lemma nil_not_hex: "hex_encode w \<noteq> ''nil''"
proof
  assume "hex_encode w = ''nil''"
  then have "length (hex_encode w) = 3" by (simp only: list.size)
  then show False by simp
qed

lemma segment_line_inj: "segment_line a @ x = segment_line b @ y \<Longrightarrow> a = b \<and> x = y"
  by (cases a; cases b; rename_tac ra fa ga rb fb gb; case_tac fa; case_tac fb)
    (simp add: segment_line_def cut_at_separator role_plain kind_plain hex_plain to_decimal_plain
      role_tokens.tok_inj kind_tokens.tok_inj hex_encode_inj to_decimal_inj)

lemma segment_lines_inj:
  "concat (map segment_line xs) @ ''chan|'' @ x = concat (map segment_line ys) @ ''chan|'' @ y \<Longrightarrow>
   xs = ys \<and> x = y"
proof (induction xs arbitrary: ys)
  case Nil
  then show ?case by (cases ys) (simp_all add: segment_line_def)
next
  case (Cons a xs)
  then obtain b ys' where ys: "ys = b # ys'"
    by (cases ys) (simp_all add: segment_line_def)
  with Cons.prems have "a = b \<and> concat (map segment_line xs) @ ''chan|'' @ x =
      concat (map segment_line ys') @ ''chan|'' @ y"
    by (intro segment_line_inj) simp
  with Cons.IH [of ys'] ys show ?case by blast
qed

lemma canonical_text_inj:
  assumes "canonical_text p = canonical_text q"
    and "pd_channel p = 0 \<longleftrightarrow> pd_channel_generation p = 0"
    and "pd_channel q = 0 \<longleftrightarrow> pd_channel_generation q = 0"
  shows "pd_segments p = pd_segments q \<and> pd_channel p = pd_channel q \<and>
    pd_channel_generation p = pd_channel_generation q \<and> pd_direction p = pd_direction q"
proof -
  define tail where "tail r = (if pd_channel r = 0 then ''nil'' else hex_encode (pd_channel r)) @ ''|'' @
     (if pd_channel_generation r = 0 then ''nil'' else to_decimal (pd_channel_generation r)) @
     [CHR 0x0A] @ ''dir|'' @ direction_to_string (pd_direction r) @ [CHR 0x0A]" for r :: PathDescriptor
  have "concat (map segment_line (pd_segments p)) @ ''chan|'' @ tail p =
      concat (map segment_line (pd_segments q)) @ ''chan|'' @ tail q"
    using assms(1) by (simp add: canonical_text_def tail_def)
  then have segs: "pd_segments p = pd_segments q" and tails: "tail p = tail q"
    using segment_lines_inj by blast+
  have plain: "CHR ''|'' \<notin> set ''nil''" "CHR 0x0A \<notin> set ''nil''" by simp_all
  from tails assms(2,3) show ?thesis
    by (auto simp: tail_def segs cut_at_separator plain hex_plain to_decimal_plain direction_plain
        hex_encode_inj to_decimal_inj direction_tokens.tok_inj nil_not_hex nil_not_hex [symmetric]
        split: if_splits)
qed

end
