(* ===== verification/State.thy ===== *)
theory State
  imports Path
begin

text \<open>
  The authoritative state of the runtime and its single commit path (\<open>state.hpp\<close>,
  \<open>fabric_impl.hpp\<close>, the persistence part of \<open>fabric_core.cpp\<close>, \<open>CommitBundle\<close> of
  \<open>state_codec.cpp\<close>).

  A commit is a list of typed items. The source writes them as text, decodes the text again,
  appends it to the store as one record and applies the decoded items. Here an item carries
  the record itself and \<open>reload_*\<close> is what decoding the encoding of a record gives: the
  record, with the fields the codec drops or recomputes, or a failure where the decoder
  refuses what the encoder wrote.

  The operating system decides whether an append or a rewrite of the store file succeeds; the
  outcome is the argument \<open>io\<close> of every operation that commits, and every property is stated
  for all outcomes. \<open>journal\<close> is the sequence of records the store file holds.
\<close>

section \<open>Records\<close>

record ResourceState =
  rs_resource :: ResourceRef
  rs_name :: string
  rs_sharing :: SharingMode
  rs_generation :: u64
  rs_registered_tick :: u64
  rs_related :: "ResourceRef list"
  rs_attributes :: "string list"
  rs_site :: u64
  rs_node :: u64
  rs_endpoint_a :: u64
  rs_endpoint_b :: u64
  rs_ingress :: u64
  rs_egress :: u64
  rs_spans :: "u64 list"
  rs_endpoints :: "u64 list"
  rs_role :: string
  rs_region :: string
  rs_description :: string
  rs_band :: string
  rs_channel_index :: u32
  rs_nominal_frequency_ghz :: u64
  rs_declared_length_metres :: u64

record ClaimEntry =
  ce_resource :: ResourceRef
  ce_connectivity :: u64
  ce_channel :: u64
  ce_exclusive :: bool
  ce_committed_tick :: u64

record IntentRequirements =
  require_capability_evidence :: bool
  require_operational_evidence :: bool
  require_attachment_evidence :: bool
  additional_required_kinds :: "EvidenceKind list"
  allow_unsupported_advisory :: bool

record ConnectivityRecord =
  cr_id :: u64
  cr_name :: string
  cr_owner :: string
  cr_state :: ConnectivityState
  cr_generation :: u64
  cr_path :: PathDescriptor
  cr_canonical :: CanonicalPath
  cr_requirements :: IntentRequirements
  cr_reservation :: u64
  cr_has_reservation :: bool
  cr_reservation_expiry :: u64
  cr_authority :: AuthorityToken
  cr_authority_confirmed :: bool
  cr_created_tick :: u64
  cr_updated_tick :: u64
  cr_activated_tick :: u64
  cr_retired_tick :: u64
  cr_last_refusal :: RefusalCode
  cr_activation_digest :: Digest128
  cr_activation_attempt :: u64
  cr_history :: "TransitionRecord list"
  cr_transitions_dropped :: nat
  cr_attempt_log :: "u64 list"

record ReservationView =
  rv_id :: u64
  rv_connectivity :: u64
  rv_holder :: string
  rv_epoch :: u64
  rv_incarnation :: Incarnation
  rv_granted_tick :: u64
  rv_expiry_tick :: u64
  rv_generation :: u64
  rv_resources :: "ResourceRef list"
  rv_consumed :: bool
  rv_released :: bool

definition live_at :: "ReservationView \<Rightarrow> u64 \<Rightarrow> bool" where
  "live_at v now \<longleftrightarrow> \<not> rv_released v \<and> now < rv_expiry_tick v"

record AuthorityGrantView =
  gv_id :: u64
  gv_holder :: u64
  gv_scope :: AuthorityScope
  gv_epoch :: u64
  gv_incarnation :: Incarnation
  gv_granted_tick :: u64
  gv_expiry_tick :: u64
  gv_generation :: u64
  gv_fenced :: bool
  gv_released :: bool

record GrantState =
  gs_view :: AuthorityGrantView
  gs_fence :: FenceRecord
  gs_has_fence :: bool

record AttemptRecord =
  ar_attempt :: u64
  ar_request_digest :: Digest128
  ar_operation :: string
  ar_outcome :: OutcomeCode
  ar_refusal :: RefusalCode
  ar_connectivity :: u64
  ar_reservation :: u64
  ar_grant :: u64
  ar_generation :: u64
  ar_tick :: u64

record RuntimeState =
  rt_epoch :: u64
  rt_tick :: u64
  rt_generation :: u64
  rt_topology_generation :: u64
  rt_boot_sequence :: u64
  rt_instance :: Digest128
  rt_host_label :: string

record SourceDescriptor =
  sd_id :: u64
  sd_runtime :: string
  sd_instance :: string
  sd_synthetic :: bool
  sd_produced :: "EvidenceKind list"
  sd_unsupported :: "EvidenceKind list"

datatype DiagnosticKind =
  DStaleGeneration | DStaleEvidence | DStaleAuthority | DStaleIncarnation | DUnsupportedEvidence
| DMissingEvidence | DConflictingEvidence | DResourceConflict | DUnconfirmedAuthority
| DReservationExpiry | DIllegalTransitionRefused | DInvariantViolation | DCapacityPressure
| DUnsupportedBoundary

record Diagnostic =
  dn_kind :: DiagnosticKind
  dn_refusal :: RefusalCode
  dn_subject :: ResourceRef
  dn_connectivity :: u64
  dn_reservation :: u64
  dn_grant :: u64
  dn_observed_tick :: u64
  dn_observed_epoch :: u64
  dn_observed_generation :: u64
  dn_current_generation :: u64

datatype RecordKind =
  RkUnknown | RkCheckpoint | RkRuntimeState | RkTopologyRegistered | RkEvidenceIngested
| RkConnectivityTransition | RkReservationChanged | RkAuthorityGranted | RkAuthorityFenced
| RkAuthorityReleased | RkAttemptRecorded

datatype CommitItem =
  ResetItem
| RuntimeItem RuntimeState
| ResourceItem ResourceState
| EvidenceItem EvidenceRecord
| ConnectivityItem ConnectivityRecord
| ReservationItem ReservationView
| GrantItem GrantState
| AttemptItem AttemptRecord
| FenceItem FenceRecord

text \<open>\<open>OpticalFabric::Impl\<close>: configuration, liveness flags, counters, authoritative maps,
  derived indices, and the durable journal.\<close>

record Fabric =
  limits :: Limits
  max_lease_ticks :: u64
  policy :: EvidencePolicy
  memory_only :: bool
  store_open :: bool
  closed :: bool
  persistence_failed :: bool
  incarnation :: Incarnation
  epoch :: u64
  tick :: u64
  generation :: u64
  topology_generation :: u64
  resources :: "(ResourceRef, ResourceState) omap"
  evidence :: "(u64, EvidenceRecord) omap"
  objects :: "(u64, ConnectivityRecord) omap"
  reservations :: "(u64, ReservationView) omap"
  grants :: "(u64, GrantState) omap"
  attempts :: "(u64, AttemptRecord) omap"
  attempt_order :: "u64 list"
  fences :: "FenceRecord list"
  diagnostics :: "Diagnostic list"
  diagnostics_dropped :: nat
  sources :: "(u64, SourceDescriptor) omap"
  claim_index :: "(ResourceRef, ClaimEntry list) omap"
  reservation_index :: "(ResourceRef, u64 list) omap"
  transitions_total :: nat
  journal :: "(RecordKind \<times> CommitItem list) list"

section \<open>What a record is after encoding and decoding\<close>

definition ref_encodable :: "ResourceRef \<Rightarrow> bool" where
  "ref_encodable r \<longleftrightarrow> ref_kind r \<noteq> KUnknown"

text \<open>\<open>read_refusal\<close> searches a list that lacks \<open>RefusalCode::BoundaryNotImplemented\<close>.\<close>

definition refusal_encodable :: "RefusalCode \<Rightarrow> bool" where
  "refusal_encodable c \<longleftrightarrow> c \<noteq> BoundaryNotImplemented"

text \<open>\<open>write_scope\<close> writes the site of a site scope only.\<close>

definition reload_scope :: "AuthorityScope \<Rightarrow> AuthorityScope" where
  "reload_scope s = (if scope_kind s = ScopeSite then s else AuthorityScope (scope_kind s) 0)"

definition reload_token :: "AuthorityToken \<Rightarrow> AuthorityToken" where
  "reload_token t = t\<lparr>tok_scope := reload_scope (tok_scope t)\<rparr>"

definition reload_fence :: "FenceRecord \<Rightarrow> FenceRecord" where
  "reload_fence f = f\<lparr>fr_scope := reload_scope (fr_scope f)\<rparr>"

definition reload_grant :: "GrantState \<Rightarrow> GrantState" where
  "reload_grant g =
     \<lparr>gs_view = (gs_view g)\<lparr>gv_scope := reload_scope (gv_scope (gs_view g))\<rparr>,
      gs_fence = (if gs_has_fence g then reload_fence (gs_fence g) else nil_fence),
      gs_has_fence = gs_has_fence g\<rparr>"

definition reload_resource :: "ResourceState \<Rightarrow> ResourceState option" where
  "reload_resource s =
     (if ref_encodable (rs_resource s) \<and> list_all ref_encodable (rs_related s) then Some s else None)"

definition reload_evidence :: "EvidenceRecord \<Rightarrow> EvidenceRecord option" where
  "reload_evidence r = (if ref_encodable (ev_subject r) then Some r else None)"

definition reload_reservation :: "ReservationView \<Rightarrow> ReservationView option" where
  "reload_reservation v = (if list_all ref_encodable (rv_resources v) then Some v else None)"

definition reload_attempt :: "AttemptRecord \<Rightarrow> AttemptRecord option" where
  "reload_attempt r = (if refusal_encodable (ar_refusal r) then Some r else None)"

definition kEvidenceKindCount :: nat where "kEvidenceKindCount = 17"

definition reload_connectivity :: "Limits \<Rightarrow> ConnectivityRecord \<Rightarrow> ConnectivityRecord option" where
  "reload_connectivity lim r =
     (if \<not> refusal_encodable (cr_last_refusal r) then None
      else if \<not> list_all (\<lambda>s. ref_encodable (seg_resource s)) (pd_segments (cr_path r)) then None
      else case canonicalize_path (cr_path r) lim of
        Inl _ \<Rightarrow> None
      | Inr canonical \<Rightarrow>
          if cp_identity canonical \<noteq> cp_identity (cr_canonical r) then None
          else if length (cr_history r) > max_attempt_history_per_object lim then None
          else if \<not> list_all (\<lambda>t. refusal_encodable (tr_refusal t)) (cr_history r) then None
          else if length (cr_attempt_log r) > max_attempt_history_per_object lim then None
          else if length (additional_required_kinds (cr_requirements r)) > kEvidenceKindCount then None
          else Some (r\<lparr>cr_canonical := canonical, cr_authority := reload_token (cr_authority r)\<rparr>))"

section \<open>Size of a commit\<close>

definition scope_fields :: "AuthorityScope \<Rightarrow> nat" where
  "scope_fields s = (if scope_kind s = ScopeSite then 2 else 1)"

definition fence_fields :: "FenceRecord \<Rightarrow> nat" where
  "fence_fields f = 9 + scope_fields (fr_scope f)"

text \<open>Number of \<open>key=value\<close> lines the encoder writes for an item, its \<open>type\<close> line included.\<close>

fun item_fields :: "CommitItem \<Rightarrow> nat" where
  "item_fields ResetItem = 1"
| "item_fields (RuntimeItem s) = 8"
| "item_fields (ResourceItem s) =
     23 + length (rs_related s) + length (rs_attributes s) + length (rs_spans s) + length (rs_endpoints s)"
| "item_fields (EvidenceItem r) = 19"
| "item_fields (ConnectivityItem r) =
     13 + (5 + 3 * length (pd_segments (cr_path r))) + (7 + scope_fields (tok_scope (cr_authority r))) + 7 +
     (1 + 9 * length (cr_history r)) + (1 + length (cr_attempt_log r)) + 4 +
     (1 + length (additional_required_kinds (cr_requirements r)))"
| "item_fields (ReservationItem v) = 14 + length (rv_resources v)"
| "item_fields (GrantItem g) =
     13 + scope_fields (gv_scope (gs_view g)) + (if gs_has_fence g then fence_fields (gs_fence g) else 0)"
| "item_fields (AttemptItem r) = 12"
| "item_fields (FenceItem f) = 1 + fence_fields f"

text \<open>\<open>CommitBundle::decode\<close> of an encoded bundle: the field and item bounds of the reader.\<close>

definition bundle_decodable :: "Limits \<Rightarrow> CommitItem list \<Rightarrow> bool" where
  "bundle_decodable lim items \<longleftrightarrow>
     (let fields = 1 + sum_list (map item_fields items) in
      fields \<le> 200000 \<and> fields \<le> max_journal_records lim \<and> length items \<le> max_journal_records lim)"

section \<open>Claims and derived indices\<close>

definition find_resource :: "Fabric \<Rightarrow> ResourceRef \<Rightarrow> ResourceState option" where
  "find_resource F r = map_of (resources F) r"

definition holds_committed_claims :: "ConnectivityRecord \<Rightarrow> bool" where
  "holds_committed_claims r \<longleftrightarrow>
     cr_activated_tick r \<noteq> 0 \<and> cr_state r \<noteq> Retired \<and> cr_state r \<noteq> SRefused \<and> cr_state r \<noteq> Withdrawing"

definition resource_exclusive :: "(ResourceRef, ResourceState) omap \<Rightarrow> ResourceRef \<Rightarrow> bool" where
  "resource_exclusive rs r =
     (case map_of rs r of None \<Rightarrow> True | Some s \<Rightarrow> rs_sharing s = Exclusive)"

definition derive_claims :: "(ResourceRef, ResourceState) omap \<Rightarrow> ConnectivityRecord \<Rightarrow> ClaimEntry list" where
  "derive_claims rs r =
     (if cr_activated_tick r = 0 then []
      else map (\<lambda>s. \<lparr>ce_resource = seg_resource s, ce_connectivity = cr_id r,
                     ce_channel = pd_channel (cr_path r),
                     ce_exclusive = resource_exclusive rs (seg_resource s),
                     ce_committed_tick = cr_activated_tick r\<rparr>) (pd_segments (cr_path r)))"

definition index_push :: "'k::linorder \<Rightarrow> 'v \<Rightarrow> ('k, 'v list) omap \<Rightarrow> ('k, 'v list) omap" where
  "index_push k v idx = map_put k ((case map_of idx k of None \<Rightarrow> [] | Some vs \<Rightarrow> vs) @ [v]) idx"

definition build_index :: "('k::linorder \<times> 'v) list \<Rightarrow> ('k, 'v list) omap" where
  "build_index kvs = foldl (\<lambda>idx (k, v). index_push k v idx) [] kvs"

definition indexed :: "('k, 'v list) omap \<Rightarrow> 'k \<Rightarrow> 'v list" where
  "indexed idx k = (case map_of idx k of None \<Rightarrow> [] | Some vs \<Rightarrow> vs)"

definition committed_claims ::
  "(ResourceRef, ResourceState) omap \<Rightarrow> (u64, ConnectivityRecord) omap \<Rightarrow> ClaimEntry list" where
  "committed_claims rs objs =
     concat (map (\<lambda>(i, r). if holds_committed_claims r then derive_claims rs r else []) objs)"

definition reserved_resources :: "(u64, ReservationView) omap \<Rightarrow> (ResourceRef \<times> u64) list" where
  "reserved_resources rsv =
     concat (map (\<lambda>(i, v). if rv_released v \<or> rv_consumed v then []
                           else map (\<lambda>r. (r, i)) (rv_resources v)) rsv)"

definition rebuild_indices :: "Fabric \<Rightarrow> Fabric" where
  "rebuild_indices F =
     F\<lparr>claim_index := build_index (map (\<lambda>c. (ce_resource c, c)) (committed_claims (resources F) (objects F))),
       reservation_index := build_index (reserved_resources (reservations F))\<rparr>"

section \<open>Applying and committing items\<close>

definition runtime_state :: "Fabric \<Rightarrow> u64 \<Rightarrow> u64 \<Rightarrow> RuntimeState" where
  "runtime_state F next_generation next_topology_generation =
     \<lparr>rt_epoch = epoch F, rt_tick = tick F, rt_generation = next_generation,
      rt_topology_generation = next_topology_generation,
      rt_boot_sequence = boot_sequence (incarnation F), rt_instance = inc_instance (incarnation F),
      rt_host_label = inc_host_label (incarnation F)\<rparr>"

definition note_diagnostic :: "Diagnostic \<Rightarrow> Fabric \<Rightarrow> Fabric" where
  "note_diagnostic d F =
     (let ds = diagnostics F @ [d]; excess = length ds - max_diagnostics (limits F) in
      F\<lparr>diagnostics := drop excess ds, diagnostics_dropped := diagnostics_dropped F + excess\<rparr>)"

definition store_attempt :: "AttemptRecord \<Rightarrow> Fabric \<Rightarrow> Fabric" where
  "store_attempt r F =
     (let k = ar_attempt r; is_new = (map_of (attempts F) k = None);
          stored = map_put k r (attempts F)
      in if \<not> is_new then F\<lparr>attempts := stored\<rparr>
         else let order = attempt_order F @ [k];
                  excess = length order - max_attempt_history_total (limits F)
              in F\<lparr>attempts := foldl (\<lambda>m a. map_erase a m) stored (take excess order),
                   attempt_order := drop excess order\<rparr>)"

fun apply_item :: "CommitItem \<Rightarrow> Fabric \<Rightarrow> Status \<times> Fabric" where
  "apply_item ResetItem F =
     (Ok, F\<lparr>resources := [], evidence := [], objects := [], reservations := [], grants := [],
            attempts := [], attempt_order := [], fences := [], claim_index := [],
            reservation_index := [], transitions_total := 0\<rparr>)"
| "apply_item (RuntimeItem s) F =
     (Ok, F\<lparr>epoch := rt_epoch s, tick := rt_tick s, generation := rt_generation s,
            topology_generation := rt_topology_generation s,
            incarnation := \<lparr>boot_sequence = rt_boot_sequence s, inc_instance = rt_instance s,
                            inc_host_label = rt_host_label s\<rparr>\<rparr>)"
| "apply_item (ResourceItem s) F =
     (case reload_resource s of
        None \<Rightarrow> (StoreCorrupt, F)
      | Some s' \<Rightarrow> (Ok, F\<lparr>resources := map_put (rs_resource s') s' (resources F)\<rparr>))"
| "apply_item (EvidenceItem r) F =
     (case reload_evidence r of
        None \<Rightarrow> (StoreCorrupt, F)
      | Some r' \<Rightarrow> (Ok, F\<lparr>evidence := map_put (ev_id r') r' (evidence F)\<rparr>))"
| "apply_item (ConnectivityItem r) F =
     (case reload_connectivity (limits F) r of
        None \<Rightarrow> (StoreCorrupt, F)
      | Some r' \<Rightarrow> (Ok, rebuild_indices
            (F\<lparr>transitions_total := transitions_total F + length (cr_history r'),
               objects := map_put (cr_id r') r' (objects F)\<rparr>)))"
| "apply_item (ReservationItem v) F =
     (case reload_reservation v of
        None \<Rightarrow> (StoreCorrupt, F)
      | Some v' \<Rightarrow> (Ok, rebuild_indices (F\<lparr>reservations := map_put (rv_id v') v' (reservations F)\<rparr>)))"
| "apply_item (GrantItem g) F =
     (let g' = reload_grant g in (Ok, F\<lparr>grants := map_put (gv_id (gs_view g')) g' (grants F)\<rparr>))"
| "apply_item (AttemptItem r) F =
     (case reload_attempt r of None \<Rightarrow> (StoreCorrupt, F) | Some r' \<Rightarrow> (Ok, store_attempt r' F))"
| "apply_item (FenceItem f) F =
     (Ok, F\<lparr>fences := push_bounded (max_fence_reasons_history (limits F)) (reload_fence f) (fences F)\<rparr>)"

fun apply_decoded :: "CommitItem list \<Rightarrow> Fabric \<Rightarrow> Status \<times> Fabric" where
  "apply_decoded [] F = (Ok, F)"
| "apply_decoded (i # is) F =
     (let (st, F') = apply_item i F in if st \<noteq> Ok then (st, F') else apply_decoded is F')"

definition checkpoint_items :: "Fabric \<Rightarrow> CommitItem list" where
  "checkpoint_items F =
     [ResetItem, RuntimeItem (runtime_state F (generation F) (topology_generation F))] @
     map (ResourceItem \<circ> snd) (resources F) @ map (EvidenceItem \<circ> snd) (evidence F) @
     map (ConnectivityItem \<circ> snd) (objects F) @ map (ReservationItem \<circ> snd) (reservations F) @
     map (GrantItem \<circ> snd) (grants F) @ map (AttemptItem \<circ> snd) (attempts F) @
     map FenceItem (fences F)"

text \<open>What came of an append or a rewrite: done, refused because the payload exceeds
  \<open>max_record_payload_bytes\<close>, failed before a whole record was written, or written but reported
  as a failure (a failed flush).\<close>

datatype IoOutcome = IoDone | IoTooLarge | IoNothing | IoDoneReportedFailed

record StoreIo =
  io_append :: IoOutcome
  io_compact :: bool
  io_rewrite :: IoOutcome

definition store_active :: "Fabric \<Rightarrow> bool" where
  "store_active F \<longleftrightarrow> \<not> memory_only F \<and> store_open F"

definition store_append :: "StoreIo \<Rightarrow> RecordKind \<Rightarrow> CommitItem list \<Rightarrow> Fabric \<Rightarrow> Status \<times> Fabric" where
  "store_append io kind items F =
     (if \<not> store_active F then (Ok, F)
      else case io_append io of
             IoDone \<Rightarrow> (Ok, F\<lparr>journal := journal F @ [(kind, items)]\<rparr>)
           | IoTooLarge \<Rightarrow> (CapacityExceeded, F)
           | IoNothing \<Rightarrow> (StoreIo, F)
           | IoDoneReportedFailed \<Rightarrow> (StoreIo, F\<lparr>journal := journal F @ [(kind, items)]\<rparr>))"

definition write_checkpoint :: "StoreIo \<Rightarrow> Fabric \<Rightarrow> Status \<times> Fabric" where
  "write_checkpoint io F =
     (if \<not> store_active F then (Ok, F)
      else let replaced = F\<lparr>journal := [(RkCheckpoint, checkpoint_items F)]\<rparr> in
           case io_rewrite io of
             IoDone \<Rightarrow> (Ok, replaced)
           | IoTooLarge \<Rightarrow> (CapacityExceeded, F\<lparr>persistence_failed := True\<rparr>)
           | IoNothing \<Rightarrow> (StoreIo, F\<lparr>persistence_failed := True\<rparr>)
           | IoDoneReportedFailed \<Rightarrow> (StoreIo, replaced\<lparr>persistence_failed := True\<rparr>))"

definition commit :: "StoreIo \<Rightarrow> RecordKind \<Rightarrow> CommitItem list \<Rightarrow> Fabric \<Rightarrow> Status \<times> Fabric" where
  "commit io kind items F =
     (if persistence_failed F then (StoreIo, F)
      else if \<not> bundle_decodable (limits F) items then (Internal, F\<lparr>persistence_failed := True\<rparr>)
      else let (written, F1) = store_append io kind items F in
        if written \<noteq> Ok then
          (written, note_diagnostic
             \<lparr>dn_kind = DInvariantViolation, dn_refusal = PersistenceFailure, dn_subject = nil_ref, dn_connectivity = 0, dn_reservation = 0, dn_grant = 0,
              dn_observed_tick = tick F1,
              dn_observed_epoch = epoch F1, dn_observed_generation = generation F1,
              dn_current_generation = generation F1\<rparr> (F1\<lparr>persistence_failed := True\<rparr>))
        else let (applied, F2) = apply_decoded items F1 in
          if applied \<noteq> Ok then (applied, F2\<lparr>persistence_failed := True\<rparr>)
          else if io_compact io then write_checkpoint io F2
          else (Ok, F2))"

section \<open>Indices\<close>

lemma indexed_push:
  "indexed (index_push k v idx) k' = (if k' = k then indexed idx k @ [v] else indexed idx k')"
  by (simp add: indexed_def index_push_def)

lemma indexed_build: "indexed (build_index kvs) k = map snd (filter (\<lambda>e. fst e = k) kvs)"
proof -
  have "indexed (foldl (\<lambda>idx (k, v). index_push k v idx) idx kvs) k =
      indexed idx k @ map snd (filter (\<lambda>e. fst e = k) kvs)" for idx
    by (induction kvs arbitrary: idx) (auto simp: indexed_push)
  then show ?thesis by (simp add: build_index_def indexed_def)
qed

lemma rebuild_indices_frame [simp, fabric_frame]:
  "limits (rebuild_indices F) = limits F" "resources (rebuild_indices F) = resources F"
  "objects (rebuild_indices F) = objects F" "reservations (rebuild_indices F) = reservations F"
  "grants (rebuild_indices F) = grants F" "attempts (rebuild_indices F) = attempts F"
  "evidence (rebuild_indices F) = evidence F" "tick (rebuild_indices F) = tick F"
  "epoch (rebuild_indices F) = epoch F" "generation (rebuild_indices F) = generation F"
  "topology_generation (rebuild_indices F) = topology_generation F"
  "incarnation (rebuild_indices F) = incarnation F" "attempt_order (rebuild_indices F) = attempt_order F"
  "fences (rebuild_indices F) = fences F" "journal (rebuild_indices F) = journal F"
  "persistence_failed (rebuild_indices F) = persistence_failed F" "closed (rebuild_indices F) = closed F"
  "policy (rebuild_indices F) = policy F" "sources (rebuild_indices F) = sources F"
  "max_lease_ticks (rebuild_indices F) = max_lease_ticks F"
  "memory_only (rebuild_indices F) = memory_only F" "store_open (rebuild_indices F) = store_open F"
  "diagnostics (rebuild_indices F) = diagnostics F"
  "diagnostics_dropped (rebuild_indices F) = diagnostics_dropped F"
  by (simp_all add: rebuild_indices_def)

end
