(* ===== verification/Authority.thy ===== *)
theory Authority
  imports State
begin

text \<open>
  Authority grants, renewal and fencing (\<open>authority.hpp\<close>, \<open>fabric_authority.cpp\<close>). An
  acquisition advances the epoch and fences every live grant whose scope overlaps; a token is
  current only while its own grant is live, unexpired, of this incarnation and not overtaken.
\<close>

section \<open>Requests and results\<close>

record AuthorityRequest =
  aq_attempt :: u64
  aq_holder :: u64
  aq_scope :: AuthorityScope
  aq_lease_ticks :: u64
  aq_reason :: string

record AuthorityResult =
  au_outcome :: OutcomeCode
  au_refusal :: RefusalCode
  au_grant :: AuthorityGrantView
  au_token :: AuthorityToken

record FenceRequest =
  fq_attempt :: u64
  fq_holder :: u64
  fq_scope :: AuthorityScope
  fq_lease_ticks :: u64
  fq_reason :: FenceReason
  fq_detail :: string

record FenceResult =
  fe_outcome :: OutcomeCode
  fe_refusal :: RefusalCode
  fe_fenced :: FenceRecord
  fe_token :: AuthorityToken
  fe_fenced_anything :: bool

definition nil_grant_view :: AuthorityGrantView where
  "nil_grant_view = \<lparr>gv_id = 0, gv_holder = 0, gv_scope = scope_none, gv_epoch = 0,
     gv_incarnation = nil_incarnation, gv_granted_tick = 0, gv_expiry_tick = 0, gv_generation = 0,
     gv_fenced = False, gv_released = False\<rparr>"

definition authority_refused :: "RefusalCode \<Rightarrow> AuthorityResult" where
  "authority_refused code = \<lparr>au_outcome = Refused, au_refusal = code, au_grant = nil_grant_view,
     au_token = nil_token\<rparr>"

definition digest_authority_request :: "AuthorityRequest \<Rightarrow> Digest128" where
  "digest_authority_request q =
     hasher_digest (add_field ''reason'' (aq_reason q) (add_field_u64 ''lease'' (aq_lease_ticks q)
       (add_field ''scope'' (scope_to_string (aq_scope q)) (add_field_u64 ''holder'' (aq_holder q)
       (add_field_u64 ''attempt'' (aq_attempt q) (add_field ''op'' ''authority'' hasher_init))))))"

section \<open>Currentness of a token\<close>

definition grant_live :: "GrantState \<Rightarrow> bool" where
  "grant_live g \<longleftrightarrow> \<not> gv_fenced (gs_view g) \<and> \<not> gv_released (gs_view g)"

definition has_overlapping_newer_epoch :: "Fabric \<Rightarrow> AuthorityScope \<Rightarrow> u64 \<Rightarrow> bool" where
  "has_overlapping_newer_epoch F scope candidate \<longleftrightarrow>
     (\<exists>(i, g) \<in> set (grants F). grant_live g \<and> overlaps (gv_scope (gs_view g)) scope \<and>
        gv_epoch (gs_view g) > candidate)"

definition check_authority_locked :: "Fabric \<Rightarrow> AuthorityToken \<Rightarrow> AuthorityCurrentness" where
  "check_authority_locked F token =
     (if token_is_nil token \<or> tok_epoch token = 0 then NoAuthority
      else case map_of (grants F) (tok_grant token) of
        None \<Rightarrow> UnknownGrant
      | Some g \<Rightarrow>
         (let view = gs_view g in
          if gv_released view then NoAuthority
          else if gv_fenced view then AStaleEpoch
          else if tok_holder token \<noteq> gv_holder view then HolderMismatch
          else if tok_epoch token \<noteq> gv_epoch view then AStaleEpoch
          else if boot_sequence (tok_incarnation token) \<noteq> boot_sequence (incarnation F) then AStaleIncarnation
          else if tok_scope token \<noteq> gv_scope view then ScopeNotCovered
          else if tick F \<ge> gv_expiry_tick view then Expired
          else if has_overlapping_newer_epoch F (gv_scope view) (gv_epoch view) then AStaleEpoch
          else Current))"

fun map_currentness :: "AuthorityCurrentness \<Rightarrow> RefusalCode" where
  "map_currentness Current = RNone"
| "map_currentness NoAuthority = RNotAuthoritative"
| "map_currentness UnknownGrant = RNotAuthoritative"
| "map_currentness ScopeNotCovered = RNotAuthoritative"
| "map_currentness AStaleEpoch = RStaleEpoch"
| "map_currentness AStaleIncarnation = RStaleIncarnation"
| "map_currentness Expired = RStaleEpoch"
| "map_currentness HolderMismatch = RNotAuthoritative"

definition require_authority_locked :: "Fabric \<Rightarrow> AuthorityToken \<Rightarrow> AuthorityScope \<Rightarrow> RefusalCode" where
  "require_authority_locked F token required =
     (let check = check_authority_locked F token in
      if check \<noteq> Current then map_currentness check
      else if \<not> covers (tok_scope token) required then RNotAuthoritative
      else RNone)"

text \<open>The site of the first segment whose registered resource has one governs the object.\<close>

fun first_site :: "Fabric \<Rightarrow> PathSegment list \<Rightarrow> AuthorityScope" where
  "first_site F [] = scope_none"
| "first_site F (s # ss) =
     (case find_resource F (seg_resource s) of
        None \<Rightarrow> first_site F ss
      | Some st \<Rightarrow> if rs_site st \<noteq> 0 then of_site (rs_site st) else first_site F ss)"

definition object_scope_locked :: "Fabric \<Rightarrow> ConnectivityRecord \<Rightarrow> AuthorityScope" where
  "object_scope_locked F record = first_site F (pd_segments (cr_path record))"

section \<open>Acquisition, renewal and fencing\<close>

definition derive_grant_id :: "u64 \<Rightarrow> AuthorityScope \<Rightarrow> u64 \<Rightarrow> u64" where
  "derive_grant_id holder scope ep =
     derive_composite ''grant'' (hex_encode holder @ ''|'' @ scope_to_string scope @ ''|'' @ to_decimal ep)"

definition fence_grant :: "FenceRecord \<Rightarrow> GrantState \<Rightarrow> GrantState" where
  "fence_grant f g =
     \<lparr>gs_view = (gs_view g)\<lparr>gv_fenced := True, gv_generation := gv_generation (gs_view g) + 1\<rparr>,
      gs_fence = f, gs_has_fence = True\<rparr>"

definition supersede_record :: "Fabric \<Rightarrow> u64 \<Rightarrow> GrantState \<Rightarrow> FenceRecord" where
  "supersede_record F next_epoch g =
     \<lparr>fr_grant = gv_id (gs_view g), fr_holder = gv_holder (gs_view g),
      fr_fenced_epoch = gv_epoch (gs_view g), fr_fencing_epoch = next_epoch,
      fr_fenced_boot = boot_sequence (gv_incarnation (gs_view g)),
      fr_fencing_boot = boot_sequence (incarnation F), fr_scope = gv_scope (gs_view g),
      fr_reason = SupersededByNewerEpoch, fr_fenced_tick = tick F\<rparr>"

definition supersedes :: "AuthorityScope \<Rightarrow> GrantState \<Rightarrow> bool" where
  "supersedes scope g \<longleftrightarrow> grant_live g \<and> overlaps (gv_scope (gs_view g)) scope"

definition fence_overlapping :: "Fabric \<Rightarrow> AuthorityScope \<Rightarrow> u64 \<Rightarrow> (u64, GrantState) omap" where
  "fence_overlapping F scope next_epoch =
     map (\<lambda>(i, g). (i, if supersedes scope g then fence_grant (supersede_record F next_epoch g) g else g))
       (grants F)"

definition fence_items :: "Fabric \<Rightarrow> AuthorityScope \<Rightarrow> u64 \<Rightarrow> CommitItem list" where
  "fence_items F scope next_epoch =
     concat (map (\<lambda>(i, g). if supersedes scope g
        then [GrantItem (fence_grant (supersede_record F next_epoch g) g),
              FenceItem (supersede_record F next_epoch g)]
        else []) (grants F))"

definition new_grant :: "Fabric \<Rightarrow> AuthorityRequest \<Rightarrow> GrantState" where
  "new_grant F q =
     \<lparr>gs_view = \<lparr>gv_id = derive_grant_id (aq_holder q) (aq_scope q) (epoch F + 1), gv_holder = aq_holder q,
        gv_scope = aq_scope q, gv_epoch = epoch F + 1, gv_incarnation = incarnation F,
        gv_granted_tick = tick F, gv_expiry_tick = tick F + aq_lease_ticks q, gv_generation = 1,
        gv_fenced = False, gv_released = False\<rparr>,
      gs_fence = nil_fence, gs_has_fence = False\<rparr>"

definition acquire_attempt :: "Fabric \<Rightarrow> AuthorityRequest \<Rightarrow> AttemptRecord" where
  "acquire_attempt F q =
     \<lparr>ar_attempt = aq_attempt q, ar_request_digest = digest_authority_request q,
      ar_operation = ''acquire_authority'', ar_outcome = Applied, ar_refusal = RNone,
      ar_connectivity = 0, ar_reservation = 0,
      ar_grant = derive_grant_id (aq_holder q) (aq_scope q) (epoch F + 1),
      ar_generation = generation F + 1, ar_tick = tick F\<rparr>"

definition acquire_items :: "Fabric \<Rightarrow> AuthorityRequest \<Rightarrow> CommitItem list" where
  "acquire_items F q =
     fence_items F (aq_scope q) (epoch F + 1) @
     [GrantItem (new_grant F q),
      RuntimeItem ((runtime_state F (generation F + 1) (topology_generation F))\<lparr>rt_epoch := epoch F + 1\<rparr>),
      AttemptItem (acquire_attempt F q)]"

definition token_of :: "AuthorityGrantView \<Rightarrow> AuthorityToken" where
  "token_of v = \<lparr>tok_grant = gv_id v, tok_holder = gv_holder v, tok_epoch = gv_epoch v,
     tok_incarnation = gv_incarnation v, tok_scope = gv_scope v, tok_generation = gv_generation v\<rparr>"

definition acquire_authority :: "StoreIo \<Rightarrow> AuthorityRequest \<Rightarrow> Fabric \<Rightarrow> AuthorityResult \<times> Fabric" where
  "acquire_authority io q F =
     (if closed F then (authority_refused PersistenceFailure, F)
      else if aq_holder q = 0 then (authority_refused RInvalidArgument, F)
      else if scope_kind (aq_scope q) = ScopeNone then (authority_refused RInvalidArgument, F)
      else if aq_lease_ticks q = 0 \<or> aq_lease_ticks q > max_lease_ticks F then
        (authority_refused RInvalidArgument, F)
      else if length (grants F) \<ge> max_authority_grants (limits F) then
        (authority_refused RCapacityExceeded, F)
      else if epoch F + 1 = 0 then (authority_refused RCapacityExceeded, F)
      else
        let F1 = F\<lparr>grants := fence_overlapping F (aq_scope q) (epoch F + 1)\<rparr>;
            (status, F2) = commit io RkAuthorityGranted (acquire_items F q) F1
        in if status \<noteq> Ok then (authority_refused PersistenceFailure, F2)
           else (\<lparr>au_outcome = Applied, au_refusal = RNone, au_grant = gs_view (new_grant F q),
                  au_token = token_of (gs_view (new_grant F q))\<rparr>, F2))"

definition renewable :: "Fabric \<Rightarrow> AuthorityRequest \<Rightarrow> GrantState \<Rightarrow> bool" where
  "renewable F q g \<longleftrightarrow>
     grant_live g \<and> gv_holder (gs_view g) = aq_holder q \<and> gv_scope (gs_view g) = aq_scope q \<and>
     \<not> has_overlapping_newer_epoch F (gv_scope (gs_view g)) (gv_epoch (gs_view g)) \<and>
     boot_sequence (gv_incarnation (gs_view g)) = boot_sequence (incarnation F)"

definition renew_authority :: "StoreIo \<Rightarrow> AuthorityRequest \<Rightarrow> Fabric \<Rightarrow> AuthorityResult \<times> Fabric" where
  "renew_authority io q F =
     (if closed F then (authority_refused PersistenceFailure, F)
      else if aq_lease_ticks q = 0 \<or> aq_lease_ticks q > max_lease_ticks F then
        (authority_refused RInvalidArgument, F)
      else case find (\<lambda>(i, g). renewable F q g) (grants F) of
        None \<Rightarrow> (authority_refused RNotAuthoritative, F)
      | Some (target, g) \<Rightarrow>
          if target = 0 then (authority_refused RNotAuthoritative, F)
          else
            let updated = g\<lparr>gs_view := (gs_view g)\<lparr>gv_expiry_tick := tick F + aq_lease_ticks q,
                    gv_generation := gv_generation (gs_view g) + 1\<rparr>\<rparr>;
                attempt = \<lparr>ar_attempt = aq_attempt q, ar_request_digest = digest_authority_request q,
                    ar_operation = ''renew_authority'', ar_outcome = Applied, ar_refusal = RNone,
                    ar_connectivity = 0, ar_reservation = 0, ar_grant = target,
                    ar_generation = generation F, ar_tick = tick F\<rparr>;
                (status, F1) = commit io RkAuthorityGranted [GrantItem updated, AttemptItem attempt] F
            in if status \<noteq> Ok then (authority_refused PersistenceFailure, F1)
               else case map_of (grants F1) target of
                      None \<Rightarrow> (\<lparr>au_outcome = Applied, au_refusal = RNone, au_grant = nil_grant_view,
                                au_token = (token_of nil_grant_view)\<lparr>tok_grant := target\<rparr>\<rparr>, F1)
                    | Some stored \<Rightarrow>
                        (\<lparr>au_outcome = Applied, au_refusal = RNone, au_grant = gs_view stored,
                          au_token = (token_of (gs_view stored))\<lparr>tok_grant := target\<rparr>\<rparr>, F1))"

text \<open>The fence record that \<open>fence\<close> reports: the last one, in grant order, among those this
  acquisition made that has the greatest tick.\<close>

definition latest_fence :: "Fabric \<Rightarrow> AuthorityGrantView \<Rightarrow> FenceRecord option" where
  "latest_fence F granted =
     foldl (\<lambda>latest (i, g).
        if \<not> gs_has_fence g \<or> gv_id (gs_view g) = gv_id granted then latest
        else if fr_fencing_epoch (gs_fence g) = gv_epoch granted \<and>
                (case latest of None \<Rightarrow> True
                 | Some l \<Rightarrow> fr_fenced_tick (gs_fence g) \<ge> fr_fenced_tick l)
        then Some (gs_fence g) else latest) None (grants F)"

definition fence :: "StoreIo \<Rightarrow> FenceRequest \<Rightarrow> Fabric \<Rightarrow> FenceResult \<times> Fabric" where
  "fence io q F =
     (let acquisition = \<lparr>aq_attempt = fq_attempt q, aq_holder = fq_holder q, aq_scope = fq_scope q,
            aq_lease_ticks = fq_lease_ticks q, aq_reason = fq_detail q\<rparr>;
          (granted, F1) = acquire_authority io acquisition F;
          base = \<lparr>fe_outcome = au_outcome granted, fe_refusal = au_refusal granted, fe_fenced = nil_fence,
                  fe_token = au_token granted, fe_fenced_anything = False\<rparr>
      in if au_outcome granted = Refused then (base, F1)
         else case latest_fence F1 (au_grant granted) of
                None \<Rightarrow> (base, F1)
              | Some l \<Rightarrow> (base\<lparr>fe_fenced := l\<lparr>fr_reason := fq_reason q\<rparr>, fe_fenced_anything := True\<rparr>, F1))"

definition grant_view_current :: "Fabric \<Rightarrow> GrantState \<Rightarrow> bool" where
  "grant_view_current F g \<longleftrightarrow>
     grant_live g \<and> \<not> has_overlapping_newer_epoch F (gv_scope (gs_view g)) (gv_epoch (gs_view g)) \<and>
     boot_sequence (gv_incarnation (gs_view g)) = boot_sequence (incarnation F) \<and>
     tick F < gv_expiry_tick (gs_view g)"

definition authority_grants :: "Fabric \<Rightarrow> (AuthorityGrantView \<times> bool) list" where
  "authority_grants F = map (\<lambda>(i, g). (gs_view g, grant_view_current F g)) (grants F)"

section \<open>What a current token says\<close>

lemma check_authority_Current:
  assumes "check_authority_locked F t = Current"
  obtains g where "map_of (grants F) (tok_grant t) = Some g" "grant_live g"
    "tok_holder t = gv_holder (gs_view g)" "tok_epoch t = gv_epoch (gs_view g)"
    "boot_sequence (tok_incarnation t) = boot_sequence (incarnation F)"
    "tok_scope t = gv_scope (gs_view g)" "tick F < gv_expiry_tick (gs_view g)"
    "\<not> has_overlapping_newer_epoch F (gv_scope (gs_view g)) (gv_epoch (gs_view g))"
    "\<not> token_is_nil t"
  using assms
  by (auto simp: check_authority_locked_def Let_def grant_live_def not_le
      split: if_splits option.splits)

lemma require_authority_RNone:
  "require_authority_locked F t s = RNone \<longleftrightarrow> check_authority_locked F t = Current \<and> covers (tok_scope t) s"
proof -
  have "map_currentness c = RNone \<longleftrightarrow> c = Current" for c by (cases c) simp_all
  then show ?thesis by (auto simp: require_authority_locked_def Let_def)
qed

lemma require_authority_boot:
  "require_authority_locked F t s = RNone \<Longrightarrow>
   boot_sequence (tok_incarnation t) = boot_sequence (incarnation F) \<and> \<not> token_is_nil t"
  by (auto simp: require_authority_RNone elim: check_authority_Current)

lemma map_fst_fence_overlapping [simp]:
  "map fst (fence_overlapping F s e) = map fst (grants F)"
  by (simp add: fence_overlapping_def case_prod_beta)

lemma map_of_fence_overlapping:
  "map_of (fence_overlapping F s e) k =
     map_option (\<lambda>g. if supersedes s g then fence_grant (supersede_record F e g) g else g)
       (map_of (grants F) k)"
  by (simp add: fence_overlapping_def map_of_map)

end
