(* ===== verification/Route.thy ===== *)
theory Route
  imports Authority
begin

text \<open>
  Evidence requirements and their evaluation, resource claims, and route resolution
  (\<open>fabric_route.cpp\<close>).
\<close>

section \<open>Evidence requirements of a path\<close>

fun capability_kind_for :: "ResourceKind \<Rightarrow> EvidenceKind" where
  "capability_kind_for KPort = PortCapability"
| "capability_kind_for KCrossConnect = CrossConnectCapability"
| "capability_kind_for KSpan = SpanCapability"
| "capability_kind_for KLineSystem = LineSystemCapability"
| "capability_kind_for KChannel = ChannelCapability"
| "capability_kind_for _ = TopologyPresence"

fun operational_kind_for :: "ResourceKind \<Rightarrow> EvidenceKind" where
  "operational_kind_for KPort = PortOperationalState"
| "operational_kind_for KCrossConnect = CrossConnectOperationalState"
| "operational_kind_for KSpan = SpanOperationalState"
| "operational_kind_for KLineSystem = LineSystemOperationalState"
| "operational_kind_for KChannel = ChannelAvailability"
| "operational_kind_for _ = TopologyPresence"

fun role_for :: "ResourceKind \<Rightarrow> SegmentRole" where
  "role_for KPort = RolePort"
| "role_for KCrossConnect = RoleCrossConnect"
| "role_for KSpan = RoleSpan"
| "role_for KLineSystem = RoleLineSystem"
| "role_for KChannel = RoleChannel"
| "role_for _ = RolePort"

fun refusal_for :: "EvidenceState \<Rightarrow> RefusalCode" where
  "refusal_for Known = RNone"
| "refusal_for Incomplete = RMissingEvidence"
| "refusal_for Stale = RStaleEvidence"
| "refusal_for Unknown = UnsupportedEvidenceKind"
| "refusal_for EUnsupported = UnsupportedEvidenceKind"
| "refusal_for Conflicting = RConflictingEvidence"
| "refusal_for Invalid = InvalidEvidence"

type_synonym requirement_map = "(ResourceRef \<times> EvidenceKind, EvidenceRequirement) omap"

definition add_requirement :: "ResourceRef \<Rightarrow> EvidenceKind \<times> bool \<Rightarrow> requirement_map \<Rightarrow> requirement_map" where
  "add_requirement subject kb unique =
     (case map_of unique (subject, fst kb) of
        Some _ \<Rightarrow> unique
      | None \<Rightarrow> map_put (subject, fst kb)
          \<lparr>rq_subject = subject, rq_kind = fst kb, rq_blocking = snd kb\<rparr> unique)"

definition segment_kind :: "Fabric \<Rightarrow> PathSegment \<Rightarrow> ResourceKind" where
  "segment_kind F s =
     (case find_resource F (seg_resource s) of
        None \<Rightarrow> ref_kind (seg_resource s) | Some st \<Rightarrow> ref_kind (rs_resource st))"

definition segment_requirements :: "Fabric \<Rightarrow> IntentRequirements \<Rightarrow> PathSegment \<Rightarrow> (EvidenceKind \<times> bool) list" where
  "segment_requirements F q s =
     (let kind = segment_kind F s; cap = capability_kind_for kind; op = operational_kind_for kind in
      [(TopologyPresence, True)] @
      (if cap \<noteq> TopologyPresence then [(cap, require_capability_evidence q)] else []) @
      (if op \<noteq> TopologyPresence then [(op, require_operational_evidence q)] else []) @
      (if require_attachment_evidence q \<and> kind = KPort then [(CableAttachment, True)] else []) @
      map (\<lambda>k. (k, True)) (additional_required_kinds q))"

definition requirements_for :: "Fabric \<Rightarrow> PathDescriptor \<Rightarrow> IntentRequirements \<Rightarrow> EvidenceRequirement list" where
  "requirements_for F path q =
     (let per_segment = foldl (\<lambda>m s. foldl (\<lambda>m kb. add_requirement (seg_resource s) kb m) m
              (segment_requirements F q s)) [] (pd_segments path);
          all = (if pd_channel path \<noteq> 0
                 then add_requirement (ResourceRef KChannel (pd_channel path))
                        (ChannelAvailability, require_operational_evidence q) per_segment
                 else per_segment)
      in map snd all)"

section \<open>Evaluation of one requirement\<close>

definition newer_observation :: "EvidenceRecord \<Rightarrow> EvidenceRecord \<Rightarrow> bool" where
  "newer_observation r current \<longleftrightarrow>
     source_sequence (ev_provenance r) > source_sequence (ev_provenance current) \<or>
     (source_sequence (ev_provenance r) = source_sequence (ev_provenance current) \<and>
      observed_tick (ev_provenance r) > observed_tick (ev_provenance current))"

definition keep_newest :: "(u64, EvidenceRecord) omap \<Rightarrow> EvidenceRecord \<Rightarrow> (u64, EvidenceRecord) omap" where
  "keep_newest newest r =
     (let k = source_id (ev_provenance r) in
      case map_of newest k of
        None \<Rightarrow> map_put k r newest
      | Some current \<Rightarrow> if newer_observation r current then map_put k r newest else newest)"

definition newest_by_source :: "Fabric \<Rightarrow> EvidenceRequirement \<Rightarrow> (u64, EvidenceRecord) omap" where
  "newest_by_source F rq =
     foldl keep_newest []
       (filter (\<lambda>r. ev_subject r = rq_subject rq \<and> ev_kind r = rq_kind rq) (map snd (evidence F)))"

definition subject_generation :: "Fabric \<Rightarrow> EvidenceRequirement \<Rightarrow> EvidenceRecord \<Rightarrow> u64" where
  "subject_generation F rq r =
     (case find_resource F (rq_subject rq) of
        None \<Rightarrow> observed_generation (ev_provenance r) | Some s \<Rightarrow> rs_generation s)"

definition outdated :: "Fabric \<Rightarrow> EvidenceRequirement \<Rightarrow> EvidenceRecord \<Rightarrow> bool" where
  "outdated F rq r \<longleftrightarrow>
     (require_current_incarnation (policy F) \<and> boot_sequence (incarnation F) \<noteq> 0 \<and>
      boot_sequence (ingested_incarnation (ev_provenance r)) \<noteq> boot_sequence (incarnation F)) \<or>
     (require_current_generation (policy F) \<and> subject_generation F rq r \<noteq> 0 \<and>
      observed_generation (ev_provenance r) \<noteq> subject_generation F rq r)"

definition policy_state :: "Fabric \<Rightarrow> EvidenceRequirement \<Rightarrow> EvidenceRecord \<Rightarrow> EvidenceState" where
  "policy_state F rq r = apply_policy r (policy F) (incarnation F) (subject_generation F rq r) (tick F)"

definition pick_worst :: "Fabric \<Rightarrow> EvidenceRequirement \<Rightarrow> EvidenceRecord option \<Rightarrow> EvidenceRecord \<Rightarrow> EvidenceRecord option" where
  "pick_worst F rq worst r =
     (case worst of
        None \<Rightarrow> Some r
      | Some w \<Rightarrow>
          if evidence_rank (policy_state F rq r) >
             evidence_rank (apply_policy w (policy F) (incarnation F) (subject_generation F rq r) (tick F))
          then Some r else worst)"

definition registered_generation :: "Fabric \<Rightarrow> ResourceRef \<Rightarrow> u64" where
  "registered_generation F r = (case find_resource F r of None \<Rightarrow> 0 | Some s \<Rightarrow> rs_generation s)"

definition producers_disagree :: "Fabric \<Rightarrow> EvidenceRequirement \<Rightarrow> EvidenceRecord list \<Rightarrow> bool" where
  "producers_disagree F rq rs =
     (let digests = map (content_digest \<circ> ev_provenance) (filter (\<lambda>r. policy_state F rq r = Known) rs) in
      case digests of [] \<Rightarrow> False | d # ds \<Rightarrow> \<exists>x \<in> set ds. x \<noteq> d)"

text \<open>The observed state and the identity of the record that explains it.\<close>

definition evaluate_observations :: "Fabric \<Rightarrow> EvidenceRequirement \<Rightarrow> EvidenceState \<times> u64" where
  "evaluate_observations F rq =
     (let newest = map snd (newest_by_source F rq);
          produced = (\<exists>(i, d) \<in> set (sources F). rq_kind rq \<in> set (sd_produced d));
          declared_unsupported = (\<exists>(i, d) \<in> set (sources F). rq_kind rq \<in> set (sd_unsupported d))
      in
      if newest = [] then
        (if \<not> produced \<and> \<not> declared_unsupported then EUnsupported
         else if declared_unsupported then EUnsupported else Unknown, 0)
      else
        let live = filter (\<lambda>r. \<not> outdated F rq r) newest;
            states = map (policy_state F rq) live
        in if states = [] \<and> (\<exists>r \<in> set newest. outdated F rq r) then (Stale, 0)
           else
             let joined = compose_all states;
                 aggregate = (if joined = Known \<and> length newest > 1 \<and> producers_disagree F rq newest
                              then Conflicting else joined)
             in (aggregate,
                 case foldl (pick_worst F rq) None live of None \<Rightarrow> 0 | Some w \<Rightarrow> ev_id w))"

definition evaluate_requirement_locked :: "Fabric \<Rightarrow> EvidenceRequirement \<Rightarrow> EvidenceEvaluation" where
  "evaluate_requirement_locked F rq =
     (if rq_kind rq = TopologyPresence then
        \<lparr>ee_requirement = rq,
         ee_state = (case find_resource F (rq_subject rq) of None \<Rightarrow> Unknown | Some s \<Rightarrow> Known),
         ee_record = 0, ee_current_generation = 0\<rparr>
      else
        \<lparr>ee_requirement = rq, ee_state = fst (evaluate_observations F rq),
         ee_record = snd (evaluate_observations F rq),
         ee_current_generation = registered_generation F (rq_subject rq)\<rparr>)"

section \<open>Assessment of a path\<close>

definition structural_evaluation :: "Fabric \<Rightarrow> PathSegment \<Rightarrow> EvidenceEvaluation" where
  "structural_evaluation F s =
     \<lparr>ee_requirement = \<lparr>rq_subject = seg_resource s, rq_kind = TopologyPresence, rq_blocking = True\<rparr>,
      ee_state = (case find_resource F (seg_resource s) of
          None \<Rightarrow> Unknown
        | Some st \<Rightarrow> if rs_generation st \<noteq> seg_generation s then Stale else Known),
      ee_record = 0, ee_current_generation = 0\<rparr>"

definition assess_locked :: "Fabric \<Rightarrow> PathDescriptor \<Rightarrow> IntentRequirements \<Rightarrow> EvidenceAssessment" where
  "assess_locked F path q =
     (let structural = map (structural_evaluation F) (pd_segments path);
          required = map (evaluate_requirement_locked F) (requirements_for F path q);
          blocking = map ee_state structural @
            map ee_state (filter (\<lambda>e. rq_blocking (ee_requirement e)) required);
          advisory = map ee_state (filter (\<lambda>e. \<not> rq_blocking (ee_requirement e)) required)
      in \<lparr>as_aggregate = compose_all blocking,
          as_advisory_aggregate = (if advisory = [] then Known else compose_all advisory),
          as_evaluations = structural @ required\<rparr>)"

definition refusal_for_assessment :: "EvidenceAssessment \<Rightarrow> RefusalCode" where
  "refusal_for_assessment a =
     (if is_healthy (as_aggregate a) then RNone
      else case find (\<lambda>e. rq_blocking (ee_requirement e) \<and> ee_state e = as_aggregate a) (as_evaluations a) of
             Some e \<Rightarrow> refusal_for (ee_state e)
           | None \<Rightarrow> refusal_for (as_aggregate a))"

section \<open>Claims\<close>

datatype Conflict = NoConflict | ClaimedBy u64 ResourceRef | ReservedBy u64 ResourceRef

definition claim_clashes :: "bool \<Rightarrow> u64 \<Rightarrow> u64 \<Rightarrow> ClaimEntry \<Rightarrow> bool" where
  "claim_clashes exclusive channel self c \<longleftrightarrow>
     ce_connectivity c \<noteq> self \<and> (exclusive \<or> ce_channel c = channel)"

definition reservation_clashes :: "Fabric \<Rightarrow> bool \<Rightarrow> u64 \<Rightarrow> u64 \<Rightarrow> u64 \<Rightarrow> bool" where
  "reservation_clashes F exclusive channel own i \<longleftrightarrow>
     i \<noteq> own \<and>
     (case map_of (reservations F) i of
        None \<Rightarrow> False
      | Some v \<Rightarrow> exclusive \<or>
          (case map_of (objects F) (rv_connectivity v) of
             None \<Rightarrow> True | Some ob \<Rightarrow> pd_channel (cr_path ob) = channel))"

fun check_claims_locked :: "Fabric \<Rightarrow> ResourceRef list \<Rightarrow> u64 \<Rightarrow> u64 \<Rightarrow> u64 \<Rightarrow> Conflict" where
  "check_claims_locked F [] channel self own = NoConflict"
| "check_claims_locked F (r # rs) channel self own =
     (let exclusive = resource_exclusive (resources F) r in
      case find (claim_clashes exclusive channel self) (indexed (claim_index F) r) of
        Some c \<Rightarrow> ClaimedBy (ce_connectivity c) r
      | None \<Rightarrow>
         (case find (reservation_clashes F exclusive channel own) (indexed (reservation_index F) r) of
            Some i \<Rightarrow> ReservedBy i r
          | None \<Rightarrow> check_claims_locked F rs channel self own))"

lemma check_claims_NoConflict:
  "check_claims_locked F rs channel self own = NoConflict \<longleftrightarrow>
     (\<forall>r \<in> set rs.
        (\<forall>c \<in> set (indexed (claim_index F) r).
           \<not> claim_clashes (resource_exclusive (resources F) r) channel self c) \<and>
        (\<forall>i \<in> set (indexed (reservation_index F) r).
           \<not> reservation_clashes F (resource_exclusive (resources F) r) channel own i))"
proof (induction rs)
  case Nil
  then show ?case by simp
next
  case (Cons r rs)
  then show ?case
    by (auto simp: Let_def find_None_iff split: option.splits dest: find_SomeD)
qed

section \<open>Health of an assessment\<close>

lemma evaluate_requirement_keeps [simp]:
  "ee_requirement (evaluate_requirement_locked F rq) = rq"
  by (simp add: evaluate_requirement_locked_def)

lemma structural_evaluation_Known:
  "ee_state (structural_evaluation F s) = Known \<longleftrightarrow>
     (\<exists>st. find_resource F (seg_resource s) = Some st \<and> rs_generation st = seg_generation s)"
  by (auto simp: structural_evaluation_def split: option.splits)

lemma healthy_iff:
  "healthy (assess_locked F path q) \<longleftrightarrow>
     (pd_segments path \<noteq> [] \<or> (\<exists>rq \<in> set (requirements_for F path q). rq_blocking rq)) \<and>
     (\<forall>s \<in> set (pd_segments path). \<exists>st. find_resource F (seg_resource s) = Some st \<and>
        rs_generation st = seg_generation s) \<and>
     (\<forall>rq \<in> set (requirements_for F path q). rq_blocking rq \<longrightarrow>
        ee_state (evaluate_requirement_locked F rq) = Known)"
proof -
  define struct where "struct = map (ee_state \<circ> structural_evaluation F) (pd_segments path)"
  define req where "req = map (ee_state \<circ> evaluate_requirement_locked F)
      (filter rq_blocking (requirements_for F path q))"
  have agg: "as_aggregate (assess_locked F path q) = compose_all (struct @ req)"
    by (simp add: assess_locked_def Let_def struct_def req_def filter_map comp_def)
  have "healthy (assess_locked F path q) \<longleftrightarrow> struct @ req \<noteq> [] \<and> (\<forall>x \<in> set struct \<union> set req. x = Known)"
    by (simp only: healthy_def is_healthy_def agg compose_all_Known_iff set_append)
  moreover have "struct @ req \<noteq> [] \<longleftrightarrow>
      pd_segments path \<noteq> [] \<or> (\<exists>rq \<in> set (requirements_for F path q). rq_blocking rq)"
    by (simp add: struct_def req_def filter_empty_conv)
  moreover have "(\<forall>x \<in> set struct. x = Known) \<longleftrightarrow> (\<forall>s \<in> set (pd_segments path).
      \<exists>st. find_resource F (seg_resource s) = Some st \<and> rs_generation st = seg_generation s)"
    by (simp add: struct_def structural_evaluation_Known)
  moreover have "(\<forall>x \<in> set req. x = Known) \<longleftrightarrow> (\<forall>rq \<in> set (requirements_for F path q).
      rq_blocking rq \<longrightarrow> ee_state (evaluate_requirement_locked F rq) = Known)"
    by (auto simp: req_def)
  ultimately show ?thesis by blast
qed

section \<open>Route resolution\<close>

text \<open>\<open>ConnectivityIntent\<close> of \<open>intent.hpp\<close>.\<close>

record ConnectivityIntent =
  in_name :: string
  in_owner :: string
  in_source_port :: u64
  in_destination_port :: u64
  in_channel :: u64
  in_direction :: Direction
  in_requirements :: IntentRequirements
  in_reservation_ttl_ticks :: u64

definition port_ref :: "u64 \<Rightarrow> ResourceRef" where "port_ref p = ResourceRef KPort p"

text \<open>A step of the walk: the port it stands at and the segments that lead there.\<close>

type_synonym RouteStep = "u64 \<times> PathSegment list"

datatype RouteSearch =
  SearchExceeded
| SearchFound "PathSegment list"
| SearchLevel nat "u64 list" "RouteStep list"

text \<open>The two ports a cross connect or a span joins.\<close>

definition link_near :: "ResourceKind \<Rightarrow> ResourceState \<Rightarrow> u64" where
  "link_near kind st = (if kind = KCrossConnect then rs_ingress st else rs_endpoint_a st)"

definition link_far :: "ResourceKind \<Rightarrow> ResourceState \<Rightarrow> u64" where
  "link_far kind st = (if kind = KCrossConnect then rs_egress st else rs_endpoint_b st)"

definition far_port :: "ResourceKind \<Rightarrow> ResourceState \<Rightarrow> u64 \<Rightarrow> u64" where
  "far_port kind st port = (if link_near kind st = port then link_far kind st else link_near kind st)"

definition adjacency :: "Fabric \<Rightarrow> ResourceKind \<Rightarrow> (u64, u64 list) omap" where
  "adjacency F kind =
     build_index (concat (map (\<lambda>(r, st). if ref_kind r = kind
        then [(link_near kind st, ref_id r), (link_far kind st, ref_id r)] else []) (resources F)))"

fun follow_links ::
  "Fabric \<Rightarrow> ResourceKind \<Rightarrow> u64 \<Rightarrow> RouteStep \<Rightarrow> u64 list \<Rightarrow> u64 list \<Rightarrow> RouteStep list \<Rightarrow>
   PathSegment list + u64 list \<times> RouteStep list" where
  "follow_links F kind dest step [] visited queue = Inr (visited, queue)"
| "follow_links F kind dest step (i # is) visited queue =
     (case find_resource F (ResourceRef kind i) of
        None \<Rightarrow> follow_links F kind dest step is visited queue
      | Some st \<Rightarrow>
         (let far = far_port kind st (fst step) in
          case find_resource F (port_ref far) of
            None \<Rightarrow> follow_links F kind dest step is visited queue
          | Some far_state \<Rightarrow>
             (let segments = snd step @
                    [PathSegment (role_for kind) (ResourceRef kind i) (rs_generation st),
                     PathSegment RolePort (port_ref far) (rs_generation far_state)]
              in if far = dest then Inl segments
                 else if far \<in> set visited then follow_links F kind dest step is visited queue
                 else follow_links F kind dest step is (far # visited) (queue @ [(far, segments)]))))"

fun sweep_frontier ::
  "Fabric \<Rightarrow> nat \<Rightarrow> u64 \<Rightarrow> RouteStep list \<Rightarrow> nat \<Rightarrow> u64 list \<Rightarrow> RouteStep list \<Rightarrow> RouteSearch" where
  "sweep_frontier F bound dest [] expansions visited queue = SearchLevel expansions visited queue"
| "sweep_frontier F bound dest (step # steps) expansions visited queue =
     (if expansions + 1 > bound then SearchExceeded
      else case follow_links F KCrossConnect dest step (indexed (adjacency F KCrossConnect) (fst step)) visited queue of
        Inl found \<Rightarrow> SearchFound found
      | Inr (visited1, queue1) \<Rightarrow>
         (case follow_links F KSpan dest step (indexed (adjacency F KSpan) (fst step)) visited1 queue1 of
            Inl found \<Rightarrow> SearchFound found
          | Inr (visited2, queue2) \<Rightarrow>
              sweep_frontier F bound dest steps (expansions + 1) visited2 queue2))"

lemma sweep_frontier_expansions:
  "sweep_frontier F bound dest frontier e visited queue = SearchLevel e' v n \<Longrightarrow>
     e' = e + length frontier \<and> (frontier \<noteq> [] \<longrightarrow> e' \<le> bound)"
proof (induction frontier arbitrary: e visited queue)
  case Nil
  then show ?case by simp
next
  case (Cons s frontier)
  from Cons.prems obtain v2 n2 where room: "e + 1 \<le> bound"
    and rest: "sweep_frontier F bound dest frontier (e + 1) v2 n2 = SearchLevel e' v n"
    by (auto split: if_splits sum.splits)
  from Cons.IH [OF rest] room show ?case by (cases frontier) auto
qed

function search_routes ::
  "Fabric \<Rightarrow> nat \<Rightarrow> u64 \<Rightarrow> RouteStep list \<Rightarrow> nat \<Rightarrow> u64 list \<Rightarrow> PathSegment list result" where
  "search_routes F bound dest frontier expansions visited =
     (if frontier = [] then Inl NotFound
      else case sweep_frontier F bound dest frontier expansions visited [] of
        SearchExceeded \<Rightarrow> Inl CapacityExceeded
      | SearchFound found \<Rightarrow> Inr found
      | SearchLevel expansions' visited' queue \<Rightarrow>
          search_routes F bound dest queue expansions' visited')"
  by pat_completeness auto

termination
proof (relation "measure (\<lambda>(F, bound, dest, frontier, expansions, visited). bound - expansions)")
  fix F :: Fabric and bound expansions e' :: nat and dest :: u64
    and frontier queue :: "RouteStep list" and visited v' :: "u64 list"
  assume "frontier \<noteq> []"
    and "sweep_frontier F bound dest frontier expansions visited [] = SearchLevel e' v' queue"
  then have "expansions < e'" "e' \<le> bound"
    using sweep_frontier_expansions by fastforce+
  then show "((F, bound, dest, queue, e', v'), (F, bound, dest, frontier, expansions, visited))
      \<in> measure (\<lambda>(F, bound, dest, frontier, expansions, visited). bound - expansions)"
    by simp
qed simp

declare search_routes.simps [simp del]

definition with_channel :: "Fabric \<Rightarrow> u64 \<Rightarrow> PathDescriptor \<Rightarrow> PathDescriptor result" where
  "with_channel F channel path =
     (if channel = 0 then Inr path
      else case find_resource F (ResourceRef KChannel channel) of
        None \<Rightarrow> Inl NotFound
      | Some st \<Rightarrow>
          if ref_kind (rs_resource st) \<noteq> KChannel then Inl NotFound
          else Inr (path\<lparr>pd_channel := channel, pd_channel_generation := rs_generation st\<rparr>))"

definition is_registered_port :: "Fabric \<Rightarrow> u64 \<Rightarrow> bool" where
  "is_registered_port F p \<longleftrightarrow>
     (case find_resource F (port_ref p) of None \<Rightarrow> False | Some st \<Rightarrow> ref_kind (rs_resource st) = KPort)"

definition initial_step :: "Fabric \<Rightarrow> u64 \<Rightarrow> RouteStep" where
  "initial_step F p = (p, [PathSegment RolePort (port_ref p) (registered_generation F (port_ref p))])"

definition resolve_declared_route_locked :: "Fabric \<Rightarrow> ConnectivityIntent \<Rightarrow> PathDescriptor result" where
  "resolve_declared_route_locked F it =
     (if \<not> is_registered_port F (in_source_port it) then Inl NotFound
      else if \<not> is_registered_port F (in_destination_port it) then Inl NotFound
      else if in_source_port it = in_destination_port it then Inl InvalidArgument
      else case search_routes F (max_path_segments (limits F) * 64) (in_destination_port it)
                  [initial_step F (in_source_port it)] 0 [in_source_port it] of
        Inl e \<Rightarrow> Inl e
      | Inr found \<Rightarrow>
          if length found > max_path_segments (limits F) then Inl CapacityExceeded
          else case with_channel F (in_channel it)
                 \<lparr>pd_segments = found, pd_channel = 0, pd_channel_generation = 0,
                  pd_direction = Forward, pd_route_origin = ''declared-route''\<rparr> of
            Inl e \<Rightarrow> Inl e
          | Inr path \<Rightarrow> Inr (if in_direction it = Reverse then reversed_path path else path))"

text \<open>The loop of \<open>describe_route_locked\<close> over the proposed resources.\<close>

fun describe_segments :: "Fabric \<Rightarrow> ResourceRef list \<Rightarrow> ResourceRef list \<Rightarrow> PathSegment list result" where
  "describe_segments F [] seen = Inr []"
| "describe_segments F (r # rs) seen =
     (case find_resource F r of
        None \<Rightarrow> Inl NotFound
      | Some st \<Rightarrow>
          if r \<in> set seen then Inl InvalidArgument
          else case describe_segments F rs (r # seen) of
                 Inl e \<Rightarrow> Inl e
               | Inr segs \<Rightarrow> Inr (PathSegment (role_for (ref_kind (rs_resource st))) r (rs_generation st) # segs))"

definition describe_route_locked ::
  "Fabric \<Rightarrow> ResourceRef list \<Rightarrow> u64 \<Rightarrow> Direction \<Rightarrow> string \<Rightarrow> PathDescriptor result" where
  "describe_route_locked F proposed channel direction origin =
     (if length proposed < 2 then Inl InvalidArgument
      else if length proposed > max_path_segments (limits F) then Inl CapacityExceeded
      else case describe_segments F proposed [] of
        Inl e \<Rightarrow> Inl e
      | Inr segs \<Rightarrow>
          if seg_role (hd segs) \<noteq> RolePort \<or> seg_role (last segs) \<noteq> RolePort then Inl InvalidArgument
          else with_channel F channel
                 \<lparr>pd_segments = segs, pd_channel = 0, pd_channel_generation = 0,
                  pd_direction = direction, pd_route_origin = origin\<rparr>)"

section \<open>What a resolved route is\<close>

text \<open>The specification of a declared route: ports and links alternate, every segment carries
  the registered generation of its resource, and every link joins the ports beside it.\<close>

definition current_segment :: "Fabric \<Rightarrow> PathSegment \<Rightarrow> bool" where
  "current_segment F s \<longleftrightarrow> map_option rs_generation (find_resource F (seg_resource s)) = Some (seg_generation s)"

definition port_segment :: "Fabric \<Rightarrow> PathSegment \<Rightarrow> bool" where
  "port_segment F s \<longleftrightarrow> seg_role s = RolePort \<and> ref_kind (seg_resource s) = KPort \<and> current_segment F s"

definition joins :: "Fabric \<Rightarrow> PathSegment \<Rightarrow> PathSegment \<Rightarrow> PathSegment \<Rightarrow> bool" where
  "joins F p l q \<longleftrightarrow>
     (let kind = ref_kind (seg_resource l) in
      kind \<in> {KCrossConnect, KSpan} \<and> seg_role l = role_for kind \<and> current_segment F l \<and>
      (case find_resource F (seg_resource l) of
         None \<Rightarrow> False
       | Some st \<Rightarrow> {link_near kind st, link_far kind st} = {ref_id (seg_resource p), ref_id (seg_resource q)}))"

fun declared_chain :: "Fabric \<Rightarrow> PathSegment list \<Rightarrow> bool" where
  "declared_chain F [p] = port_segment F p"
| "declared_chain F (p # l # q # rest) = (port_segment F p \<and> joins F p l q \<and> declared_chain F (q # rest))"
| "declared_chain F _ = False"

definition chain_to :: "Fabric \<Rightarrow> u64 \<Rightarrow> u64 \<Rightarrow> PathSegment list \<Rightarrow> bool" where
  "chain_to F source p segs \<longleftrightarrow>
     declared_chain F segs \<and> seg_resource (hd segs) = port_ref source \<and> seg_resource (last segs) = port_ref p"

lemma declared_chain_nonempty: "declared_chain F segs \<Longrightarrow> segs \<noteq> []"
  by auto

lemma declared_chain_extend:
  "declared_chain F segs \<Longrightarrow> joins F (last segs) l q \<Longrightarrow> port_segment F q \<Longrightarrow> declared_chain F (segs @ [l, q])"
proof (induction F segs rule: declared_chain.induct)
  case (2 F p l' q' rest)
  then show ?case by (cases rest) auto
qed auto

lemma adjacency_member:
  assumes "ordered_keys (resources F)" and "i \<in> set (indexed (adjacency F kind) p)"
    and "find_resource F (ResourceRef kind i) = Some st"
  shows "link_near kind st = p \<or> link_far kind st = p"
proof -
  obtain r st' where "(r, st') \<in> set (resources F)" "ref_kind r = kind" "ref_id r = i"
    "link_near kind st' = p \<or> link_far kind st' = p"
    using assms(2) by (auto simp: adjacency_def indexed_build split: if_splits)
  moreover from this have "r = ResourceRef kind i" by (cases r) simp
  ultimately show ?thesis
    using assms(1,3) by (auto simp: find_resource_def ordered_entry_iff)
qed

lemma chain_extend:
  assumes "ordered_keys (resources F)" "kind \<in> {KCrossConnect, KSpan}" "chain_to F source p segs"
    and "i \<in> set (indexed (adjacency F kind) p)"
    and "find_resource F (ResourceRef kind i) = Some st"
    and "find_resource F (port_ref (far_port kind st p)) = Some fs"
  shows "chain_to F source (far_port kind st p)
    (segs @ [PathSegment (role_for kind) (ResourceRef kind i) (rs_generation st),
             PathSegment RolePort (port_ref (far_port kind st p)) (rs_generation fs)])"
proof -
  have near: "link_near kind st = p \<or> link_far kind st = p"
    using adjacency_member assms(1,4,5) by blast
  have nonempty: "segs \<noteq> []" and last: "seg_resource (last segs) = port_ref p"
    using assms(3) declared_chain_nonempty by (auto simp: chain_to_def)
  have "joins F (last segs) (PathSegment (role_for kind) (ResourceRef kind i) (rs_generation st))
      (PathSegment RolePort (port_ref (far_port kind st p)) (rs_generation fs))"
    using assms(2,5) near
    by (auto simp: joins_def Let_def current_segment_def last port_ref_def far_port_def)
  moreover have "port_segment F (PathSegment RolePort (port_ref (far_port kind st p)) (rs_generation fs))"
    using assms(6) by (simp add: port_segment_def current_segment_def port_ref_def)
  ultimately show ?thesis
    using assms(3) declared_chain_extend nonempty by (simp add: chain_to_def)
qed

lemma follow_links_chain:
  assumes "ordered_keys (resources F)" "kind \<in> {KCrossConnect, KSpan}" "chain_to F source (fst step) (snd step)"
    and "set is \<subseteq> set (indexed (adjacency F kind) (fst step))"
    and "\<forall>(p, segs) \<in> set queue. chain_to F source p segs"
  shows "case follow_links F kind dest step is visited queue of
      Inl found \<Rightarrow> chain_to F source dest found
    | Inr (v, n) \<Rightarrow> \<forall>(p, segs) \<in> set n. chain_to F source p segs"
  using assms(4,5)
proof (induction "is" arbitrary: visited queue)
  case Nil
  then show ?case by simp
next
  case (Cons i "is")
  have member: "i \<in> set (indexed (adjacency F kind) (fst step))"
    and rest: "set is \<subseteq> set (indexed (adjacency F kind) (fst step))" using Cons.prems(1) by auto
  note IH = Cons.IH [OF rest]
  show ?case
  proof (cases "find_resource F (ResourceRef kind i)")
    case None
    then show ?thesis using IH Cons.prems(2) by simp
  next
    case (Some st)
    note st = Some
    show ?thesis
    proof (cases "find_resource F (port_ref (far_port kind st (fst step)))")
      case None
      then show ?thesis using IH Cons.prems(2) st by simp
    next
      case (Some fs)
      note chain = chain_extend [OF assms(1,2,3) member st Some]
      have "\<forall>(p, segs) \<in> set (queue @ [(far_port kind st (fst step), snd step @
          [PathSegment (role_for kind) (ResourceRef kind i) (rs_generation st),
           PathSegment RolePort (port_ref (far_port kind st (fst step))) (rs_generation fs)])]).
          chain_to F source p segs"
        using chain Cons.prems(2) by auto
      note grown = IH [OF this]
      show ?thesis
        using chain grown IH [OF Cons.prems(2)] st Some by (auto simp: Let_def)
    qed
  qed
qed

lemma sweep_frontier_chain:
  assumes "ordered_keys (resources F)"
    and "\<forall>(p, segs) \<in> set frontier. chain_to F source p segs"
    and "\<forall>(p, segs) \<in> set queue. chain_to F source p segs"
  shows "case sweep_frontier F bound dest frontier e visited queue of
      SearchExceeded \<Rightarrow> True
    | SearchFound found \<Rightarrow> chain_to F source dest found
    | SearchLevel e' v n \<Rightarrow> \<forall>(p, segs) \<in> set n. chain_to F source p segs"
  using assms(2,3)
proof (induction frontier arbitrary: e visited queue)
  case Nil
  then show ?case by simp
next
  case (Cons step frontier)
  have step: "chain_to F source (fst step) (snd step)" using Cons.prems(1) by auto
  have frontier: "\<forall>(p, segs) \<in> set frontier. chain_to F source p segs" using Cons.prems(1) by auto
  let ?xs = "indexed (adjacency F KCrossConnect) (fst step)"
  let ?ss = "indexed (adjacency F KSpan) (fst step)"
  note xc = follow_links_chain [OF assms(1) _ step subset_refl Cons.prems(2), of KCrossConnect dest visited]
  show ?case
  proof (cases "follow_links F KCrossConnect dest step ?xs visited queue")
    case (Inl found)
    then show ?thesis using xc by simp
  next
    case (Inr vn)
    then have n1: "\<forall>(p, segs) \<in> set (snd vn). chain_to F source p segs" using xc by (auto split: prod.splits)
    note sp = follow_links_chain [OF assms(1) _ step subset_refl n1, of KSpan dest "fst vn"]
    show ?thesis
    proof (cases "follow_links F KSpan dest step ?ss (fst vn) (snd vn)")
      case found: (Inl found)
      then show ?thesis using sp Inr by (simp add: case_prod_beta)
    next
      case level: (Inr vn2)
      then have n2: "\<forall>(p, segs) \<in> set (snd vn2). chain_to F source p segs" using sp by (auto split: prod.splits)
      show ?thesis
        using Cons.IH [OF frontier n2, of "e + 1" "fst vn2"] level Inr by (simp add: case_prod_beta)
    qed
  qed
qed

lemma search_routes_chain:
  assumes "ordered_keys (resources F)" and "\<forall>(p, segs) \<in> set frontier. chain_to F source p segs"
    and "search_routes F bound dest frontier e visited = Inr found"
  shows "chain_to F source dest found"
  using assms
proof (induction F bound dest frontier e visited rule: search_routes.induct)
  case (1 F bound dest frontier e visited)
  note swept = sweep_frontier_chain [OF 1(2,3), where queue = "[]" and bound = bound and dest = dest and e = e and visited = visited]
  have "frontier \<noteq> []" using 1(4) by (auto simp: search_routes.simps [of F bound dest frontier])
  then show ?case
    using 1 swept
    by (cases "sweep_frontier F bound dest frontier e visited []")
      (simp_all add: search_routes.simps [of F bound dest frontier])
qed

lemma with_channel_keeps:
  "with_channel F c p = Inr q \<Longrightarrow>
     pd_segments q = pd_segments p \<and> pd_direction q = pd_direction p \<and> pd_route_origin q = pd_route_origin p"
  by (auto simp: with_channel_def split: if_splits option.splits)

lemma resolve_declared_route_chain:
  assumes "ordered_keys (resources F)" and "resolve_declared_route_locked F it = Inr path"
  shows "length (pd_segments path) \<le> max_path_segments (limits F)"
    and "chain_to F (in_source_port it) (in_destination_port it)
      (if in_direction it = Reverse then rev (pd_segments path) else pd_segments path)"
proof -
  obtain found p where port: "is_registered_port F (in_source_port it)"
    and search: "search_routes F (max_path_segments (limits F) * 64) (in_destination_port it)
        [initial_step F (in_source_port it)] 0 [in_source_port it] = Inr found"
    and len: "length found \<le> max_path_segments (limits F)"
    and chan: "with_channel F (in_channel it) \<lparr>pd_segments = found, pd_channel = 0,
        pd_channel_generation = 0, pd_direction = Forward, pd_route_origin = ''declared-route''\<rparr> = Inr p"
    and path: "path = (if in_direction it = Reverse then reversed_path p else p)"
    using assms(2)
    by (auto simp: resolve_declared_route_locked_def not_less split: if_splits sum.splits)
  have "chain_to F (in_source_port it) (in_source_port it) (snd (initial_step F (in_source_port it)))"
    using port
    by (auto simp: chain_to_def initial_step_def port_segment_def current_segment_def port_ref_def
        is_registered_port_def registered_generation_def split: option.splits)
  then have "\<forall>(q, segs) \<in> set [initial_step F (in_source_port it)]. chain_to F (in_source_port it) q segs"
    by (simp add: initial_step_def)
  from search_routes_chain [OF assms(1) this search]
  have chain: "chain_to F (in_source_port it) (in_destination_port it) found" .
  have segs: "pd_segments p = found" using with_channel_keeps [OF chan] by simp
  show "length (pd_segments path) \<le> max_path_segments (limits F)"
    using len segs path by (simp add: reversed_path_def)
  show "chain_to F (in_source_port it) (in_destination_port it)
      (if in_direction it = Reverse then rev (pd_segments path) else pd_segments path)"
    using chain segs path by (simp add: reversed_path_def)
qed

lemma describe_segments_Inr:
  "describe_segments F rs seen = Inr segs \<Longrightarrow>
     map seg_resource segs = rs \<and> distinct rs \<and> set rs \<inter> set seen = {} \<and> list_all (current_segment F) segs"
proof (induction rs arbitrary: seen segs)
  case Nil
  then show ?case by simp
next
  case (Cons r rs)
  from Cons.prems obtain st segs' where st: "find_resource F r = Some st" and fresh: "r \<notin> set seen"
    and tail: "describe_segments F rs (r # seen) = Inr segs'"
    and segs: "segs = PathSegment (role_for (ref_kind (rs_resource st))) r (rs_generation st) # segs'"
    by (auto split: option.splits if_splits sum.splits)
  from Cons.IH [OF tail] st fresh segs show ?case by (auto simp: current_segment_def)
qed

lemma describe_route_Inr:
  assumes "describe_route_locked F proposed channel direction origin = Inr path"
  shows "map seg_resource (pd_segments path) = proposed" "distinct proposed"
    "list_all (current_segment F) (pd_segments path)"
    "seg_role (hd (pd_segments path)) = RolePort" "seg_role (last (pd_segments path)) = RolePort"
    "2 \<le> length (pd_segments path)" "length (pd_segments path) \<le> max_path_segments (limits F)"
proof -
  obtain segs where len: "2 \<le> length proposed" "length proposed \<le> max_path_segments (limits F)"
    and segs: "describe_segments F proposed [] = Inr segs" "seg_role (hd segs) = RolePort"
      "seg_role (last segs) = RolePort"
    and chan: "with_channel F channel \<lparr>pd_segments = segs, pd_channel = 0, pd_channel_generation = 0,
        pd_direction = direction, pd_route_origin = origin\<rparr> = Inr path"
    using assms by (auto simp: describe_route_locked_def not_less split: if_splits sum.splits)
  have "pd_segments path = segs" using with_channel_keeps [OF chan] by simp
  moreover have "length segs = length proposed"
    using describe_segments_Inr [OF segs(1)] by (metis length_map)
  ultimately show "map seg_resource (pd_segments path) = proposed" "distinct proposed"
    "list_all (current_segment F) (pd_segments path)"
    "seg_role (hd (pd_segments path)) = RolePort" "seg_role (last (pd_segments path)) = RolePort"
    "2 \<le> length (pd_segments path)" "length (pd_segments path) \<le> max_path_segments (limits F)"
    using describe_segments_Inr [OF segs(1)] segs(2,3) len by simp_all
qed

end
