(* ===== verification/Topology.thy ===== *)
theory Topology
  imports Route
begin

text \<open>
  The runtime's clock and life (\<open>advance_tick\<close>, \<open>flush\<close>, \<open>close\<close>) and the registration of
  resources (\<open>topology.hpp\<close>, the topology part of \<open>fabric_core.cpp\<close>).
\<close>

section \<open>Clock and life\<close>

definition advance_tick :: "StoreIo \<Rightarrow> u64 \<Rightarrow> Fabric \<Rightarrow> u64 result \<times> Fabric" where
  "advance_tick io delta F =
     (if closed F then (Inl Closed, F)
      else if delta = 0 then (Inr (tick F), F)
      else
        let F1 = F\<lparr>tick := tick F + delta, generation := generation F + 1\<rparr>;
            (status, F2) = commit io RkRuntimeState
              [RuntimeItem (runtime_state F1 (generation F1) (topology_generation F1))] F1
        in if status \<noteq> Ok then (Inl status, F2) else (Inr (tick F2), F2))"

text \<open>\<open>synced\<close> is what synchronising the store file reported.\<close>

definition flush :: "Status \<Rightarrow> Fabric \<Rightarrow> Status" where
  "flush synced F = (if memory_only F \<or> \<not> store_open F then Ok else synced)"

definition close_fabric :: "Status \<Rightarrow> Fabric \<Rightarrow> Status \<times> Fabric" where
  "close_fabric synced F =
     (if closed F then (Ok, F)
      else (flush synced F,
            F\<lparr>store_open := (if memory_only F then store_open F else False), closed := True\<rparr>))"

section \<open>Registration\<close>

datatype TopologyOutcome = Registered | AlreadyRegistered | TopologyRefused

record RegistrationResult =
  reg_outcome :: TopologyOutcome
  reg_refusal :: RefusalCode
  reg_resource :: ResourceRef
  reg_generation :: u64

definition registration_refused :: "RefusalCode \<Rightarrow> RegistrationResult" where
  "registration_refused code =
     \<lparr>reg_outcome = TopologyRefused, reg_refusal = code, reg_resource = nil_ref, reg_generation = 0\<rparr>"

text \<open>Every field but the membership list, the generation and the registration tick.\<close>

definition same_resource :: "ResourceState \<Rightarrow> ResourceState \<Rightarrow> bool" where
  "same_resource a b \<longleftrightarrow>
     rs_resource a = rs_resource b \<and> rs_name a = rs_name b \<and> rs_sharing a = rs_sharing b \<and>
     rs_attributes a = rs_attributes b \<and> rs_site a = rs_site b \<and> rs_node a = rs_node b \<and>
     rs_endpoint_a a = rs_endpoint_a b \<and> rs_endpoint_b a = rs_endpoint_b b \<and>
     rs_ingress a = rs_ingress b \<and> rs_egress a = rs_egress b \<and> rs_spans a = rs_spans b \<and>
     rs_endpoints a = rs_endpoints b \<and> rs_role a = rs_role b \<and> rs_region a = rs_region b \<and>
     rs_description a = rs_description b \<and> rs_band a = rs_band b \<and>
     rs_channel_index a = rs_channel_index b \<and>
     rs_nominal_frequency_ghz a = rs_nominal_frequency_ghz b \<and>
     rs_declared_length_metres a = rs_declared_length_metres b"

definition blank_resource :: ResourceState where
  "blank_resource = \<lparr>rs_resource = nil_ref, rs_name = '''', rs_sharing = Exclusive, rs_generation = 0,
     rs_registered_tick = 0, rs_related = [], rs_attributes = [], rs_site = 0, rs_node = 0,
     rs_endpoint_a = 0, rs_endpoint_b = 0, rs_ingress = 0, rs_egress = 0, rs_spans = [],
     rs_endpoints = [], rs_role = '''', rs_region = '''', rs_description = '''', rs_band = '''',
     rs_channel_index = 0, rs_nominal_frequency_ghz = 0, rs_declared_length_metres = 0\<rparr>"

text \<open>The owner's record with the new member, when the owner is registered and lacks it.\<close>

definition owner_update :: "Fabric \<Rightarrow> ResourceRef \<Rightarrow> ResourceRef \<Rightarrow> CommitItem list" where
  "owner_update F owner member =
     (case map_of (resources F) owner of
        None \<Rightarrow> []
      | Some st \<Rightarrow>
          if \<not> ref_is_nil owner \<and> member \<notin> set (rs_related st)
          then [ResourceItem (st\<lparr>rs_related := rs_related st @ [member]\<rparr>)] else [])"

definition register_items :: "Fabric \<Rightarrow> ResourceState \<Rightarrow> ResourceRef \<Rightarrow> CommitItem list" where
  "register_items F state owner =
     [ResourceItem state] @ owner_update F owner (rs_resource state) @
     [RuntimeItem (runtime_state F (generation F + 1) (topology_generation F + 1))]"

definition register_resource_locked ::
  "StoreIo \<Rightarrow> ResourceState \<Rightarrow> nat \<Rightarrow> nat \<Rightarrow> ResourceRef \<Rightarrow> Fabric \<Rightarrow> RegistrationResult \<times> Fabric" where
  "register_resource_locked io state existing_of_kind kind_limit owner F =
     (case map_of (resources F) (rs_resource state) of
        Some found \<Rightarrow>
          if same_resource found state
          then (\<lparr>reg_outcome = AlreadyRegistered, reg_refusal = RNone, reg_resource = rs_resource state,
                 reg_generation = rs_generation found\<rparr>, F)
          else (registration_refused RIdentityCollision, F)
      | None \<Rightarrow>
          if existing_of_kind \<ge> kind_limit then (registration_refused RCapacityExceeded, F)
          else if topology_generation F + 1 = 0 \<or> generation F + 1 = 0 then
            (registration_refused RCapacityExceeded, F)
          else
            let fresh = state\<lparr>rs_generation := 1, rs_registered_tick := tick F\<rparr>;
                (status, F1) = commit io RkTopologyRegistered (register_items F fresh owner) F
            in if status \<noteq> Ok then (registration_refused PersistenceFailure, F1)
               else (\<lparr>reg_outcome = Registered, reg_refusal = RNone, reg_resource = rs_resource state,
                      reg_generation = 1\<rparr>, F1))"

definition count_of_kind :: "Fabric \<Rightarrow> ResourceKind \<Rightarrow> nat" where
  "count_of_kind F kind = length (filter (\<lambda>(r, st). ref_kind r = kind) (resources F))"

definition link_related_locked :: "StoreIo \<Rightarrow> ResourceRef \<Rightarrow> ResourceRef \<Rightarrow> Fabric \<Rightarrow> Fabric" where
  "link_related_locked io owner member F =
     (case map_of (resources F) owner of
        None \<Rightarrow> F
      | Some st \<Rightarrow>
          if member \<in> set (rs_related st) then F
          else let updated = st\<lparr>rs_related := rs_related st @ [member]\<rparr> in
               snd (commit io RkTopologyRegistered [ResourceItem updated]
                      (F\<lparr>resources := map_put owner updated (resources F)\<rparr>)))"

record SiteRegistration =
  site_name :: string
  site_region :: string
  site_sharing :: SharingMode
  site_description :: string

record OpticalNodeRegistration =
  node_name :: string
  node_site :: u64
  node_role :: string
  node_sharing :: SharingMode

record PortRegistration =
  port_name :: string
  port_node :: u64
  port_role :: string
  port_sharing :: SharingMode

record SpanRegistration =
  span_name :: string
  span_endpoint_a :: u64
  span_endpoint_b :: u64
  span_declared_length_metres :: u64
  span_sharing :: SharingMode

record LineSystemRegistration =
  line_name :: string
  line_spans :: "u64 list"
  line_endpoints :: "u64 list"
  line_sharing :: SharingMode

record CrossConnectRegistration =
  xc_name :: string
  xc_node :: u64
  xc_ingress :: u64
  xc_egress :: u64
  xc_sharing :: SharingMode

record ChannelRegistration =
  ch_name :: string
  ch_index :: u32
  ch_nominal_frequency_ghz :: u64
  ch_band :: string
  ch_sharing :: SharingMode

definition attribute :: "string \<Rightarrow> string \<Rightarrow> string" where
  "attribute key val = key @ ''='' @ val"

definition named_resource :: "ResourceKind \<Rightarrow> string \<Rightarrow> SharingMode \<Rightarrow> ResourceState" where
  "named_resource kind name sharing =
     blank_resource\<lparr>rs_resource := ResourceRef kind (derive_resource kind name), rs_name := name,
       rs_sharing := sharing\<rparr>"

definition site_resource :: "SiteRegistration \<Rightarrow> ResourceState" where
  "site_resource q =
     (named_resource KSite (site_name q) (site_sharing q))
       \<lparr>rs_region := site_region q, rs_description := site_description q,
        rs_attributes := (if site_region q \<noteq> [] then [attribute ''region'' (site_region q)] else [])\<rparr>"

definition register_site :: "StoreIo \<Rightarrow> SiteRegistration \<Rightarrow> Fabric \<Rightarrow> RegistrationResult \<times> Fabric" where
  "register_site io q F =
     (if closed F then (registration_refused PersistenceFailure, F)
      else if \<not> names_valid (site_name q) (max_name_length (limits F)) then (registration_refused RNameInvalid, F)
      else register_resource_locked io (site_resource q) (count_of_kind F KSite) (max_sites (limits F)) nil_ref F)"

definition node_resource :: "OpticalNodeRegistration \<Rightarrow> ResourceState" where
  "node_resource q =
     (named_resource KOpticalNode (node_name q) (node_sharing q))
       \<lparr>rs_site := node_site q, rs_role := node_role q, rs_related := [ResourceRef KSite (node_site q)],
        rs_attributes := (if node_role q \<noteq> [] then [attribute ''role'' (node_role q)] else [])\<rparr>"

definition register_optical_node ::
  "StoreIo \<Rightarrow> OpticalNodeRegistration \<Rightarrow> Fabric \<Rightarrow> RegistrationResult \<times> Fabric" where
  "register_optical_node io q F =
     (if closed F then (registration_refused PersistenceFailure, F)
      else if \<not> names_valid (node_name q) (max_name_length (limits F)) then (registration_refused RNameInvalid, F)
      else if find_resource F (ResourceRef KSite (node_site q)) = None then
        (registration_refused UnknownResource, F)
      else register_resource_locked io (node_resource q) (count_of_kind F KOpticalNode)
             (max_optical_nodes (limits F)) (ResourceRef KSite (node_site q)) F)"

definition port_resource :: "PortRegistration \<Rightarrow> ResourceState \<Rightarrow> ResourceState" where
  "port_resource q node =
     (named_resource KPort (port_name q) (port_sharing q))
       \<lparr>rs_node := port_node q, rs_site := rs_site node, rs_role := port_role q,
        rs_related := [ResourceRef KOpticalNode (port_node q)],
        rs_attributes := (if port_role q \<noteq> [] then [attribute ''role'' (port_role q)] else [])\<rparr>"

definition register_port :: "StoreIo \<Rightarrow> PortRegistration \<Rightarrow> Fabric \<Rightarrow> RegistrationResult \<times> Fabric" where
  "register_port io q F =
     (if closed F then (registration_refused PersistenceFailure, F)
      else if \<not> names_valid (port_name q) (max_name_length (limits F)) then (registration_refused RNameInvalid, F)
      else case find_resource F (ResourceRef KOpticalNode (port_node q)) of
        None \<Rightarrow> (registration_refused UnknownResource, F)
      | Some node \<Rightarrow>
          register_resource_locked io (port_resource q node) (count_of_kind F KPort)
            (max_ports (limits F)) (ResourceRef KOpticalNode (port_node q)) F)"

definition span_resource :: "SpanRegistration \<Rightarrow> ResourceState" where
  "span_resource q =
     (named_resource KSpan (span_name q) (span_sharing q))
       \<lparr>rs_endpoint_a := span_endpoint_a q, rs_endpoint_b := span_endpoint_b q,
        rs_declared_length_metres := span_declared_length_metres q,
        rs_related := [port_ref (span_endpoint_a q), port_ref (span_endpoint_b q)],
        rs_attributes := [attribute ''declared_length_metres'' (to_decimal (span_declared_length_metres q))]\<rparr>"

definition register_span :: "StoreIo \<Rightarrow> StoreIo \<Rightarrow> SpanRegistration \<Rightarrow> Fabric \<Rightarrow> RegistrationResult \<times> Fabric" where
  "register_span io io_link q F =
     (if closed F then (registration_refused PersistenceFailure, F)
      else if \<not> names_valid (span_name q) (max_name_length (limits F)) then (registration_refused RNameInvalid, F)
      else if span_endpoint_a q = span_endpoint_b q then (registration_refused RInvalidArgument, F)
      else if find_resource F (port_ref (span_endpoint_a q)) = None \<or>
              find_resource F (port_ref (span_endpoint_b q)) = None then
        (registration_refused UnknownResource, F)
      else
        let (registered, F1) = register_resource_locked io (span_resource q) (count_of_kind F KSpan)
              (max_spans (limits F)) (port_ref (span_endpoint_a q)) F
        in if reg_outcome registered = Registered
           then (registered, link_related_locked io_link (port_ref (span_endpoint_b q)) (reg_resource registered) F1)
           else (registered, F1))"

definition line_resource :: "LineSystemRegistration \<Rightarrow> ResourceState" where
  "line_resource q =
     (named_resource KLineSystem (line_name q) (line_sharing q))
       \<lparr>rs_spans := line_spans q, rs_endpoints := line_endpoints q,
        rs_related := map (ResourceRef KSpan) (line_spans q) @ map port_ref (line_endpoints q)\<rparr>"

definition registered_as :: "Fabric \<Rightarrow> ResourceKind \<Rightarrow> u64 \<Rightarrow> bool" where
  "registered_as F kind i \<longleftrightarrow>
     (case find_resource F (ResourceRef kind i) of None \<Rightarrow> False | Some st \<Rightarrow> ref_kind (rs_resource st) = kind)"

definition register_line_system ::
  "StoreIo \<Rightarrow> LineSystemRegistration \<Rightarrow> Fabric \<Rightarrow> RegistrationResult \<times> Fabric" where
  "register_line_system io q F =
     (if closed F then (registration_refused PersistenceFailure, F)
      else if \<not> names_valid (line_name q) (max_name_length (limits F)) then (registration_refused RNameInvalid, F)
      else if line_spans q = [] then (registration_refused RInvalidArgument, F)
      else if length (line_spans q) > max_spans (limits F) then (registration_refused RCapacityExceeded, F)
      else if \<not> list_all (registered_as F KSpan) (line_spans q) then (registration_refused UnknownResource, F)
      else if \<not> list_all (registered_as F KPort) (line_endpoints q) then (registration_refused UnknownResource, F)
      else register_resource_locked io (line_resource q) (count_of_kind F KLineSystem)
             (max_line_systems (limits F)) nil_ref F)"

definition cross_connect_resource :: "CrossConnectRegistration \<Rightarrow> ResourceState" where
  "cross_connect_resource q =
     (named_resource KCrossConnect (xc_name q) (xc_sharing q))
       \<lparr>rs_node := xc_node q, rs_ingress := xc_ingress q, rs_egress := xc_egress q,
        rs_related := [ResourceRef KOpticalNode (xc_node q), port_ref (xc_ingress q), port_ref (xc_egress q)]\<rparr>"

definition register_cross_connect ::
  "StoreIo \<Rightarrow> CrossConnectRegistration \<Rightarrow> Fabric \<Rightarrow> RegistrationResult \<times> Fabric" where
  "register_cross_connect io q F =
     (if closed F then (registration_refused PersistenceFailure, F)
      else if \<not> names_valid (xc_name q) (max_name_length (limits F)) then (registration_refused RNameInvalid, F)
      else if xc_ingress q = xc_egress q then (registration_refused RInvalidArgument, F)
      else if \<not> registered_as F KOpticalNode (xc_node q) then (registration_refused UnknownResource, F)
      else case (find_resource F (port_ref (xc_ingress q)), find_resource F (port_ref (xc_egress q))) of
        (Some ingress, Some egress) \<Rightarrow>
          if rs_node ingress \<noteq> xc_node q \<or> rs_node egress \<noteq> xc_node q then
            (registration_refused RInvalidArgument, F)
          else register_resource_locked io (cross_connect_resource q) (count_of_kind F KCrossConnect)
                 (max_cross_connects (limits F)) (ResourceRef KOpticalNode (xc_node q)) F
      | _ \<Rightarrow> (registration_refused UnknownResource, F))"

definition channel_resource :: "ChannelRegistration \<Rightarrow> ResourceState" where
  "channel_resource q =
     (named_resource KChannel (ch_name q) (ch_sharing q))
       \<lparr>rs_channel_index := ch_index q, rs_nominal_frequency_ghz := ch_nominal_frequency_ghz q,
        rs_band := ch_band q,
        rs_attributes := [attribute ''index'' (dec_digits (unat (ch_index q))),
            attribute ''nominal_frequency_ghz'' (to_decimal (ch_nominal_frequency_ghz q))] @
          (if ch_band q \<noteq> [] then [attribute ''band'' (ch_band q)] else [])\<rparr>"

definition register_channel :: "StoreIo \<Rightarrow> ChannelRegistration \<Rightarrow> Fabric \<Rightarrow> RegistrationResult \<times> Fabric" where
  "register_channel io q F =
     (if closed F then (registration_refused PersistenceFailure, F)
      else if \<not> names_valid (ch_name q) (max_name_length (limits F)) then (registration_refused RNameInvalid, F)
      else register_resource_locked io (channel_resource q) (count_of_kind F KChannel)
             (max_channels (limits F)) nil_ref F)"

end
