(* ===== verification/Ingest.thy ===== *)
theory Ingest
  imports Topology
begin

text \<open>
  Ingestion of observations and the evidence source registry (the evidence part of
  \<open>fabric_core.cpp\<close>). A producer (\<open>IEvidenceSource\<close>) is code outside the repository's core:
  the bundle it returned is an argument.
\<close>

definition derive_evidence_id :: "EvidenceRecord \<Rightarrow> u64" where
  "derive_evidence_id r =
     derive_composite ''evidence''
       (ref_to_string (ev_subject r) @ ''|'' @ evidence_kind_to_string (ev_kind r) @ ''|'' @
        hex_encode (source_id (ev_provenance r)) @ ''|'' @ to_decimal (source_sequence (ev_provenance r)))"

text \<open>What the runtime stamps on an accepted observation.\<close>

definition stamp_evidence :: "Fabric \<Rightarrow> ResourceState \<Rightarrow> EvidenceRecord \<Rightarrow> EvidenceRecord" where
  "stamp_evidence F subject r =
     (let p = ev_provenance r;
          p' = p\<lparr>observed_generation := (if observed_generation p = 0 then rs_generation subject
                                         else observed_generation p),
                 ingested_incarnation := incarnation F\<rparr>;
          r' = r\<lparr>ev_provenance := p'\<rparr>
      in r'\<lparr>ev_id := derive_evidence_id r'\<rparr>)"

definition newer_from_producer :: "EvidenceRecord \<Rightarrow> EvidenceRecord \<Rightarrow> bool" where
  "newer_from_producer stored r \<longleftrightarrow>
     ev_subject stored = ev_subject r \<and> ev_kind stored = ev_kind r \<and>
     source_id (ev_provenance stored) = source_id (ev_provenance r) \<and>
     source_sequence (ev_provenance stored) > source_sequence (ev_provenance r)"

definition ingest_evidence_locked :: "StoreIo \<Rightarrow> EvidenceRecord \<Rightarrow> Fabric \<Rightarrow> u64 result \<times> Fabric" where
  "ingest_evidence_locked io incoming F =
     (if ref_is_nil (ev_subject incoming) then (Inl InvalidArgument, F)
      else case find_resource F (ev_subject incoming) of
        None \<Rightarrow> (Inl NotFound, F)
      | Some subject \<Rightarrow>
          if source_runtime (ev_provenance incoming) = [] then (Inl InvalidArgument, F)
          else if length (ev_detail incoming) > max_evidence_detail_length (limits F) then
            (Inl CapacityExceeded, F)
          else if valid_until_tick (ev_provenance incoming) \<le> observed_tick (ev_provenance incoming) then
            (Inl InvalidArgument, F)
          else
            let r = stamp_evidence F subject incoming in
            case map_of (evidence F) (ev_id r) of
              Some existing \<Rightarrow>
                if content_digest (ev_provenance existing) = content_digest (ev_provenance r)
                then (Inr (ev_id r), F) else (Inl ConflictingEvidence, F)
            | None \<Rightarrow>
                if \<exists>(i, stored) \<in> set (evidence F). newer_from_producer stored r then (Inl StaleEvidence, F)
                else if length (evidence F) \<ge> max_evidence_records (limits F) then (Inl CapacityExceeded, F)
                else
                  let (status, F1) = commit io RkEvidenceIngested
                        [EvidenceItem r, RuntimeItem (runtime_state F (generation F + 1) (topology_generation F))] F
                  in if status \<noteq> Ok then (Inl status, F1) else (Inr (ev_id r), F1))"

definition ingest_evidence :: "StoreIo \<Rightarrow> EvidenceRecord \<Rightarrow> Fabric \<Rightarrow> u64 result \<times> Fabric" where
  "ingest_evidence io r F = (if closed F then (Inl Closed, F) else ingest_evidence_locked io r F)"

definition fill_from_bundle :: "EvidenceBundle \<Rightarrow> EvidenceRecord \<Rightarrow> EvidenceRecord" where
  "fill_from_bundle b r =
     (let p = ev_provenance r in
      r\<lparr>ev_provenance := p
          \<lparr>source_id := (if source_id p = 0 \<and> eb_source_id b \<noteq> 0 then eb_source_id b else source_id p),
           source_runtime := (if source_runtime p = [] then eb_source_runtime b else source_runtime p),
           source_instance := (if source_instance p = [] then eb_source_instance b else source_instance p)\<rparr>\<rparr>)"

text \<open>The loop of \<open>ingest_bundle\<close>; each observation is a commit of its own, with its own outcome
  of the store.\<close>

fun ingest_all :: "(nat \<Rightarrow> StoreIo) \<Rightarrow> EvidenceBundle \<Rightarrow> EvidenceRecord list \<Rightarrow> nat \<Rightarrow> Fabric \<Rightarrow> nat result \<times> Fabric" where
  "ingest_all ios b [] ingested F = (Inr ingested, F)"
| "ingest_all ios b (r # rs) ingested F =
     (let (result, F1) = ingest_evidence_locked (ios ingested) (fill_from_bundle b r) F in
      case result of
        Inl e \<Rightarrow> (Inl e, F1)
      | Inr _ \<Rightarrow> ingest_all ios b rs (ingested + 1) F1)"

definition ingest_bundle :: "(nat \<Rightarrow> StoreIo) \<Rightarrow> EvidenceBundle \<Rightarrow> Fabric \<Rightarrow> nat result \<times> Fabric" where
  "ingest_bundle ios b F =
     (if closed F then (Inl Closed, F)
      else if eb_records b = [] then (Inr 0, F)
      else ingest_all ios b (eb_records b) 0 F)"

definition describe_evidence :: "Fabric \<Rightarrow> u64 \<Rightarrow> EvidenceRecord result" where
  "describe_evidence F i = (case map_of (evidence F) i of None \<Rightarrow> Inl NotFound | Some r \<Rightarrow> Inr r)"

definition register_evidence_source :: "SourceDescriptor \<Rightarrow> Fabric \<Rightarrow> Fabric" where
  "register_evidence_source d F =
     (if length (sources F) \<ge> max_evidence_sources (limits F) then
        note_diagnostic \<lparr>dn_kind = DCapacityPressure, dn_refusal = RCapacityExceeded,
          dn_subject = nil_ref, dn_connectivity = 0, dn_reservation = 0, dn_grant = 0,
          dn_observed_tick = tick F, dn_observed_epoch = epoch F, dn_observed_generation = generation F,
          dn_current_generation = generation F\<rparr> F
      else F\<lparr>sources := map_put (sd_id d) d (sources F)\<rparr>)"

text \<open>\<open>refresh_from_source\<close>: \<open>polled\<close> is what the producer returned and \<open>described\<close> how it
  describes itself. The lock is not held while it runs, so the state it was looked up in
  (\<open>F0\<close>) may be older than the state the bundle is ingested into (\<open>F\<close>).\<close>

definition refresh_from_source ::
  "(nat \<Rightarrow> StoreIo) \<Rightarrow> u64 \<Rightarrow> EvidenceBundle result \<Rightarrow> SourceDescriptor \<Rightarrow> Fabric \<Rightarrow> Fabric \<Rightarrow>
   nat result \<times> Fabric" where
  "refresh_from_source ios source polled described F0 F =
     (if closed F0 then (Inl Closed, F)
      else case map_of (sources F0) source of
        None \<Rightarrow> (Inl NotFound, F)
      | Some _ \<Rightarrow>
         (case polled of
            Inl e \<Rightarrow> (Inl e, F)
          | Inr b \<Rightarrow>
              if length (eb_records b) > max_evidence_records (limits F0) then (Inl CapacityExceeded, F)
              else ingest_bundle ios
                (b\<lparr>eb_source_id := (if eb_source_id b = 0 then source else eb_source_id b),
                   eb_source_runtime := (if eb_source_runtime b = [] then sd_runtime described
                                         else eb_source_runtime b),
                   eb_source_instance := (if eb_source_instance b = [] then sd_instance described
                                          else eb_source_instance b)\<rparr>) F))"

end
