(* ===== verification/Operations.thy ===== *)
theory Operations
  imports Ingest
begin

text \<open>
  What every operation on a connectivity object shares (\<open>fabric_connectivity.cpp\<close>, the
  bookkeeping part of \<open>fabric_core.cpp\<close>): the digest of its request, the attempt table,
  transition histories, and the way a handler answers, refuses or commits.

  Every handler of the source has the same shape: a chain of checks that either returns a
  result, or calls its local \<open>refuse\<close>, or builds one commit bundle; a failed commit calls
  \<open>refuse\<close> again. A \<open>Decision\<close> is the outcome of that chain and \<open>run_handler\<close> carries it out.
  After a failed commit the runtime accepts no further commit, so one \<open>io\<close> serves both.
\<close>

section \<open>Attempts and transitions\<close>

definition find_attempt_locked :: "Fabric \<Rightarrow> u64 \<Rightarrow> AttemptRecord option" where
  "find_attempt_locked F attempt = map_of (attempts F) attempt"

definition record_attempt_locked :: "StoreIo \<Rightarrow> AttemptRecord \<Rightarrow> Fabric \<Rightarrow> Fabric" where
  "record_attempt_locked io r F = snd (commit io RkAttemptRecorded [AttemptItem r] F)"

definition copy_object_locked :: "Fabric \<Rightarrow> u64 \<Rightarrow> ConnectivityRecord option" where
  "copy_object_locked F i = map_of (objects F) i"

text \<open>The attempt record of an operation on an object; grants have records of their own.\<close>

definition attempt_of ::
  "string \<Rightarrow> u64 \<Rightarrow> Digest128 \<Rightarrow> OutcomeCode \<Rightarrow> RefusalCode \<Rightarrow> u64 \<Rightarrow> u64 \<Rightarrow> Fabric \<Rightarrow> AttemptRecord" where
  "attempt_of operation attempt digest outcome refusal connectivity reservation F =
     \<lparr>ar_attempt = attempt, ar_request_digest = digest, ar_operation = operation, ar_outcome = outcome,
      ar_refusal = refusal, ar_connectivity = connectivity, ar_reservation = reservation, ar_grant = 0,
      ar_generation = generation F, ar_tick = tick F\<rparr>"

definition transition_of ::
  "Fabric \<Rightarrow> ConnectivityRecord \<Rightarrow> ConnectivityState \<Rightarrow> OutcomeCode \<Rightarrow> RefusalCode \<Rightarrow> u64 \<Rightarrow> TransitionRecord" where
  "transition_of F record to outcome refusal attempt =
     \<lparr>tr_from = cr_state record, tr_to = to, tr_outcome = outcome, tr_refusal = refusal,
      tr_attempt = attempt, tr_generation = cr_generation record + 1, tr_epoch = epoch F, tr_tick = tick F\<rparr>"

definition push_transition_locked ::
  "Fabric \<Rightarrow> ConnectivityState \<Rightarrow> OutcomeCode \<Rightarrow> RefusalCode \<Rightarrow> u64 \<Rightarrow> ConnectivityRecord \<Rightarrow> ConnectivityRecord" where
  "push_transition_locked F to outcome refusal attempt record =
     (let bound = max_attempt_history_per_object (limits F) in
      record\<lparr>cr_history := push_bounded bound (transition_of F record to outcome refusal attempt) (cr_history record),
        cr_transitions_dropped := cr_transitions_dropped record + (length (cr_history record) + 1 - bound)\<rparr>)"

text \<open>The counter \<open>push_transition_locked\<close> advances in the runtime.\<close>

definition count_transition :: "Fabric \<Rightarrow> Fabric" where
  "count_transition F = F\<lparr>transitions_total := transitions_total F + 1\<rparr>"

text \<open>A transition to \<open>to\<close>, the next generation and the current tick: the four statements every
  handler that moves an object executes.\<close>

definition move_object ::
  "Fabric \<Rightarrow> ConnectivityState \<Rightarrow> RefusalCode \<Rightarrow> u64 \<Rightarrow> ConnectivityRecord \<Rightarrow> ConnectivityRecord" where
  "move_object F to refusal attempt record =
     (push_transition_locked F to Applied refusal attempt record)
       \<lparr>cr_state := to, cr_generation := cr_generation record + 1, cr_updated_tick := tick F\<rparr>"

definition path_resources :: "ConnectivityRecord \<Rightarrow> ResourceRef list" where
  "path_resources record = map seg_resource (pd_segments (cr_path record))"

section \<open>Deciding and carrying out\<close>

datatype 'r Decision =
  Answer 'r
| Refuse RefusalCode 'r
| Perform RecordKind "CommitItem list" Fabric 'r 'r

definition run_handler ::
  "StoreIo \<Rightarrow> (RefusalCode \<Rightarrow> 'r \<Rightarrow> 'r) \<Rightarrow> (RefusalCode \<Rightarrow> Fabric \<Rightarrow> AttemptRecord) \<Rightarrow> 'r Decision \<Rightarrow> Fabric \<Rightarrow>
   'r \<times> Fabric" where
  "run_handler io set_refused refused_attempt decision F =
     (case decision of
        Answer r \<Rightarrow> (r, F)
      | Refuse code r \<Rightarrow> (set_refused code r, record_attempt_locked io (refused_attempt code F) F)
      | Perform kind items F1 r base \<Rightarrow>
         (let (status, F2) = commit io kind items F1 in
          if status \<noteq> Ok
          then (set_refused PersistenceFailure base,
                record_attempt_locked io (refused_attempt PersistenceFailure F2) F2)
          else (r, F2)))"

text \<open>A prior attempt with another digest or operation is a conflict; an equal one is answered
  from the table: refused again, or reported as a replay.\<close>

definition attempt_conflicts :: "AttemptRecord \<Rightarrow> Digest128 \<Rightarrow> string \<Rightarrow> bool" where
  "attempt_conflicts prior digest operation \<longleftrightarrow>
     ar_request_digest prior \<noteq> digest \<or> ar_operation prior \<noteq> operation"

definition replay_outcome :: "AttemptRecord \<Rightarrow> OutcomeCode" where
  "replay_outcome prior = (if ar_outcome prior = Refused then Refused else IdempotentReplay)"

section \<open>Requests\<close>

record ValidateRequest =
  vq_attempt :: u64
  vq_connectivity :: u64
  vq_authority :: AuthorityToken

record ReservationRequest =
  rsq_attempt :: u64
  rsq_connectivity :: u64
  rsq_authority :: AuthorityToken
  rsq_ttl_ticks :: u64

record ReservationRenewal =
  rnq_attempt :: u64
  rnq_reservation :: u64
  rnq_authority :: AuthorityToken
  rnq_extend_ticks :: u64

record ReleaseRequest =
  rlq_attempt :: u64
  rlq_reservation :: u64
  rlq_authority :: AuthorityToken
  rlq_reason :: string

record ActivationRequest =
  acq_attempt :: u64
  acq_connectivity :: u64
  acq_authority :: AuthorityToken

record CommitRequest =
  cmq_attempt :: u64
  cmq_connectivity :: u64
  cmq_authority :: AuthorityToken
  cmq_activation_digest :: Digest128

record WithdrawalRequest =
  wdq_attempt :: u64
  wdq_connectivity :: u64
  wdq_authority :: AuthorityToken
  wdq_reason :: string

record HealthReport =
  hrq_attempt :: u64
  hrq_connectivity :: u64
  hrq_authority :: AuthorityToken
  hrq_observed :: EvidenceState
  hrq_detail :: string

record RevalidationRequest =
  rvq_attempt :: u64
  rvq_connectivity :: u64
  rvq_authority :: AuthorityToken
  rvq_withdraw_on_failure :: bool

section \<open>Request digests\<close>

definition digest_head :: "string \<Rightarrow> u64 \<Rightarrow> string \<Rightarrow> u64 \<Rightarrow> AuthorityToken \<Rightarrow> CanonicalHasher" where
  "digest_head operation attempt key val authority =
     add_field ''authority'' (token_to_string authority) (add_field_u64 key val
       (add_field_u64 ''attempt'' attempt (add_field ''op'' operation hasher_init)))"

definition digest_validate_request :: "ValidateRequest \<Rightarrow> Digest128" where
  "digest_validate_request q =
     hasher_digest (digest_head ''validate'' (vq_attempt q) ''connectivity'' (vq_connectivity q) (vq_authority q))"

definition digest_reserve_request :: "ReservationRequest \<Rightarrow> Digest128" where
  "digest_reserve_request q =
     hasher_digest (add_field_u64 ''ttl'' (rsq_ttl_ticks q)
       (digest_head ''reserve'' (rsq_attempt q) ''connectivity'' (rsq_connectivity q) (rsq_authority q)))"

definition digest_renew_request :: "ReservationRenewal \<Rightarrow> Digest128" where
  "digest_renew_request q =
     hasher_digest (add_field_u64 ''extend'' (rnq_extend_ticks q)
       (digest_head ''renew_reservation'' (rnq_attempt q) ''reservation'' (rnq_reservation q) (rnq_authority q)))"

definition digest_release_request :: "ReleaseRequest \<Rightarrow> Digest128" where
  "digest_release_request q =
     hasher_digest (add_field ''reason'' (rlq_reason q)
       (digest_head ''release_reservation'' (rlq_attempt q) ''reservation'' (rlq_reservation q) (rlq_authority q)))"

definition digest_activation_request :: "ActivationRequest \<Rightarrow> Digest128" where
  "digest_activation_request q =
     hasher_digest (digest_head ''begin_activation'' (acq_attempt q) ''connectivity'' (acq_connectivity q)
       (acq_authority q))"

definition digest_commit_request :: "CommitRequest \<Rightarrow> Digest128" where
  "digest_commit_request q =
     hasher_digest (add_field ''activation'' (digest_to_string (cmq_activation_digest q))
       (digest_head ''commit_activation'' (cmq_attempt q) ''connectivity'' (cmq_connectivity q) (cmq_authority q)))"

definition digest_withdrawal_request :: "WithdrawalRequest \<Rightarrow> Digest128" where
  "digest_withdrawal_request q =
     hasher_digest (add_field ''reason'' (wdq_reason q)
       (digest_head ''withdraw'' (wdq_attempt q) ''connectivity'' (wdq_connectivity q) (wdq_authority q)))"

definition digest_health_request :: "HealthReport \<Rightarrow> Digest128" where
  "digest_health_request q =
     hasher_digest (add_field ''detail'' (hrq_detail q)
       (add_field ''observed'' (evidence_state_to_string (hrq_observed q))
       (digest_head ''health'' (hrq_attempt q) ''connectivity'' (hrq_connectivity q) (hrq_authority q))))"

definition digest_revalidation_request :: "RevalidationRequest \<Rightarrow> Digest128" where
  "digest_revalidation_request q =
     hasher_digest (add_field_u64 ''withdraw_on_failure'' (if rvq_withdraw_on_failure q then 1 else 0)
       (digest_head ''revalidate'' (rvq_attempt q) ''connectivity'' (rvq_connectivity q) (rvq_authority q)))"

definition activation_digest ::
  "u64 \<Rightarrow> u64 \<Rightarrow> u64 \<Rightarrow> u64 \<Rightarrow> Digest128 \<Rightarrow> EvidenceState \<Rightarrow> Digest128" where
  "activation_digest i gen attempt ep path aggregate =
     hasher_digest (add_field ''evidence'' (evidence_state_to_string aggregate)
       (add_field ''path'' (digest_to_string path) (add_field_u64 ''epoch'' ep
       (add_field_u64 ''attempt'' attempt (add_field_u64 ''generation'' gen
       (add_field_u64 ''connectivity'' i (add_field ''op'' ''activation'' hasher_init)))))))"

definition derive_reservation_id :: "u64 \<Rightarrow> u64 \<Rightarrow> u64 \<Rightarrow> u64" where
  "derive_reservation_id connectivity gen granted =
     derive_composite ''reservation''
       (hex_encode connectivity @ ''|'' @ to_decimal gen @ ''|'' @ to_decimal granted)"

end
