(* ===== verification/Intent.thy ===== *)
theory Intent
  imports Operations
begin

text \<open>
  Submission of intents and validation of connectivity objects (\<open>intent.hpp\<close>,
  \<open>fabric_connectivity.cpp\<close>). The planner (\<open>IPlannerPort\<close>) is an external component: the
  route it proposed is an argument.
\<close>

section \<open>Resolving the path of an intent\<close>

record RouteProposal =
  rp_resources :: "ResourceRef list"
  rp_origin :: string

text \<open>\<open>planner\<close> is \<open>None\<close> when no planner is attached. The proposal is described against the
  state \<open>F1\<close> the lock is taken in again, after the planner ran.\<close>

definition resolve_intent_path ::
  "RouteProposal result option \<Rightarrow> Fabric \<Rightarrow> Fabric \<Rightarrow> ConnectivityIntent \<Rightarrow> PathDescriptor result" where
  "resolve_intent_path planner F0 F1 it =
     (case resolve_declared_route_locked F0 it of
        Inr path \<Rightarrow> Inr path
      | Inl e \<Rightarrow>
          if closed F0 then Inl e
          else case planner of
            None \<Rightarrow> Inl e
          | Some (Inl refused) \<Rightarrow> Inl refused
          | Some (Inr proposal) \<Rightarrow>
             (case describe_route_locked F1 (rp_resources proposal) (in_channel it) (in_direction it)
                     (if rp_origin proposal = [] then ''planner'' else rp_origin proposal) of
                Inl e' \<Rightarrow> Inl e'
              | Inr path \<Rightarrow>
                  if seg_resource (hd (pd_segments path)) \<noteq> port_ref (in_source_port it) \<or>
                     seg_resource (last (pd_segments path)) \<noteq> port_ref (in_destination_port it)
                  then Inl InvalidArgument else Inr path))"

definition preview_intent ::
  "RouteProposal result option \<Rightarrow> Fabric \<Rightarrow> Fabric \<Rightarrow> ConnectivityIntent \<Rightarrow> CanonicalPath result" where
  "preview_intent planner F0 F1 it =
     (case resolve_intent_path planner F0 F1 it of
        Inl e \<Rightarrow> Inl e
      | Inr path \<Rightarrow> canonicalize_path path (limits F1))"

section \<open>Submission\<close>

datatype IntentOutcome = IntentAccepted | IntentDuplicate | IntentRefused

record IntentSubmission =
  is_outcome :: IntentOutcome
  is_refusal :: RefusalCode
  is_connectivity :: u64
  is_path_identity :: Digest128
  is_state :: ConnectivityState
  is_generation :: u64
  is_created :: bool

definition intent_refused :: "RefusalCode \<Rightarrow> IntentSubmission" where
  "intent_refused code =
     \<lparr>is_outcome = IntentRefused, is_refusal = code, is_connectivity = 0, is_path_identity = nil_digest,
      is_state = Proposed, is_generation = 0, is_created = False\<rparr>"

definition same_live_path :: "Digest128 \<Rightarrow> u64 \<times> ConnectivityRecord \<Rightarrow> bool" where
  "same_live_path identity e \<longleftrightarrow>
     cp_identity (cr_canonical (snd e)) = identity \<and> cr_state (snd e) \<noteq> Retired \<and> cr_state (snd e) \<noteq> SRefused"

definition proposed_record ::
  "Fabric \<Rightarrow> ConnectivityIntent \<Rightarrow> PathDescriptor \<Rightarrow> CanonicalPath \<Rightarrow> ConnectivityRecord" where
  "proposed_record F it path canonical =
     \<lparr>cr_id = derive_named ''connectivity'' (in_name it), cr_name = in_name it, cr_owner = in_owner it,
      cr_state = Proposed, cr_generation = 1, cr_path = path, cr_canonical = canonical,
      cr_requirements = in_requirements it, cr_reservation = 0, cr_has_reservation = False,
      cr_reservation_expiry = 0, cr_authority = nil_token, cr_authority_confirmed = False,
      cr_created_tick = tick F, cr_updated_tick = tick F, cr_activated_tick = 0, cr_retired_tick = 0,
      cr_last_refusal = RNone, cr_activation_digest = nil_digest, cr_activation_attempt = 0,
      cr_history = [\<lparr>tr_from = Proposed, tr_to = Proposed, tr_outcome = Applied, tr_refusal = RNone,
        tr_attempt = 0, tr_generation = 1, tr_epoch = epoch F, tr_tick = tick F\<rparr>],
      cr_transitions_dropped = 0, cr_attempt_log = []\<rparr>"

text \<open>The second critical section of \<open>submit_intent\<close>.\<close>

definition admit_intent ::
  "StoreIo \<Rightarrow> ConnectivityIntent \<Rightarrow> PathDescriptor \<Rightarrow> CanonicalPath \<Rightarrow> Fabric \<Rightarrow> IntentSubmission \<times> Fabric" where
  "admit_intent io it path canonical F =
     (if closed F then (intent_refused PersistenceFailure, F)
      else case find (same_live_path (cp_identity canonical)) (objects F) of
        Some (i, existing) \<Rightarrow>
          (\<lparr>is_outcome = IntentDuplicate, is_refusal = RNone, is_connectivity = i,
            is_path_identity = cp_identity canonical, is_state = cr_state existing,
            is_generation = cr_generation existing, is_created = False\<rparr>, F)
      | None \<Rightarrow>
          let i = derive_named ''connectivity'' (in_name it) in
          if map_of (objects F) i \<noteq> None then (intent_refused RIdentityCollision, F)
          else if length (objects F) \<ge> max_connectivity_objects (limits F) then
            (intent_refused RCapacityExceeded, F)
          else
            let (status, F1) = commit io RkConnectivityTransition
                  [ConnectivityItem (proposed_record F it path canonical),
                   RuntimeItem (runtime_state F (generation F + 1) (topology_generation F))] F
            in if status \<noteq> Ok then (intent_refused PersistenceFailure, F1)
               else (\<lparr>is_outcome = IntentAccepted, is_refusal = RNone, is_connectivity = i,
                      is_path_identity = cp_identity canonical, is_state = Proposed, is_generation = 1,
                      is_created = True\<rparr>, F1))"

text \<open>\<open>F0\<close> is the state the route is resolved in, \<open>F1\<close> the state a planner's proposal is
  described in, \<open>F\<close> the state the object is admitted to; other operations may run in between.\<close>

definition submit_intent ::
  "StoreIo \<Rightarrow> RouteProposal result option \<Rightarrow> Fabric \<Rightarrow> Fabric \<Rightarrow> ConnectivityIntent \<Rightarrow> Fabric \<Rightarrow>
   IntentSubmission \<times> Fabric" where
  "submit_intent io planner F0 F1 it F =
     (if \<not> names_valid (in_name it) (max_name_length (limits F)) then (intent_refused RNameInvalid, F)
      else if in_source_port it = in_destination_port it then (intent_refused RInvalidArgument, F)
      else case resolve_intent_path planner F0 F1 it of
        Inl e \<Rightarrow> (intent_refused (if e = NotFound then RouteUnresolved else RInvalidArgument), F)
      | Inr path \<Rightarrow>
         (case canonicalize_path path (limits F) of
            Inl e \<Rightarrow> (intent_refused RInvalidArgument, F)
          | Inr canonical \<Rightarrow> admit_intent io it path canonical F))"

section \<open>Validation\<close>

record ValidationResult =
  vr_outcome :: OutcomeCode
  vr_refusal :: RefusalCode
  vr_state :: ConnectivityState
  vr_generation :: u64
  vr_assessment :: EvidenceAssessment

definition blank_assessment :: EvidenceAssessment where
  "blank_assessment = \<lparr>as_aggregate = Unknown, as_advisory_aggregate = Known, as_evaluations = []\<rparr>"

definition blank_validation :: ValidationResult where
  "blank_validation = \<lparr>vr_outcome = Refused, vr_refusal = RNone, vr_state = Proposed, vr_generation = 0,
     vr_assessment = blank_assessment\<rparr>"

definition validation_refused :: "RefusalCode \<Rightarrow> ValidationResult \<Rightarrow> ValidationResult" where
  "validation_refused code r = r\<lparr>vr_outcome := Refused, vr_refusal := code\<rparr>"

definition topology_outdated :: "EvidenceAssessment \<Rightarrow> bool" where
  "topology_outdated a \<longleftrightarrow>
     (\<exists>e \<in> set (as_evaluations a). rq_blocking (ee_requirement e) \<and> ee_state e = Stale \<and>
        rq_kind (ee_requirement e) = TopologyPresence)"

definition unhealthy_record ::
  "Fabric \<Rightarrow> u64 \<Rightarrow> EvidenceAssessment \<Rightarrow> ConnectivityRecord \<Rightarrow> ConnectivityRecord" where
  "unhealthy_record F attempt a record =
     (let code = refusal_for_assessment a; noted = record\<lparr>cr_last_refusal := code\<rparr> in
      (if topology_outdated a then move_object F SRefused code attempt noted else noted)
        \<lparr>cr_updated_tick := tick F\<rparr>)"

definition decide_validate :: "Fabric \<Rightarrow> ValidateRequest \<Rightarrow> ValidationResult Decision" where
  "decide_validate F q =
     (let digest = digest_validate_request q;
          attempt = (\<lambda>outcome code. AttemptItem (attempt_of ''validate'' (vq_attempt q) digest outcome code
            (vq_connectivity q) 0 F))
      in
      if closed F then Refuse PersistenceFailure blank_validation
      else case find_attempt_locked F (vq_attempt q) of
        Some prior \<Rightarrow>
          if attempt_conflicts prior digest ''validate'' then Refuse RAttemptConflict blank_validation
          else
            let r = blank_validation\<lparr>vr_outcome := replay_outcome prior, vr_refusal := ar_refusal prior\<rparr> in
            Answer (case copy_object_locked F (vq_connectivity q) of
                None \<Rightarrow> r
              | Some ob \<Rightarrow> r\<lparr>vr_state := cr_state ob, vr_generation := cr_generation ob,
                  vr_assessment := assess_locked F (cr_path ob) (cr_requirements ob)\<rparr>)
      | None \<Rightarrow>
         (case copy_object_locked F (vq_connectivity q) of
            None \<Rightarrow> Refuse UnknownResource blank_validation
          | Some record \<Rightarrow>
             (let r = blank_validation\<lparr>vr_state := cr_state record, vr_generation := cr_generation record\<rparr> in
              if cr_state record = Retired then Refuse ObjectRetired r
              else if cr_state record = SRefused then
                Refuse (if cr_last_refusal record = RNone then ObjectRetired else cr_last_refusal record) r
              else if cr_state record \<noteq> Proposed then Answer (r\<lparr>vr_outcome := AlreadySatisfied\<rparr>)
              else
                let authority = require_authority_locked F (vq_authority q) (object_scope_locked F record) in
                if authority \<noteq> RNone then Refuse authority r
                else
                  let a = assess_locked F (cr_path record) (cr_requirements record);
                      r1 = r\<lparr>vr_assessment := a\<rparr>
                  in if \<not> healthy a then
                       let updated = unhealthy_record F (vq_attempt q) a record;
                           code = refusal_for_assessment a
                       in Perform RkConnectivityTransition [ConnectivityItem updated, attempt Refused code]
                            (if topology_outdated a then count_transition F else F)
                            (r1\<lparr>vr_outcome := Refused, vr_refusal := code, vr_state := cr_state updated,
                                vr_generation := cr_generation updated\<rparr>) r1
                     else
                       let updated = (move_object F Validated RNone (vq_attempt q) record)\<lparr>cr_last_refusal := RNone\<rparr>
                       in Perform RkConnectivityTransition [ConnectivityItem updated, attempt Applied RNone]
                            (count_transition F)
                            (r1\<lparr>vr_outcome := Applied, vr_state := cr_state updated,
                                vr_generation := cr_generation updated\<rparr>) r1)))"

definition validate :: "StoreIo \<Rightarrow> ValidateRequest \<Rightarrow> Fabric \<Rightarrow> ValidationResult \<times> Fabric" where
  "validate io q F =
     run_handler io validation_refused
       (\<lambda>code S. attempt_of ''validate'' (vq_attempt q) (digest_validate_request q) Refused code (vq_connectivity q) 0 S)
       (decide_validate F q) F"

end
