(* ===== verification/Reservation.thy ===== *)
theory Reservation
  imports Intent
begin

text \<open>
  Reserving the resources of a validated object for a bounded lease, renewing the lease and
  releasing it (\<open>reservation.hpp\<close>, \<open>fabric_connectivity.cpp\<close>).
\<close>

record ReservationResult =
  rr_outcome :: OutcomeCode
  rr_refusal :: RefusalCode
  rr_reservation :: ReservationView
  rr_claimed :: "ResourceRef list"
  rr_generation :: u64

record ReleaseResult =
  rl_outcome :: OutcomeCode
  rl_refusal :: RefusalCode
  rl_reservation :: u64
  rl_released :: "ResourceRef list"
  rl_released_tick :: u64

definition nil_reservation_view :: ReservationView where
  "nil_reservation_view = \<lparr>rv_id = 0, rv_connectivity = 0, rv_holder = '''', rv_epoch = 0,
     rv_incarnation = nil_incarnation, rv_granted_tick = 0, rv_expiry_tick = 0, rv_generation = 0,
     rv_resources = [], rv_consumed = False, rv_released = False\<rparr>"

definition blank_reservation :: ReservationResult where
  "blank_reservation = \<lparr>rr_outcome = Refused, rr_refusal = RNone, rr_reservation = nil_reservation_view,
     rr_claimed = [], rr_generation = 0\<rparr>"

definition reservation_refused :: "RefusalCode \<Rightarrow> ReservationResult \<Rightarrow> ReservationResult" where
  "reservation_refused code r = r\<lparr>rr_outcome := Refused, rr_refusal := code\<rparr>"

definition blank_release :: ReleaseResult where
  "blank_release = \<lparr>rl_outcome = Refused, rl_refusal = RNone, rl_reservation = 0, rl_released = [],
     rl_released_tick = 0\<rparr>"

definition release_refused :: "RefusalCode \<Rightarrow> ReleaseResult \<Rightarrow> ReleaseResult" where
  "release_refused code r = r\<lparr>rl_outcome := Refused, rl_refusal := code\<rparr>"

definition holder_text :: "AuthorityToken \<Rightarrow> string" where
  "holder_text t = hex_encode (tok_holder t)"

section \<open>Reserve\<close>

definition reservation_for :: "Fabric \<Rightarrow> ReservationRequest \<Rightarrow> ConnectivityRecord \<Rightarrow> ReservationView" where
  "reservation_for F q record =
     \<lparr>rv_id = derive_reservation_id (cr_id record) (cr_generation record + 1) (tick F),
      rv_connectivity = cr_id record, rv_holder = holder_text (rsq_authority q), rv_epoch = epoch F,
      rv_incarnation = incarnation F, rv_granted_tick = tick F, rv_expiry_tick = tick F + rsq_ttl_ticks q,
      rv_generation = 1, rv_resources = path_resources record, rv_consumed = False, rv_released = False\<rparr>"

definition reserved_record :: "Fabric \<Rightarrow> ReservationRequest \<Rightarrow> ConnectivityRecord \<Rightarrow> ConnectivityRecord" where
  "reserved_record F q record =
     (move_object F Reserved RNone (rsq_attempt q) record)
       \<lparr>cr_reservation := rv_id (reservation_for F q record), cr_has_reservation := True,
        cr_reservation_expiry := rv_expiry_tick (reservation_for F q record), cr_authority := rsq_authority q\<rparr>"

text \<open>The reservation a reserved object already holds, when it is live and the caller's.\<close>

definition held_reservation :: "Fabric \<Rightarrow> AuthorityToken \<Rightarrow> ConnectivityRecord \<Rightarrow> ReservationView option" where
  "held_reservation F token record =
     (if cr_state record = Reserved \<and> cr_has_reservation record then
        case map_of (reservations F) (cr_reservation record) of
          None \<Rightarrow> None
        | Some v \<Rightarrow> if live_at v (tick F) \<and> rv_holder v = holder_text token then Some v else None
      else None)"

definition decide_reserve :: "Fabric \<Rightarrow> ReservationRequest \<Rightarrow> ReservationResult Decision" where
  "decide_reserve F q =
     (let digest = digest_reserve_request q in
      if closed F then Refuse PersistenceFailure blank_reservation
      else if rsq_ttl_ticks q = 0 \<or> rsq_ttl_ticks q > max_lease_ticks F then
        Refuse RInvalidArgument blank_reservation
      else case find_attempt_locked F (rsq_attempt q) of
        Some prior \<Rightarrow>
          if attempt_conflicts prior digest ''reserve'' then Refuse RAttemptConflict blank_reservation
          else Answer (blank_reservation
            \<lparr>rr_outcome := replay_outcome prior, rr_refusal := ar_refusal prior,
             rr_reservation := (case map_of (reservations F) (ar_reservation prior) of
                 None \<Rightarrow> nil_reservation_view | Some v \<Rightarrow> v),
             rr_generation := (case copy_object_locked F (rsq_connectivity q) of
                 None \<Rightarrow> 0 | Some ob \<Rightarrow> cr_generation ob)\<rparr>)
      | None \<Rightarrow>
         (case copy_object_locked F (rsq_connectivity q) of
            None \<Rightarrow> Refuse UnknownResource blank_reservation
          | Some record \<Rightarrow>
             (case held_reservation F (rsq_authority q) record of
                Some v \<Rightarrow> Answer (blank_reservation\<lparr>rr_outcome := AlreadySatisfied, rr_reservation := v,
                            rr_generation := cr_generation record\<rparr>)
              | None \<Rightarrow>
                  if cr_state record \<noteq> Validated then Refuse RIllegalTransition blank_reservation
                  else
                    let authority = require_authority_locked F (rsq_authority q) (object_scope_locked F record);
                        a = assess_locked F (cr_path record) (cr_requirements record)
                    in if authority \<noteq> RNone then Refuse authority blank_reservation
                       else if \<not> healthy a then Refuse (refusal_for_assessment a) blank_reservation
                       else if check_claims_locked F (path_resources record) (pd_channel (cr_path record))
                                 (cr_id record) 0 \<noteq> NoConflict
                         then Refuse RConflictingClaim blank_reservation
                       else if length (reservations F) \<ge> max_reservations (limits F) then
                         Refuse RCapacityExceeded blank_reservation
                       else Perform RkReservationChanged
                         [ReservationItem (reservation_for F q record),
                          ConnectivityItem (reserved_record F q record),
                          AttemptItem (attempt_of ''reserve'' (rsq_attempt q) digest Applied RNone
                            (rsq_connectivity q) (rv_id (reservation_for F q record)) F)]
                         (count_transition F)
                         (blank_reservation\<lparr>rr_outcome := Applied, rr_reservation := reservation_for F q record,
                            rr_claimed := path_resources record,
                            rr_generation := cr_generation (reserved_record F q record)\<rparr>)
                         blank_reservation)))"

definition reserve :: "StoreIo \<Rightarrow> ReservationRequest \<Rightarrow> Fabric \<Rightarrow> ReservationResult \<times> Fabric" where
  "reserve io q F =
     run_handler io reservation_refused
       (\<lambda>code S. attempt_of ''reserve'' (rsq_attempt q) (digest_reserve_request q) Refused code (rsq_connectivity q) 0 S)
       (decide_reserve F q) F"

section \<open>Renew\<close>

definition renewed_view :: "Fabric \<Rightarrow> ReservationRenewal \<Rightarrow> ReservationView \<Rightarrow> ReservationView" where
  "renewed_view F q v =
     v\<lparr>rv_expiry_tick := tick F + rnq_extend_ticks q, rv_generation := rv_generation v + 1\<rparr>"

definition renewed_object :: "Fabric \<Rightarrow> ReservationRenewal \<Rightarrow> ReservationView \<Rightarrow> ConnectivityRecord \<Rightarrow> ConnectivityRecord" where
  "renewed_object F q v ob =
     ob\<lparr>cr_reservation_expiry := rv_expiry_tick (renewed_view F q v), cr_generation := cr_generation ob + 1,
        cr_updated_tick := tick F\<rparr>"

text \<open>The handler updates the stored object in place before it commits.\<close>

definition decide_renew_reservation :: "Fabric \<Rightarrow> ReservationRenewal \<Rightarrow> ReservationResult Decision" where
  "decide_renew_reservation F q =
     (let digest = digest_renew_request q in
      if closed F then Refuse PersistenceFailure blank_reservation
      else if rnq_extend_ticks q = 0 \<or> rnq_extend_ticks q > max_lease_ticks F then
        Refuse RInvalidArgument blank_reservation
      else case map_of (reservations F) (rnq_reservation q) of
        None \<Rightarrow> Refuse RReservationNotHeld blank_reservation
      | Some v \<Rightarrow>
         (case find_attempt_locked F (rnq_attempt q) of
            Some prior \<Rightarrow>
              if attempt_conflicts prior digest ''renew_reservation'' then Refuse RAttemptConflict blank_reservation
              else Answer (blank_reservation\<lparr>rr_outcome := replay_outcome prior, rr_refusal := ar_refusal prior,
                     rr_reservation := v\<rparr>)
          | None \<Rightarrow>
              if rv_released v then Refuse RReservationNotHeld blank_reservation
              else if rv_consumed v then Refuse RReservationNotHeld blank_reservation
              else if rv_holder v \<noteq> holder_text (rnq_authority q) then Refuse RReservationNotHeld blank_reservation
              else if \<not> live_at v (tick F) then Refuse RReservationExpired blank_reservation
              else case map_of (objects F) (rv_connectivity v) of
                None \<Rightarrow> Refuse RReservationNotHeld blank_reservation
              | Some ob \<Rightarrow>
                 (let authority = require_authority_locked F (rnq_authority q) (object_scope_locked F ob) in
                  if authority \<noteq> RNone then Refuse authority blank_reservation
                  else Perform RkReservationChanged
                    [ReservationItem (renewed_view F q v), ConnectivityItem (renewed_object F q v ob),
                     AttemptItem (attempt_of ''renew_reservation'' (rnq_attempt q) digest Applied RNone
                       (rv_connectivity v) (rnq_reservation q) F)]
                    (F\<lparr>objects := map_put (rv_connectivity v) (renewed_object F q v ob) (objects F)\<rparr>)
                    (blank_reservation\<lparr>rr_outcome := Applied, rr_reservation := renewed_view F q v\<rparr>)
                    blank_reservation)))"

definition renew_reservation :: "StoreIo \<Rightarrow> ReservationRenewal \<Rightarrow> Fabric \<Rightarrow> ReservationResult \<times> Fabric" where
  "renew_reservation io q F =
     run_handler io reservation_refused
       (\<lambda>code S. attempt_of ''renew_reservation'' (rnq_attempt q) (digest_renew_request q) Refused code 0
          (rnq_reservation q) S)
       (decide_renew_reservation F q) F"

section \<open>Release\<close>

definition released_view :: "ReservationView \<Rightarrow> ReservationView" where
  "released_view v = v\<lparr>rv_released := True, rv_generation := rv_generation v + 1\<rparr>"

definition unreserved_object :: "Fabric \<Rightarrow> ReleaseRequest \<Rightarrow> ConnectivityRecord \<Rightarrow> ConnectivityRecord" where
  "unreserved_object F q ob =
     (move_object F Validated RNone (rlq_attempt q) ob)
       \<lparr>cr_has_reservation := False, cr_reservation := 0, cr_reservation_expiry := 0\<rparr>"

definition decide_release_reservation :: "Fabric \<Rightarrow> ReleaseRequest \<Rightarrow> ReleaseResult Decision" where
  "decide_release_reservation F q =
     (let digest = digest_release_request q in
      if closed F then Refuse PersistenceFailure blank_release
      else case map_of (reservations F) (rlq_reservation q) of
        None \<Rightarrow> Refuse RReservationNotHeld blank_release
      | Some v \<Rightarrow>
         (case find_attempt_locked F (rlq_attempt q) of
            Some prior \<Rightarrow>
              if attempt_conflicts prior digest ''release_reservation'' then Refuse RAttemptConflict blank_release
              else Answer (blank_release\<lparr>rl_outcome := replay_outcome prior, rl_refusal := ar_refusal prior,
                     rl_reservation := rlq_reservation q\<rparr>)
          | None \<Rightarrow>
              if rv_released v then
                Answer (blank_release\<lparr>rl_outcome := AlreadySatisfied, rl_reservation := rlq_reservation q\<rparr>)
              else if rv_consumed v then Refuse RReservationNotHeld blank_release
              else if rv_holder v \<noteq> holder_text (rlq_authority q) then Refuse RReservationNotHeld blank_release
              else case map_of (objects F) (rv_connectivity v) of
                None \<Rightarrow> Refuse RReservationNotHeld blank_release
              | Some ob \<Rightarrow>
                 (let authority = require_authority_locked F (rlq_authority q) (object_scope_locked F ob) in
                  if authority \<noteq> RNone then Refuse authority blank_release
                  else Perform RkReservationChanged
                    ([ReservationItem (released_view v)] @
                     (if cr_state ob = Reserved then [ConnectivityItem (unreserved_object F q ob)] else []) @
                     [AttemptItem (attempt_of ''release_reservation'' (rlq_attempt q) digest Applied RNone
                        (rv_connectivity v) (rlq_reservation q) F)])
                    (if cr_state ob = Reserved then count_transition F else F)
                    (blank_release\<lparr>rl_outcome := Applied, rl_reservation := rlq_reservation q,
                       rl_released := rv_resources v, rl_released_tick := tick F\<rparr>)
                    blank_release)))"

definition release_reservation :: "StoreIo \<Rightarrow> ReleaseRequest \<Rightarrow> Fabric \<Rightarrow> ReleaseResult \<times> Fabric" where
  "release_reservation io q F =
     run_handler io release_refused
       (\<lambda>code S. attempt_of ''release_reservation'' (rlq_attempt q) (digest_release_request q) Refused code 0
          (rlq_reservation q) S)
       (decide_release_reservation F q) F"

end
