(* ===== verification/Activation.thy ===== *)
theory Activation
  imports Reservation
begin

text \<open>
  The commit boundary and what follows it: beginning and committing an activation, withdrawal,
  health reports and revalidation after a restart (\<open>activation.hpp\<close>, \<open>fabric_connectivity.cpp\<close>).
\<close>

record ActivationResult =
  av_outcome :: OutcomeCode
  av_refusal :: RefusalCode
  av_state :: ConnectivityState
  av_generation :: u64
  av_activation_digest :: Digest128
  av_activated_tick :: u64
  av_assessment :: EvidenceAssessment
  av_committed :: "ResourceRef list"

definition blank_activation :: ActivationResult where
  "blank_activation = \<lparr>av_outcome = Refused, av_refusal = RNone, av_state = Proposed, av_generation = 0,
     av_activation_digest = nil_digest, av_activated_tick = 0, av_assessment = blank_assessment,
     av_committed = []\<rparr>"

definition activation_refused :: "RefusalCode \<Rightarrow> ActivationResult \<Rightarrow> ActivationResult" where
  "activation_refused code r = r\<lparr>av_outcome := Refused, av_refusal := code\<rparr>"

section \<open>Begin\<close>

definition activating_record ::
  "Fabric \<Rightarrow> ActivationRequest \<Rightarrow> EvidenceAssessment \<Rightarrow> ConnectivityRecord \<Rightarrow> ConnectivityRecord" where
  "activating_record F q a record =
     (move_object F Activating RNone (acq_attempt q) record)
       \<lparr>cr_authority := acq_authority q, cr_activation_attempt := acq_attempt q,
        cr_activation_digest := activation_digest (cr_id record) (cr_generation record + 1) (acq_attempt q)
          (epoch F) (cp_identity (cr_canonical record)) (as_aggregate a)\<rparr>"

text \<open>The checks on the reservation of the object, in order.\<close>

definition reservation_refusal :: "Fabric \<Rightarrow> ConnectivityRecord \<Rightarrow> RefusalCode" where
  "reservation_refusal F record =
     (if \<not> cr_has_reservation record then RReservationNotHeld
      else case map_of (reservations F) (cr_reservation record) of
        None \<Rightarrow> RReservationNotHeld
      | Some v \<Rightarrow>
          if rv_released v \<or> rv_consumed v then RReservationNotHeld
          else if \<not> live_at v (tick F) then RReservationExpired
          else RNone)"

definition decide_begin_activation :: "Fabric \<Rightarrow> ActivationRequest \<Rightarrow> ActivationResult Decision" where
  "decide_begin_activation F q =
     (let digest = digest_activation_request q in
      if closed F then Refuse PersistenceFailure blank_activation
      else case find_attempt_locked F (acq_attempt q) of
        Some prior \<Rightarrow>
          if attempt_conflicts prior digest ''begin_activation'' then Refuse RAttemptConflict blank_activation
          else
            let r = blank_activation\<lparr>av_outcome := replay_outcome prior, av_refusal := ar_refusal prior\<rparr> in
            Answer (case copy_object_locked F (acq_connectivity q) of
                None \<Rightarrow> r
              | Some ob \<Rightarrow> r\<lparr>av_state := cr_state ob, av_generation := cr_generation ob,
                  av_activation_digest := cr_activation_digest ob\<rparr>)
      | None \<Rightarrow>
         (case copy_object_locked F (acq_connectivity q) of
            None \<Rightarrow> Refuse UnknownResource blank_activation
          | Some record \<Rightarrow>
             (let r = blank_activation\<lparr>av_state := cr_state record, av_generation := cr_generation record\<rparr> in
              if cr_state record \<noteq> Reserved then Refuse RIllegalTransition r
              else
                let authority = require_authority_locked F (acq_authority q) (object_scope_locked F record) in
                if authority \<noteq> RNone then Refuse authority r
                else if reservation_refusal F record \<noteq> RNone then Refuse (reservation_refusal F record) r
                else
                  let a = assess_locked F (cr_path record) (cr_requirements record);
                      r1 = r\<lparr>av_assessment := a\<rparr>
                  in if \<not> healthy a then Refuse (refusal_for_assessment a) r1
                     else if check_claims_locked F (path_resources record) (pd_channel (cr_path record))
                               (cr_id record) (cr_reservation record) \<noteq> NoConflict
                       then Refuse RConflictingClaim r1
                     else
                       let updated = activating_record F q a record in
                       Perform RkConnectivityTransition
                         [ConnectivityItem updated,
                          AttemptItem (attempt_of ''begin_activation'' (acq_attempt q) digest Applied RNone
                            (acq_connectivity q) (cr_reservation record) F)]
                         (count_transition F)
                         (r1\<lparr>av_outcome := Applied, av_state := cr_state updated,
                             av_generation := cr_generation updated,
                             av_activation_digest := cr_activation_digest updated\<rparr>) r1)))"

definition begin_activation :: "StoreIo \<Rightarrow> ActivationRequest \<Rightarrow> Fabric \<Rightarrow> ActivationResult \<times> Fabric" where
  "begin_activation io q F =
     run_handler io activation_refused
       (\<lambda>code S. attempt_of ''begin_activation'' (acq_attempt q) (digest_activation_request q) Refused code
          (acq_connectivity q) 0 S)
       (decide_begin_activation F q) F"

section \<open>Commit\<close>

definition active_record :: "Fabric \<Rightarrow> CommitRequest \<Rightarrow> ConnectivityRecord \<Rightarrow> ConnectivityRecord" where
  "active_record F q record =
     (move_object F Active RNone (cmq_attempt q) record)
       \<lparr>cr_activated_tick := tick F, cr_authority := cmq_authority q, cr_authority_confirmed := True,
        cr_activation_digest := nil_digest\<rparr>"

definition consumed_view :: "ReservationView \<Rightarrow> ReservationView" where
  "consumed_view v = v\<lparr>rv_consumed := True, rv_generation := rv_generation v + 1\<rparr>"

definition consume_items :: "Fabric \<Rightarrow> ConnectivityRecord \<Rightarrow> CommitItem list" where
  "consume_items F record =
     (if \<not> cr_has_reservation record then []
      else case map_of (reservations F) (cr_reservation record) of
             None \<Rightarrow> [] | Some v \<Rightarrow> [ReservationItem (consumed_view v)])"

definition decide_commit_activation :: "Fabric \<Rightarrow> CommitRequest \<Rightarrow> ActivationResult Decision" where
  "decide_commit_activation F q =
     (let digest = digest_commit_request q in
      if closed F then Refuse PersistenceFailure blank_activation
      else case find_attempt_locked F (cmq_attempt q) of
        Some prior \<Rightarrow>
          if attempt_conflicts prior digest ''commit_activation'' then Refuse RAttemptConflict blank_activation
          else Answer (blank_activation\<lparr>av_outcome := replay_outcome prior, av_refusal := ar_refusal prior\<rparr>)
      | None \<Rightarrow>
         (case copy_object_locked F (cmq_connectivity q) of
            None \<Rightarrow> Refuse UnknownResource blank_activation
          | Some record \<Rightarrow>
             (let r = blank_activation\<lparr>av_state := cr_state record, av_generation := cr_generation record\<rparr> in
              if cr_state record = Active \<or> cr_state record = Degraded then
                Answer (r\<lparr>av_outcome := AlreadySatisfied\<rparr>)
              else if cr_state record \<noteq> Activating then Refuse RIllegalTransition r
              else if cmq_activation_digest q \<noteq> cr_activation_digest record \<or>
                      cr_activation_digest record = nil_digest then Refuse RAttemptConflict r
              else
                let authority = require_authority_locked F (cmq_authority q) (object_scope_locked F record);
                    a = assess_locked F (cr_path record) (cr_requirements record);
                    r1 = r\<lparr>av_assessment := a\<rparr>
                in if authority \<noteq> RNone then Refuse authority r
                   else if \<not> healthy a then Refuse (refusal_for_assessment a) r1
                   else if check_claims_locked F (path_resources record) (pd_channel (cr_path record))
                             (cr_id record) (cr_reservation record) \<noteq> NoConflict
                     then Refuse RConflictingClaim r1
                   else
                     let updated = active_record F q record in
                     Perform RkConnectivityTransition
                       ([ConnectivityItem updated] @ consume_items F record @
                        [AttemptItem (attempt_of ''commit_activation'' (cmq_attempt q) digest Applied RNone
                           (cmq_connectivity q) (cr_reservation record) F)])
                       (count_transition F)
                       (r1\<lparr>av_outcome := Applied, av_state := cr_state updated,
                           av_generation := cr_generation updated,
                           av_activated_tick := cr_activated_tick updated,
                           av_committed := path_resources record\<rparr>) r1)))"

definition commit_activation :: "StoreIo \<Rightarrow> CommitRequest \<Rightarrow> Fabric \<Rightarrow> ActivationResult \<times> Fabric" where
  "commit_activation io q F =
     run_handler io activation_refused
       (\<lambda>code S. attempt_of ''commit_activation'' (cmq_attempt q) (digest_commit_request q) Refused code
          (cmq_connectivity q) 0 S)
       (decide_commit_activation F q) F"

section \<open>Withdraw\<close>

record WithdrawalResult =
  wr_outcome :: OutcomeCode
  wr_refusal :: RefusalCode
  wr_state :: ConnectivityState
  wr_generation :: u64
  wr_released :: "ResourceRef list"
  wr_terminal :: bool
  wr_retired_tick :: u64

definition blank_withdrawal :: WithdrawalResult where
  "blank_withdrawal = \<lparr>wr_outcome = Refused, wr_refusal = RNone, wr_state = Proposed, wr_generation = 0,
     wr_released = [], wr_terminal = False, wr_retired_tick = 0\<rparr>"

definition withdrawal_refused :: "RefusalCode \<Rightarrow> WithdrawalResult \<Rightarrow> WithdrawalResult" where
  "withdrawal_refused code r = r\<lparr>wr_outcome := Refused, wr_refusal := code\<rparr>"

definition withdrawn_record :: "Fabric \<Rightarrow> u64 \<Rightarrow> ConnectivityRecord \<Rightarrow> ConnectivityRecord" where
  "withdrawn_record F attempt record =
     (if cr_state record = Withdrawing
      then (move_object F Retired RNone attempt record)
             \<lparr>cr_retired_tick := tick F, cr_authority_confirmed := False\<rparr>
      else (move_object F Withdrawing RNone attempt record)
             \<lparr>cr_authority_confirmed := False, cr_activation_digest := nil_digest\<rparr>)"

definition withdraw_release_items :: "Fabric \<Rightarrow> ConnectivityRecord \<Rightarrow> CommitItem list" where
  "withdraw_release_items F record =
     (if \<not> cr_has_reservation record then []
      else case map_of (reservations F) (cr_reservation record) of
             None \<Rightarrow> []
           | Some v \<Rightarrow> if \<not> rv_released v \<and> \<not> rv_consumed v then [ReservationItem (released_view v)] else [])"

definition decide_withdraw :: "Fabric \<Rightarrow> WithdrawalRequest \<Rightarrow> WithdrawalResult Decision" where
  "decide_withdraw F q =
     (let digest = digest_withdrawal_request q in
      if closed F then Refuse PersistenceFailure blank_withdrawal
      else case find_attempt_locked F (wdq_attempt q) of
        Some prior \<Rightarrow>
          if attempt_conflicts prior digest ''withdraw'' then Refuse RAttemptConflict blank_withdrawal
          else
            let r = blank_withdrawal\<lparr>wr_outcome := replay_outcome prior, wr_refusal := ar_refusal prior\<rparr> in
            Answer (case copy_object_locked F (wdq_connectivity q) of
                None \<Rightarrow> r
              | Some ob \<Rightarrow> r\<lparr>wr_state := cr_state ob, wr_generation := cr_generation ob\<rparr>)
      | None \<Rightarrow>
         (case copy_object_locked F (wdq_connectivity q) of
            None \<Rightarrow> Refuse UnknownResource blank_withdrawal
          | Some record \<Rightarrow>
             (let r = blank_withdrawal\<lparr>wr_state := cr_state record, wr_generation := cr_generation record\<rparr> in
              if cr_state record = Retired then
                Answer (r\<lparr>wr_outcome := AlreadySatisfied, wr_terminal := True\<rparr>)
              else
                let authority = require_authority_locked F (wdq_authority q) (object_scope_locked F record) in
                if authority \<noteq> RNone then Refuse authority r
                else
                  let updated = withdrawn_record F (wdq_attempt q) record;
                      terminal = (cr_state record = Withdrawing)
                  in Perform RkConnectivityTransition
                       ([ConnectivityItem updated] @ withdraw_release_items F record @
                        [AttemptItem (attempt_of ''withdraw'' (wdq_attempt q) digest Applied RNone
                           (wdq_connectivity q) 0 F)])
                       (count_transition F)
                       (r\<lparr>wr_outcome := Applied, wr_state := cr_state updated,
                          wr_generation := cr_generation updated,
                          wr_released := (if terminal then [] else path_resources record),
                          wr_terminal := terminal, wr_retired_tick := cr_retired_tick updated\<rparr>)
                       (r\<lparr>wr_terminal := terminal\<rparr>))))"

definition withdraw :: "StoreIo \<Rightarrow> WithdrawalRequest \<Rightarrow> Fabric \<Rightarrow> WithdrawalResult \<times> Fabric" where
  "withdraw io q F =
     run_handler io withdrawal_refused
       (\<lambda>code S. attempt_of ''withdraw'' (wdq_attempt q) (digest_withdrawal_request q) Refused code
          (wdq_connectivity q) 0 S)
       (decide_withdraw F q) F"

section \<open>Health reports\<close>

record HealthResult =
  hr_outcome :: OutcomeCode
  hr_refusal :: RefusalCode
  hr_state :: ConnectivityState
  hr_generation :: u64

definition blank_health :: HealthResult where
  "blank_health = \<lparr>hr_outcome = Refused, hr_refusal = RNone, hr_state = Proposed, hr_generation = 0\<rparr>"

definition health_refused :: "RefusalCode \<Rightarrow> HealthResult \<Rightarrow> HealthResult" where
  "health_refused code r = r\<lparr>hr_outcome := Refused, hr_refusal := code\<rparr>"

definition decide_health ::
  "ConnectivityState \<Rightarrow> string \<Rightarrow> Fabric \<Rightarrow> HealthReport \<Rightarrow> HealthResult Decision" where
  "decide_health target operation F q =
     (let digest = digest_health_request q in
      if closed F then Refuse PersistenceFailure blank_health
      else case find_attempt_locked F (hrq_attempt q) of
        Some prior \<Rightarrow>
          if attempt_conflicts prior digest operation then Refuse RAttemptConflict blank_health
          else
            let r = blank_health\<lparr>hr_outcome := replay_outcome prior, hr_refusal := ar_refusal prior\<rparr> in
            Answer (case copy_object_locked F (hrq_connectivity q) of
                None \<Rightarrow> r
              | Some ob \<Rightarrow> r\<lparr>hr_state := cr_state ob, hr_generation := cr_generation ob\<rparr>)
      | None \<Rightarrow>
         (case copy_object_locked F (hrq_connectivity q) of
            None \<Rightarrow> Refuse UnknownResource blank_health
          | Some record \<Rightarrow>
             (let r = blank_health\<lparr>hr_state := cr_state record, hr_generation := cr_generation record\<rparr> in
              if cr_state record = target then Answer (r\<lparr>hr_outcome := AlreadySatisfied\<rparr>)
              else if \<not> is_committed_state (cr_state record) then Refuse ObjectNotActive r
              else
                let authority = require_authority_locked F (hrq_authority q) (object_scope_locked F record) in
                if authority \<noteq> RNone then Refuse authority r
                else
                  let updated = move_object F target RNone (hrq_attempt q) record in
                  Perform RkConnectivityTransition
                    [ConnectivityItem updated,
                     AttemptItem (attempt_of operation (hrq_attempt q) digest Applied RNone (hrq_connectivity q) 0 F)]
                    (count_transition F)
                    (r\<lparr>hr_outcome := Applied, hr_state := cr_state updated, hr_generation := cr_generation updated\<rparr>)
                    r)))"

definition apply_health ::
  "StoreIo \<Rightarrow> HealthReport \<Rightarrow> ConnectivityState \<Rightarrow> string \<Rightarrow> Fabric \<Rightarrow> HealthResult \<times> Fabric" where
  "apply_health io q target operation F =
     run_handler io health_refused
       (\<lambda>code S. attempt_of operation (hrq_attempt q) (digest_health_request q) Refused code (hrq_connectivity q) 0 S)
       (decide_health target operation F q) F"

definition report_degraded :: "StoreIo \<Rightarrow> HealthReport \<Rightarrow> Fabric \<Rightarrow> HealthResult \<times> Fabric" where
  "report_degraded io q F = apply_health io q Degraded ''report_degraded'' F"

definition report_failed :: "StoreIo \<Rightarrow> HealthReport \<Rightarrow> Fabric \<Rightarrow> HealthResult \<times> Fabric" where
  "report_failed io q F = apply_health io q Failed ''report_failed'' F"

section \<open>Revalidation\<close>

record RevalidationResult =
  rw_outcome :: OutcomeCode
  rw_refusal :: RefusalCode
  rw_state :: ConnectivityState
  rw_generation :: u64
  rw_assessment :: EvidenceAssessment
  rw_authority_confirmed :: bool

definition blank_revalidation :: RevalidationResult where
  "blank_revalidation = \<lparr>rw_outcome = Refused, rw_refusal = RNone, rw_state = Proposed, rw_generation = 0,
     rw_assessment = blank_assessment, rw_authority_confirmed = False\<rparr>"

definition revalidation_refused :: "RefusalCode \<Rightarrow> RevalidationResult \<Rightarrow> RevalidationResult" where
  "revalidation_refused code r = r\<lparr>rw_outcome := Refused, rw_refusal := code\<rparr>"

definition confirmed_here :: "Fabric \<Rightarrow> ConnectivityRecord \<Rightarrow> bool" where
  "confirmed_here F record \<longleftrightarrow>
     cr_authority_confirmed record \<and>
     boot_sequence (tok_incarnation (cr_authority record)) = boot_sequence (incarnation F)"

definition revalidation_withdrawn :: "Fabric \<Rightarrow> u64 \<Rightarrow> RefusalCode \<Rightarrow> ConnectivityRecord \<Rightarrow> ConnectivityRecord" where
  "revalidation_withdrawn F attempt code record =
     (move_object F Withdrawing code attempt record)\<lparr>cr_authority_confirmed := False, cr_last_refusal := code\<rparr>"

definition reconfirmed_record :: "Fabric \<Rightarrow> AuthorityToken \<Rightarrow> ConnectivityRecord \<Rightarrow> ConnectivityRecord" where
  "reconfirmed_record F token record =
     record\<lparr>cr_authority := token, cr_authority_confirmed := True, cr_generation := cr_generation record + 1,
            cr_updated_tick := tick F, cr_last_refusal := RNone\<rparr>"

definition decide_revalidate :: "Fabric \<Rightarrow> RevalidationRequest \<Rightarrow> RevalidationResult Decision" where
  "decide_revalidate F q =
     (let digest = digest_revalidation_request q;
          attempt = (\<lambda>code. AttemptItem (attempt_of ''revalidate'' (rvq_attempt q) digest Applied code
            (rvq_connectivity q) 0 F))
      in
      if closed F then Refuse PersistenceFailure blank_revalidation
      else case find_attempt_locked F (rvq_attempt q) of
        Some prior \<Rightarrow>
          if attempt_conflicts prior digest ''revalidate'' then Refuse RAttemptConflict blank_revalidation
          else
            let r = blank_revalidation\<lparr>rw_outcome := replay_outcome prior, rw_refusal := ar_refusal prior\<rparr> in
            Answer (case copy_object_locked F (rvq_connectivity q) of
                None \<Rightarrow> r
              | Some ob \<Rightarrow> r\<lparr>rw_state := cr_state ob, rw_generation := cr_generation ob,
                  rw_authority_confirmed := cr_authority_confirmed ob\<rparr>)
      | None \<Rightarrow>
         (case copy_object_locked F (rvq_connectivity q) of
            None \<Rightarrow> Refuse UnknownResource blank_revalidation
          | Some record \<Rightarrow>
             (let r = blank_revalidation\<lparr>rw_state := cr_state record, rw_generation := cr_generation record\<rparr> in
              if \<not> is_committed_state (cr_state record) then Refuse ObjectNotActive r
              else
                let authority = require_authority_locked F (rvq_authority q) (object_scope_locked F record);
                    a = assess_locked F (cr_path record) (cr_requirements record);
                    r1 = r\<lparr>rw_assessment := a\<rparr>
                in if authority \<noteq> RNone then Refuse authority r
                   else if confirmed_here F record then
                     Answer (r1\<lparr>rw_outcome := AlreadySatisfied, rw_authority_confirmed := True\<rparr>)
                   else if \<not> healthy a then
                     let code = refusal_for_assessment a;
                         updated = revalidation_withdrawn F (rvq_attempt q) code record
                     in if \<not> rvq_withdraw_on_failure q then Refuse code r1
                        else Perform RkConnectivityTransition [ConnectivityItem updated, attempt code]
                               (count_transition F)
                               (r1\<lparr>rw_outcome := Applied, rw_state := cr_state updated,
                                   rw_generation := cr_generation updated, rw_authority_confirmed := False\<rparr>) r1
                   else
                     let updated = reconfirmed_record F (rvq_authority q) record in
                     Perform RkConnectivityTransition [ConnectivityItem updated, attempt RNone] F
                       (r1\<lparr>rw_outcome := Applied, rw_state := cr_state updated,
                           rw_generation := cr_generation updated, rw_authority_confirmed := True\<rparr>) r1)))"

definition revalidate :: "StoreIo \<Rightarrow> RevalidationRequest \<Rightarrow> Fabric \<Rightarrow> RevalidationResult \<times> Fabric" where
  "revalidate io q F =
     run_handler io revalidation_refused
       (\<lambda>code S. attempt_of ''revalidate'' (rvq_attempt q) (digest_revalidation_request q) Refused code
          (rvq_connectivity q) 0 S)
       (decide_revalidate F q) F"

end
