(* ===== verification/Recovery.thy ===== *)
theory Recovery
  imports Activation
begin

text \<open>
  Construction of the runtime and recovery from the store (\<open>fabric_core.cpp\<close>: the
  constructor, \<open>open_and_recover\<close>, \<open>replay\<close>, \<open>mark_recovery_conservative\<close>).

  What \<open>Store::open\<close> found in the file is an argument: its status and the records it read,
  oldest first. The instance identity comes from operating-system entropy and is an argument.
\<close>

record FabricOptions =
  op_limits :: Limits
  op_max_lease_ticks :: u64
  op_policy :: EvidencePolicy
  op_memory_only :: bool
  op_initial_tick :: u64
  op_host_label :: string

text \<open>The constructor of \<open>OpticalFabric::Impl\<close>; the store opens later.\<close>

definition initial_fabric :: "FabricOptions \<Rightarrow> Fabric" where
  "initial_fabric op =
     \<lparr>limits = op_limits op, max_lease_ticks = op_max_lease_ticks op, policy = op_policy op,
      memory_only = op_memory_only op, store_open = False, closed = False, persistence_failed = False,
      incarnation = nil_incarnation, epoch = 0,
      tick = (if op_initial_tick op = 0 then 1 else op_initial_tick op),
      generation = 0, topology_generation = 0, resources = [], evidence = [], objects = [],
      reservations = [], grants = [], attempts = [], attempt_order = [], fences = [], diagnostics = [],
      diagnostics_dropped = 0, sources = [], claim_index = [], reservation_index = [],
      transitions_total = 0, journal = []\<rparr>"

section \<open>Replay\<close>

fun replay :: "(RecordKind \<times> CommitItem list) list \<Rightarrow> Fabric \<Rightarrow> Status \<times> Fabric" where
  "replay [] F = (Ok, F)"
| "replay ((kind, items) # records) F =
     (if \<not> bundle_decodable (limits F) items then (StoreCorrupt, F)
      else let (applied, F1) = apply_decoded items F in
           if applied \<noteq> Ok then (applied, F1) else replay records F1)"

section \<open>Conservative recovery\<close>

definition recovery_fence :: "Fabric \<Rightarrow> bool \<Rightarrow> u64 \<Rightarrow> GrantState \<Rightarrow> FenceRecord" where
  "recovery_fence F recovered i g =
     \<lparr>fr_grant = i, fr_holder = gv_holder (gs_view g), fr_fenced_epoch = gv_epoch (gs_view g),
      fr_fencing_epoch = epoch F, fr_fenced_boot = boot_sequence (gv_incarnation (gs_view g)),
      fr_fencing_boot = boot_sequence (incarnation F), fr_scope = gv_scope (gs_view g),
      fr_reason = (if recovered then SupersededByNewerIncarnation else ExplicitOperatorFence),
      fr_fenced_tick = tick F\<rparr>"

text \<open>Step 1: every live grant is fenced, in memory and in the bundle.\<close>

definition recovery_grant :: "Fabric \<Rightarrow> bool \<Rightarrow> u64 \<times> GrantState \<Rightarrow> u64 \<times> GrantState" where
  "recovery_grant F recovered e =
     (fst e, if grant_live (snd e) then fence_grant (recovery_fence F recovered (fst e) (snd e)) (snd e)
             else snd e)"

definition recovery_grant_items :: "Fabric \<Rightarrow> bool \<Rightarrow> CommitItem list" where
  "recovery_grant_items F recovered =
     concat (map (\<lambda>e. if grant_live (snd e)
        then [GrantItem (snd (recovery_grant F recovered e)),
              FenceItem (recovery_fence F recovered (fst e) (snd e))]
        else []) (grants F))"

definition recovery_fences :: "Fabric \<Rightarrow> bool \<Rightarrow> FenceRecord list" where
  "recovery_fences F recovered =
     foldl (\<lambda>fs f. push_bounded (max_fence_reasons_history (limits F)) f fs) (fences F)
       (map (\<lambda>e. recovery_fence F recovered (fst e) (snd e)) (filter (\<lambda>e. grant_live (snd e)) (grants F)))"

text \<open>Step 2: objects a previous incarnation left in flight. The histories are extended without
  the bound \<open>push_transition_locked\<close> keeps.\<close>

datatype RecoveryChange = Unchanged | IncompleteActivation | ResumedWithdrawal | AuthorityUnconfirmed

definition recovery_change :: "ConnectivityRecord \<Rightarrow> RecoveryChange" where
  "recovery_change record =
     (if cr_state record = Activating then IncompleteActivation
      else if cr_state record = Withdrawing then ResumedWithdrawal
      else if is_committed_state (cr_state record) \<and> cr_authority_confirmed record then AuthorityUnconfirmed
      else Unchanged)"

definition recovery_transition ::
  "Fabric \<Rightarrow> ConnectivityRecord \<Rightarrow> ConnectivityState \<Rightarrow> RefusalCode \<Rightarrow> TransitionRecord" where
  "recovery_transition F record to refusal =
     \<lparr>tr_from = cr_state record, tr_to = to, tr_outcome = Applied, tr_refusal = refusal, tr_attempt = 0,
      tr_generation = cr_generation record + 1, tr_epoch = epoch F, tr_tick = tick F\<rparr>"

definition recovered_record :: "Fabric \<Rightarrow> ConnectivityRecord \<Rightarrow> ConnectivityRecord" where
  "recovered_record F record =
     (case recovery_change record of
        Unchanged \<Rightarrow> record
      | IncompleteActivation \<Rightarrow>
          record\<lparr>cr_state := Failed, cr_generation := cr_generation record + 1,
            cr_activation_digest := nil_digest, cr_last_refusal := RMissingEvidence,
            cr_history := cr_history record @ [recovery_transition F record Failed RMissingEvidence]\<rparr>
      | ResumedWithdrawal \<Rightarrow>
          record\<lparr>cr_state := Retired, cr_generation := cr_generation record + 1, cr_retired_tick := tick F,
            cr_history := cr_history record @ [recovery_transition F record Retired RNone]\<rparr>
      | AuthorityUnconfirmed \<Rightarrow>
          record\<lparr>cr_authority_confirmed := False, cr_generation := cr_generation record + 1\<rparr>)"

definition recovery_object_items :: "Fabric \<Rightarrow> CommitItem list" where
  "recovery_object_items F =
     concat (map (\<lambda>(i, record). if recovery_change record = Unchanged then []
                                else [ConnectivityItem (recovered_record F record)]) (objects F))"

definition count_changes :: "RecoveryChange \<Rightarrow> Fabric \<Rightarrow> nat" where
  "count_changes c F = length (filter (\<lambda>(i, record). recovery_change record = c) (objects F))"

text \<open>The state the recovery bundle is committed in: the epoch advanced when an earlier
  incarnation left live grants, grants and objects already changed, indices rebuilt.\<close>

definition recovery_epoch :: "bool \<Rightarrow> Fabric \<Rightarrow> Fabric" where
  "recovery_epoch recovered F =
     F\<lparr>epoch := (if recovered \<and> (\<exists>e \<in> set (grants F). grant_live (snd e)) then epoch F + 1 else epoch F)\<rparr>"

definition recovery_prepared :: "bool \<Rightarrow> Fabric \<Rightarrow> Fabric" where
  "recovery_prepared recovered F =
     (let F1 = recovery_epoch recovered F in
      rebuild_indices
        (F1\<lparr>grants := map (recovery_grant F1 recovered) (grants F1),
            fences := recovery_fences F1 recovered,
            objects := map (\<lambda>(i, record). (i, recovered_record F1 record)) (objects F1),
            transitions_total := transitions_total F1 + count_changes IncompleteActivation F1 +
              count_changes ResumedWithdrawal F1\<rparr>))"

definition recovery_items :: "bool \<Rightarrow> Fabric \<Rightarrow> CommitItem list" where
  "recovery_items recovered F =
     (let F1 = recovery_epoch recovered F in
      recovery_grant_items F1 recovered @ recovery_object_items F1 @
      [RuntimeItem (runtime_state F1 (generation F1) (topology_generation F1))])"

definition mark_recovery_conservative :: "StoreIo \<Rightarrow> u64 \<Rightarrow> Fabric \<Rightarrow> Status \<times> Fabric" where
  "mark_recovery_conservative io previous F =
     (let recovered = (previous \<noteq> 0) in
      commit io RkRuntimeState (recovery_items recovered F) (recovery_prepared recovered F))"

section \<open>Opening\<close>

text \<open>The counters after replay: zero means never, so a counter that never advanced reads one.\<close>

definition start_counters :: "Fabric \<Rightarrow> Fabric" where
  "start_counters F =
     F\<lparr>generation := (if generation F = 0 then 1 else generation F),
       topology_generation := (if topology_generation F = 0 then 1 else topology_generation F),
       tick := (if tick F = 0 then 1 else tick F)\<rparr>"

definition next_incarnation :: "Digest128 \<Rightarrow> string \<Rightarrow> Fabric \<Rightarrow> Fabric" where
  "next_incarnation instance label F =
     F\<lparr>incarnation := \<lparr>boot_sequence = boot_sequence (incarnation F) + 1, inc_instance = instance,
                       inc_host_label = label\<rparr>\<rparr>"

definition open_and_recover ::
  "StoreIo \<Rightarrow> Digest128 \<Rightarrow> FabricOptions \<Rightarrow> Status \<Rightarrow> (RecordKind \<times> CommitItem list) list \<Rightarrow> Status \<times> Fabric" where
  "open_and_recover io instance op opened records =
     (let F0 = (initial_fabric op)\<lparr>store_open := True, journal := records\<rparr> in
      if opened \<noteq> Ok then (opened, initial_fabric op)
      else let (replayed, F1) = replay records F0 in
        if replayed \<noteq> Ok then (replayed, F1\<lparr>store_open := False\<rparr>)
        else
          let previous = boot_sequence (incarnation F1);
              F2 = next_incarnation instance (op_host_label op) (start_counters F1);
              (conservative, F3) = mark_recovery_conservative io previous F2
          in if conservative \<noteq> Ok then (conservative, F3\<lparr>store_open := False\<rparr>)
             else write_checkpoint io F3)"

text \<open>The constructor of \<open>OpticalFabric\<close>: invalid limits throw, a refused store leaves the
  runtime closed.\<close>

definition construct ::
  "StoreIo \<Rightarrow> Digest128 \<Rightarrow> FabricOptions \<Rightarrow> Status \<Rightarrow> (RecordKind \<times> CommitItem list) list \<Rightarrow> Fabric result" where
  "construct io instance op opened records =
     (let valid = limits_validate (op_limits op) in
      if valid \<noteq> Ok then Inl valid
      else let (status, F) = open_and_recover io instance op opened records in
           Inr (if status \<noteq> Ok then F\<lparr>closed := True\<rparr> else F))"

end
