(* ===== verification/Query.thy ===== *)
theory Query
  imports Recovery
begin

text \<open>
  Read-only answers of the runtime (\<open>fabric_query.cpp\<close>, \<open>report.hpp\<close>): views of objects, the
  authorized paths, the commit index, accounting, and the runtime's self-check.
\<close>

section \<open>Views\<close>

record ConnectivityView =
  cv_id :: u64
  cv_name :: string
  cv_state :: ConnectivityState
  cv_generation :: u64
  cv_path_identity :: Digest128
  cv_canonical_path :: string
  cv_owner :: string
  cv_reservation :: u64
  cv_has_reservation :: bool
  cv_reservation_expiry :: u64
  cv_authority :: AuthorityToken
  cv_authority_confirmed :: bool
  cv_created_tick :: u64
  cv_updated_tick :: u64
  cv_activated_tick :: u64
  cv_retired_tick :: u64
  cv_last_refusal :: RefusalCode
  cv_segments :: "PathSegment list"
  cv_direction :: Direction
  cv_channel :: u64

definition connectivity_view :: "Fabric \<Rightarrow> ConnectivityRecord \<Rightarrow> ConnectivityView" where
  "connectivity_view F r =
     \<lparr>cv_id = cr_id r, cv_name = cr_name r, cv_state = cr_state r, cv_generation = cr_generation r,
      cv_path_identity = cp_identity (cr_canonical r), cv_canonical_path = cp_canonical_text (cr_canonical r),
      cv_owner = cr_owner r, cv_reservation = cr_reservation r, cv_has_reservation = cr_has_reservation r,
      cv_reservation_expiry = cr_reservation_expiry r, cv_authority = cr_authority r,
      cv_authority_confirmed = confirmed_here F r, cv_created_tick = cr_created_tick r,
      cv_updated_tick = cr_updated_tick r, cv_activated_tick = cr_activated_tick r,
      cv_retired_tick = cr_retired_tick r, cv_last_refusal = cr_last_refusal r,
      cv_segments = pd_segments (cr_path r), cv_direction = pd_direction (cr_path r),
      cv_channel = pd_channel (cr_path r)\<rparr>"

definition describe_connectivity :: "Fabric \<Rightarrow> u64 \<Rightarrow> ConnectivityView result" where
  "describe_connectivity F i =
     (case map_of (objects F) i of None \<Rightarrow> Inl NotFound | Some r \<Rightarrow> Inr (connectivity_view F r))"

definition connectivity_objects :: "Fabric \<Rightarrow> ConnectivityView list" where
  "connectivity_objects F = map (\<lambda>(i, r). connectivity_view F r) (objects F)"

section \<open>Active paths\<close>

fun kind_for_evidence :: "EvidenceState \<Rightarrow> DiagnosticKind" where
  "kind_for_evidence Known = DMissingEvidence"
| "kind_for_evidence Incomplete = DMissingEvidence"
| "kind_for_evidence Stale = DStaleEvidence"
| "kind_for_evidence Unknown = DMissingEvidence"
| "kind_for_evidence EUnsupported = DUnsupportedEvidence"
| "kind_for_evidence Conflicting = DConflictingEvidence"
| "kind_for_evidence Invalid = DConflictingEvidence"

record ActivePathEntry =
  ap_connectivity :: u64
  ap_name :: string
  ap_state :: ConnectivityState
  ap_identity :: Digest128
  ap_canonical_path :: string
  ap_owner :: string
  ap_activated_tick :: u64
  ap_authority_confirmed :: bool
  ap_evidence_healthy :: bool
  ap_evidence_state :: EvidenceState
  ap_authorized :: bool

record ActivePathReport =
  pr_active :: "ActivePathEntry list"
  pr_authorized :: "u64 list"
  pr_diagnosed :: "(u64 \<times> DiagnosticKind) list"
  pr_authority :: "(AuthorityGrantView \<times> bool) list"
  pr_observed_tick :: u64
  pr_epoch :: u64
  pr_digest :: Digest128

text \<open>An entry has no \<open>unauthorized_reason\<close> exactly when the path is \<open>Active\<close>, confirmed by this
  incarnation and backed by healthy evidence.\<close>

definition active_entry :: "Fabric \<Rightarrow> u64 \<Rightarrow> ConnectivityRecord \<Rightarrow> ActivePathEntry" where
  "active_entry F i r =
     (let a = assess_locked F (cr_path r) (cr_requirements r) in
      \<lparr>ap_connectivity = i, ap_name = cr_name r, ap_state = cr_state r,
       ap_identity = cp_identity (cr_canonical r), ap_canonical_path = cp_canonical_text (cr_canonical r),
       ap_owner = cr_owner r, ap_activated_tick = cr_activated_tick r,
       ap_authority_confirmed = confirmed_here F r, ap_evidence_healthy = healthy a,
       ap_evidence_state = as_aggregate a,
       ap_authorized = (cr_state r = Active \<and> confirmed_here F r \<and> healthy a)\<rparr>)"

definition hash_active_entry :: "CanonicalHasher \<Rightarrow> ActivePathEntry \<Rightarrow> CanonicalHasher" where
  "hash_active_entry h e =
     add_field_u64 ''authorized'' (if ap_authorized e then 1 else 0)
       (add_field ''state'' (state_to_string (ap_state e)) (add_raw (digest_to_string (ap_identity e)) h))"

definition active_paths :: "Fabric \<Rightarrow> ActivePathReport" where
  "active_paths F =
     (let active = map (\<lambda>(i, r). active_entry F i r) (filter (\<lambda>(i, r). is_committed_state (cr_state r)) (objects F));
          refused = filter (\<lambda>e. \<not> ap_authorized e) active
      in \<lparr>pr_active = active,
          pr_authorized = map ap_connectivity (filter ap_authorized active),
          pr_diagnosed = map (\<lambda>e. (ap_connectivity e,
            if \<not> ap_authority_confirmed e then DUnconfirmedAuthority
            else kind_for_evidence (ap_evidence_state e))) refused,
          pr_authority = map (\<lambda>(i, g). (gs_view g, grant_view_current F g))
            (filter (\<lambda>(i, g). grant_live g) (grants F)),
          pr_observed_tick = tick F, pr_epoch = epoch F,
          pr_digest = hasher_digest (foldl hash_active_entry hasher_init active)\<rparr>)"

section \<open>Claims and accounting\<close>

record ClaimReport =
  cl_claims :: "ClaimEntry list"
  cl_exclusive_resources_claimed :: nat
  cl_channelized_resources_claimed :: nat
  cl_digest :: Digest128

definition claim_list :: "Fabric \<Rightarrow> ClaimEntry list" where
  "claim_list F = concat (map (\<lambda>(r, cs). map (\<lambda>c. c\<lparr>ce_resource := r\<rparr>) cs) (claim_index F))"

definition hash_claim :: "CanonicalHasher \<Rightarrow> ClaimEntry \<Rightarrow> CanonicalHasher" where
  "hash_claim h c =
     add_field ''channel'' (hex_encode (ce_channel c)) (add_field ''connectivity'' (hex_encode (ce_connectivity c))
       (add_field ''resource'' (ref_to_string (ce_resource c)) h))"

definition claims :: "Fabric \<Rightarrow> ClaimReport" where
  "claims F =
     (let cs = claim_list F in
      \<lparr>cl_claims = cs, cl_exclusive_resources_claimed = length (filter ce_exclusive cs),
       cl_channelized_resources_claimed = length (filter (\<lambda>c. \<not> ce_exclusive c) cs),
       cl_digest = hasher_digest (foldl hash_claim hasher_init cs)\<rparr>)"

definition indexed_claims :: "Fabric \<Rightarrow> nat" where
  "indexed_claims F = sum_list (map (\<lambda>(r, cs). length cs) (claim_index F))"

definition derived_claims :: "Fabric \<Rightarrow> nat" where
  "derived_claims F =
     sum_list (map (\<lambda>(i, r). if holds_committed_claims r then length (derive_claims (resources F) r) else 0) (objects F))"

record AccountingReport =
  ac_resources_registered :: nat
  ac_claims :: nat
  ac_reservations_live :: nat
  ac_reservations_consumed :: nat
  ac_reservations_released :: nat
  ac_objects_total :: nat
  ac_objects_by_state :: "nat list"
  ac_grants_live :: nat
  ac_grants_fenced :: nat
  ac_grants_released :: nat
  ac_evidence_records :: nat
  ac_evidence_stale :: nat
  ac_attempt_records :: nat
  ac_diagnostics :: nat
  ac_transitions :: nat
  ac_balanced :: bool

definition count_where :: "('v \<Rightarrow> bool) \<Rightarrow> ('k \<times> 'v) list \<Rightarrow> nat" where
  "count_where P m = length (filter (\<lambda>e. P (snd e)) m)"

definition accounting :: "Fabric \<Rightarrow> AccountingReport" where
  "accounting F =
     \<lparr>ac_resources_registered = length (resources F), ac_claims = indexed_claims F,
      ac_reservations_live = count_where (\<lambda>v. \<not> rv_released v \<and> \<not> rv_consumed v) (reservations F),
      ac_reservations_consumed = count_where (\<lambda>v. \<not> rv_released v \<and> rv_consumed v) (reservations F),
      ac_reservations_released = count_where rv_released (reservations F),
      ac_objects_total = length (objects F),
      ac_objects_by_state = map (\<lambda>s. count_where (\<lambda>r. cr_state r = s) (objects F)) all_connectivity_states,
      ac_grants_live = count_where (\<lambda>g. \<not> gv_released (gs_view g) \<and> \<not> gv_fenced (gs_view g)) (grants F),
      ac_grants_fenced = count_where (\<lambda>g. \<not> gv_released (gs_view g) \<and> gv_fenced (gs_view g)) (grants F),
      ac_grants_released = count_where (\<lambda>g. gv_released (gs_view g)) (grants F),
      ac_evidence_records = length (evidence F),
      ac_evidence_stale = count_where (\<lambda>r. boot_sequence (ingested_incarnation (ev_provenance r)) \<noteq>
        boot_sequence (incarnation F)) (evidence F),
      ac_attempt_records = length (attempts F),
      ac_diagnostics = length (diagnostics F) + diagnostics_dropped F,
      ac_transitions = sum_list (map (\<lambda>(i, r). length (cr_history r)) (objects F)),
      ac_balanced = (indexed_claims F = derived_claims F)\<rparr>"

section \<open>Self-check\<close>

definition claims_conflict :: "ClaimEntry \<Rightarrow> ClaimEntry \<Rightarrow> bool" where
  "claims_conflict a b \<longleftrightarrow> ce_exclusive a \<or> ce_exclusive b \<or> ce_channel a = ce_channel b"

fun pairwise_compatible :: "ClaimEntry list \<Rightarrow> bool" where
  "pairwise_compatible [] = True"
| "pairwise_compatible (c # cs) = (list_all (\<lambda>d. \<not> claims_conflict c d) cs \<and> pairwise_compatible cs)"

definition no_incompatible_claims :: "Fabric \<Rightarrow> bool" where
  "no_incompatible_claims F = list_all (\<lambda>(r, cs). pairwise_compatible cs) (claim_index F)"

definition commit_index_matches_objects :: "Fabric \<Rightarrow> bool" where
  "commit_index_matches_objects F \<longleftrightarrow> derived_claims F = indexed_claims F"

definition retired_objects_hold_no_claims :: "Fabric \<Rightarrow> bool" where
  "retired_objects_hold_no_claims F =
     list_all (\<lambda>(i, r). (cr_state r = Retired \<or> cr_state r = SRefused) \<longrightarrow>
        list_all (\<lambda>(res, cs). list_all (\<lambda>c. ce_connectivity c \<noteq> i) cs) (claim_index F)) (objects F)"

definition reservation_index_matches_records :: "Fabric \<Rightarrow> bool" where
  "reservation_index_matches_records F =
     list_all (\<lambda>(i, v). list_all (\<lambda>r. (i \<in> set (indexed (reservation_index F) r)) =
        (\<not> rv_released v \<and> \<not> rv_consumed v)) (rv_resources v)) (reservations F)"

definition committed_paths_are_well_formed :: "Fabric \<Rightarrow> bool" where
  "committed_paths_are_well_formed F =
     list_all (\<lambda>(i, r). (is_committed_state (cr_state r) \<or> cr_state r = Withdrawing) \<longrightarrow>
        list_all (\<lambda>s. find_resource F (seg_resource s) \<noteq> None) (pd_segments (cr_path r)) \<and>
        (cr_has_reservation r \<longrightarrow> map_of (reservations F) (cr_reservation r) \<noteq> None)) (objects F)"

definition at_most_one_current_grant_per_scope :: "Fabric \<Rightarrow> bool" where
  "at_most_one_current_grant_per_scope F =
     list_all (\<lambda>(i, g). grant_live g \<longrightarrow>
       list_all (\<lambda>(j, h). j \<noteq> i \<longrightarrow> grant_live h \<longrightarrow>
         \<not> (overlaps (gv_scope (gs_view g)) (gv_scope (gs_view h)) \<and>
            gv_epoch (gs_view g) \<noteq> gv_epoch (gs_view h))) (grants F)) (grants F)"

definition authority_confirmation_is_incarnation_bound :: "Fabric \<Rightarrow> bool" where
  "authority_confirmation_is_incarnation_bound F =
     list_all (\<lambda>(i, r). \<not> (cr_authority_confirmed r \<and> \<not> token_is_nil (cr_authority r) \<and>
        boot_sequence (tok_incarnation (cr_authority r)) \<noteq> boot_sequence (incarnation F))) (objects F)"

definition evidence_identities_are_derived :: "Fabric \<Rightarrow> bool" where
  "evidence_identities_are_derived F =
     list_all (\<lambda>(i, r). derive_evidence_id r = i \<and> find_resource F (ev_subject r) \<noteq> None) (evidence F)"

definition counters_are_consistent :: "Fabric \<Rightarrow> bool" where
  "counters_are_consistent F \<longleftrightarrow> topology_generation F \<le> generation F \<and> 0 < generation F"

definition pending_activations_are_bound_to_a_digest :: "Fabric \<Rightarrow> bool" where
  "pending_activations_are_bound_to_a_digest F =
     list_all (\<lambda>(i, r). (cr_state r = Activating) \<longleftrightarrow> cr_activation_digest r \<noteq> nil_digest) (objects F)"

definition reservation_windows_are_well_formed :: "Fabric \<Rightarrow> bool" where
  "reservation_windows_are_well_formed F =
     list_all (\<lambda>(i, v). rv_granted_tick v < rv_expiry_tick v \<and> rv_resources v \<noteq> []) (reservations F)"

definition bounded_histories_stay_bounded :: "Fabric \<Rightarrow> bool" where
  "bounded_histories_stay_bounded F \<longleftrightarrow>
     length (attempts F) \<le> max_attempt_history_total (limits F) \<and>
     length (diagnostics F) \<le> max_diagnostics (limits F) \<and>
     length (fences F) \<le> max_fence_reasons_history (limits F) \<and>
     list_all (\<lambda>(i, r). length (cr_history r) \<le> max_attempt_history_per_object (limits F) \<and>
        length (cr_attempt_log r) \<le> max_attempt_history_per_object (limits F)) (objects F)"

text \<open>\<open>verify_invariants\<close>: the twelve checks in the order the source records them.\<close>

definition verify_invariants :: "Fabric \<Rightarrow> bool list" where
  "verify_invariants F =
     [no_incompatible_claims F, commit_index_matches_objects F, retired_objects_hold_no_claims F,
      reservation_index_matches_records F, committed_paths_are_well_formed F,
      at_most_one_current_grant_per_scope F, authority_confirmation_is_incarnation_bound F,
      evidence_identities_are_derived F, counters_are_consistent F,
      pending_activations_are_bound_to_a_digest F, reservation_windows_are_well_formed F,
      bounded_histories_stay_bounded F]"

definition all_hold :: "bool list \<Rightarrow> bool" where
  "all_hold checks = list_all (\<lambda>holds. holds) checks"

definition failures :: "bool list \<Rightarrow> nat" where
  "failures checks = length (filter (\<lambda>holds. \<not> holds) checks)"

end
