(* ===== verification/CommitLaws.thy ===== *)
theory CommitLaws
  imports Query
begin

text \<open>
  The contract of the commit path, once for every invariant. A client names a property of the
  runtime (\<open>inv\<close>) and when an item may be applied without breaking it (\<open>ok\<close>); what the locale
  gives back is that no commit, whatever the store does and however far it gets, and no handler
  whose decision stays within \<open>ok\<close>, breaks the property. The component theories interpret it
  for the invariants of claims, grants, evidence, confirmations and histories.
\<close>

section \<open>Items one after the other\<close>

fun all_ok :: "(CommitItem \<Rightarrow> Fabric \<Rightarrow> bool) \<Rightarrow> CommitItem list \<Rightarrow> Fabric \<Rightarrow> bool" where
  "all_ok ok [] F = True"
| "all_ok ok (i # is) F = (ok i F \<and> all_ok ok is (snd (apply_item i F)))"

lemma all_ok_append:
  "all_ok ok (is @ js) F \<longleftrightarrow> all_ok ok is F \<and> all_ok ok js (foldl (\<lambda>S i. snd (apply_item i S)) F is)"
  by (induction "is" arbitrary: F) auto

lemma apply_item_journal:
  "apply_item i (F\<lparr>journal := j\<rparr>) = (fst (apply_item i F), (snd (apply_item i F))\<lparr>journal := j\<rparr>)"
  by (cases i) (auto simp: rebuild_indices_def store_attempt_def Let_def split: option.splits)

lemma apply_decoded_journal:
  "apply_decoded items (F\<lparr>journal := j\<rparr>) =
     (fst (apply_decoded items F), (snd (apply_decoded items F))\<lparr>journal := j\<rparr>)"
  by (induction items arbitrary: F) (simp_all add: apply_item_journal case_prod_beta Let_def)

lemma store_append_journal:
  obtains j where "snd (store_append io kind items F) = F\<lparr>journal := j\<rparr>"
    "j = journal F \<or> j = journal F @ [(kind, items)]"
proof (cases "store_active F \<and> io_append io \<in> {IoDone, IoDoneReportedFailed}")
  case True
  then have "snd (store_append io kind items F) = F\<lparr>journal := journal F @ [(kind, items)]\<rparr>"
    by (auto simp: store_append_def)
  then show ?thesis using that by blast
next
  case False
  then have "snd (store_append io kind items F) = F\<lparr>journal := journal F\<rparr>"
    by (cases "io_append io") (auto simp: store_append_def)
  then show ?thesis using that by blast
qed

section \<open>Outcomes of a commit\<close>

lemma write_checkpoint_simps:
  "\<not> store_active F \<Longrightarrow> write_checkpoint io F = (Ok, F)"
  "store_active F \<Longrightarrow> io_rewrite io = IoDone \<Longrightarrow>
     write_checkpoint io F = (Ok, F\<lparr>journal := [(RkCheckpoint, checkpoint_items F)]\<rparr>)"
  "store_active F \<Longrightarrow> io_rewrite io = IoTooLarge \<Longrightarrow>
     write_checkpoint io F = (CapacityExceeded, F\<lparr>persistence_failed := True\<rparr>)"
  "store_active F \<Longrightarrow> io_rewrite io = IoNothing \<Longrightarrow>
     write_checkpoint io F = (StoreIo, F\<lparr>persistence_failed := True\<rparr>)"
  "store_active F \<Longrightarrow> io_rewrite io = IoDoneReportedFailed \<Longrightarrow>
     write_checkpoint io F =
       (StoreIo, F\<lparr>journal := [(RkCheckpoint, checkpoint_items F)], persistence_failed := True\<rparr>)"
  by (simp_all add: write_checkpoint_def Let_def)

lemma write_checkpoint_outcome:
  obtains (kept) "fst (write_checkpoint io F) = Ok" "snd (write_checkpoint io F) = F"
  | (rewritten) j where "fst (write_checkpoint io F) = Ok" "snd (write_checkpoint io F) = F\<lparr>journal := j\<rparr>"
  | (refused) "fst (write_checkpoint io F) \<noteq> Ok" "snd (write_checkpoint io F) = F\<lparr>persistence_failed := True\<rparr>"
  | (reported) j where "fst (write_checkpoint io F) \<noteq> Ok"
      "snd (write_checkpoint io F) = F\<lparr>journal := j, persistence_failed := True\<rparr>"
proof (cases "store_active F")
  case False
  note eq = write_checkpoint_simps(1) [OF False]
  show ?thesis by (rule kept) (simp_all only: eq fst_conv snd_conv)
next
  case True
  show ?thesis
  proof (cases "io_rewrite io")
    case IoDone
    note eq = write_checkpoint_simps(2) [OF True IoDone]
    show ?thesis by (rule rewritten) (simp_all only: eq fst_conv snd_conv)
  next
    case IoTooLarge
    note eq = write_checkpoint_simps(3) [OF True IoTooLarge]
    show ?thesis by (rule refused) (simp_all only: eq fst_conv snd_conv ErrorCode.simps not_False_eq_True)
  next
    case IoNothing
    note eq = write_checkpoint_simps(4) [OF True IoNothing]
    show ?thesis by (rule refused) (simp_all only: eq fst_conv snd_conv ErrorCode.simps not_False_eq_True)
  next
    case IoDoneReportedFailed
    note eq = write_checkpoint_simps(5) [OF True IoDoneReportedFailed]
    show ?thesis by (rule reported) (simp_all only: eq fst_conv snd_conv ErrorCode.simps not_False_eq_True)
  qed
qed

lemma write_checkpoint_failed:
  "fst (write_checkpoint io F) \<noteq> Ok \<Longrightarrow> persistence_failed (snd (write_checkpoint io F))"
  by (rule write_checkpoint_outcome [of io F]) simp_all

lemma write_checkpoint_Ok:
  assumes "fst (write_checkpoint io F) = Ok"
  obtains j where "snd (write_checkpoint io F) = F\<lparr>journal := j\<rparr>"
proof (cases rule: write_checkpoint_outcome [of io F])
  case kept
  have "F\<lparr>journal := journal F\<rparr> = F" by simp
  with kept(2) have "snd (write_checkpoint io F) = F\<lparr>journal := journal F\<rparr>" by (rule back_subst [OF _ sym])
  then show ?thesis by (rule that)
next
  case (rewritten j)
  then show ?thesis using that by blast
next
  case refused
  with assms show ?thesis by blast
next
  case (reported j)
  with assms show ?thesis by blast
qed

lemma commit_Ok:
  assumes "fst (commit io kind items F) = Ok"
  shows "\<not> persistence_failed F" "bundle_decodable (limits F) items" "fst (apply_decoded items F) = Ok"
    "\<exists>j. snd (commit io kind items F) = (snd (apply_decoded items F))\<lparr>journal := j\<rparr>"
proof -
  obtain j where j: "snd (store_append io kind items F) = F\<lparr>journal := j\<rparr>"
    using store_append_journal by metis
  show pf: "\<not> persistence_failed F" and bd: "bundle_decodable (limits F) items"
    using assms by (auto simp: commit_def split: if_splits)
  show ap: "fst (apply_decoded items F) = Ok"
    using assms pf bd j
    by (auto simp: commit_def Let_def case_prod_beta apply_decoded_journal split: if_splits)
  have "snd (commit io kind items F) = (let F2 = (snd (apply_decoded items F))\<lparr>journal := j\<rparr> in
      if io_compact io then snd (write_checkpoint io F2) else F2)"
    using assms pf bd ap j
    by (auto simp: commit_def Let_def case_prod_beta apply_decoded_journal split: if_splits)
  moreover have "io_compact io \<Longrightarrow>
      \<exists>j'. snd (write_checkpoint io ((snd (apply_decoded items F))\<lparr>journal := j\<rparr>)) =
        (snd (apply_decoded items F))\<lparr>journal := j'\<rparr>"
    by (rule write_checkpoint_Ok [of io "(snd (apply_decoded items F))\<lparr>journal := j\<rparr>"])
      (use assms pf bd ap j in
        \<open>auto simp: commit_def Let_def case_prod_beta apply_decoded_journal split: if_splits\<close>)
  ultimately show "\<exists>j. snd (commit io kind items F) = (snd (apply_decoded items F))\<lparr>journal := j\<rparr>"
    by (auto simp: Let_def)
qed

lemma commit_failed:
  "fst (commit io kind items F) \<noteq> Ok \<Longrightarrow> persistence_failed (snd (commit io kind items F))"
  by (auto simp: commit_def Let_def case_prod_beta note_diagnostic_def write_checkpoint_failed)

lemma commit_blocked [simp]: "persistence_failed F \<Longrightarrow> commit io kind items F = (StoreIo, F)"
  by (simp add: commit_def)

section \<open>The contract\<close>

locale commit_invariant =
  fixes inv :: "Fabric \<Rightarrow> bool" and ok :: "CommitItem \<Rightarrow> Fabric \<Rightarrow> bool"
  assumes apply_inv: "inv F \<Longrightarrow> ok i F \<Longrightarrow> inv (snd (apply_item i F))"
    and journal_inv [simp]: "inv (F\<lparr>journal := j\<rparr>) = inv F"
    and failed_inv [simp]: "inv (F\<lparr>persistence_failed := b\<rparr>) = inv F"
    and diagnostic_inv: "inv F \<Longrightarrow> inv (note_diagnostic d F)"
    and attempt_ok [simp]: "ok (AttemptItem r) F"
begin

lemma apply_decoded_inv: "inv F \<Longrightarrow> all_ok ok items F \<Longrightarrow> inv (snd (apply_decoded items F))"
  by (induction items arbitrary: F) (auto simp: Let_def case_prod_beta apply_inv)

lemma write_checkpoint_inv: "inv F \<Longrightarrow> inv (snd (write_checkpoint io F))"
  by (rule write_checkpoint_outcome [of io F]) simp_all

lemma commit_inv:
  assumes "inv F" "all_ok ok items F"
  shows "inv (snd (commit io kind items F))"
proof -
  obtain j where j: "snd (store_append io kind items F) = F\<lparr>journal := j\<rparr>"
    using store_append_journal by metis
  have "inv ((snd (apply_decoded items F))\<lparr>journal := j\<rparr>)"
    using apply_decoded_inv [OF assms] by simp
  moreover have "inv (note_diagnostic d (F\<lparr>journal := j, persistence_failed := True\<rparr>))" for d
    using assms(1) by (intro diagnostic_inv) simp
  ultimately show ?thesis
    using assms(1) j
    by (auto simp: commit_def Let_def case_prod_beta apply_decoded_journal write_checkpoint_inv)
qed

lemma record_attempt_inv: "inv F \<Longrightarrow> inv (record_attempt_locked io r F)"
  by (simp add: record_attempt_locked_def commit_inv)

lemma run_handler_inv:
  assumes "inv F"
    and "\<And>kind items G r b. decision = Perform kind items G r b \<Longrightarrow> inv G \<and> all_ok ok items G"
  shows "inv (snd (run_handler io refused attempt decision F))"
proof (cases decision)
  case (Perform kind items G r b)
  then have "inv (snd (commit io kind items G))" using assms(2) commit_inv by blast
  then show ?thesis
    using Perform by (simp add: run_handler_def Let_def case_prod_beta record_attempt_inv)
qed (simp_all add: run_handler_def assms(1) record_attempt_inv)

end

section \<open>Handlers\<close>

lemma run_handler_Applied:
  assumes "run_handler io refused attempt decision F = (r, F')"
  obtains (answer) "decision = Answer r" "F' = F"
  | (refuse) code b where "decision = Refuse code b" "r = refused code b"
      "F' = record_attempt_locked io (attempt code F) F"
  | (failed) kind items G g b where "decision = Perform kind items G g b" "r = refused PersistenceFailure b"
      "fst (commit io kind items G) \<noteq> Ok" "F' = snd (commit io kind items G)"
  | (performed) kind items G b where "decision = Perform kind items G r b"
      "fst (commit io kind items G) = Ok" "F' = snd (commit io kind items G)"
proof (cases decision)
  case (Perform kind items G g b)
  show ?thesis
  proof (cases "fst (commit io kind items G) = Ok")
    case True
    then show ?thesis using assms Perform performed
      by (auto simp: run_handler_def Let_def case_prod_beta)
  next
    case False
    then have "persistence_failed (snd (commit io kind items G))" by (rule commit_failed)
    with False show ?thesis using assms Perform failed
      by (auto simp: run_handler_def Let_def case_prod_beta record_attempt_locked_def)
  qed
qed (use assms answer refuse in \<open>auto simp: run_handler_def\<close>)

end
