(* ===== verification/Claims.thy ===== *)
theory Claims
  imports CommitLaws
begin

text \<open>
  Safety of resource claims. The invariant says that the stored objects name registered
  resources in canonical form, that the two derived indices are exactly what rebuilding them
  would give, and that no two objects hold incompatible claims. It is an interpretation of
  \<open>commit_invariant\<close>, so it survives every commit, complete, partial or refused.
\<close>

section \<open>Frames of single items\<close>

lemma apply_item_limits [simp, fabric_frame]: "limits (snd (apply_item i F)) = limits F"
  by (cases i) (auto simp: store_attempt_def Let_def split: option.splits)

lemma apply_reservation_frame [simp, fabric_frame]:
  "objects (snd (apply_item (ReservationItem v) F)) = objects F"
  "resources (snd (apply_item (ReservationItem v) F)) = resources F"
  by (auto split: option.splits)

lemma apply_resource_frame [simp, fabric_frame]:
  "objects (snd (apply_item (ResourceItem s) F)) = objects F"
  by (auto split: option.splits)

lemma apply_connectivity_frame [simp, fabric_frame]:
  "reservations (snd (apply_item (ConnectivityItem r) F)) = reservations F"
  "resources (snd (apply_item (ConnectivityItem r) F)) = resources F"
  by (auto split: option.splits)

lemma store_attempt_frame [simp, fabric_frame]:
  "resources (store_attempt r F) = resources F" "objects (store_attempt r F) = objects F"
  "reservations (store_attempt r F) = reservations F" "grants (store_attempt r F) = grants F"
  "evidence (store_attempt r F) = evidence F" "claim_index (store_attempt r F) = claim_index F"
  "reservation_index (store_attempt r F) = reservation_index F" "limits (store_attempt r F) = limits F"
  "incarnation (store_attempt r F) = incarnation F" "epoch (store_attempt r F) = epoch F"
  "tick (store_attempt r F) = tick F" "generation (store_attempt r F) = generation F"
  "topology_generation (store_attempt r F) = topology_generation F" "fences (store_attempt r F) = fences F"
  "diagnostics (store_attempt r F) = diagnostics F" "journal (store_attempt r F) = journal F"
  by (simp_all add: store_attempt_def Let_def)

lemma note_diagnostic_frame [simp, fabric_frame]:
  "resources (note_diagnostic d F) = resources F" "objects (note_diagnostic d F) = objects F"
  "reservations (note_diagnostic d F) = reservations F" "grants (note_diagnostic d F) = grants F"
  "evidence (note_diagnostic d F) = evidence F" "claim_index (note_diagnostic d F) = claim_index F"
  "reservation_index (note_diagnostic d F) = reservation_index F" "limits (note_diagnostic d F) = limits F"
  "incarnation (note_diagnostic d F) = incarnation F" "epoch (note_diagnostic d F) = epoch F"
  "attempts (note_diagnostic d F) = attempts F" "attempt_order (note_diagnostic d F) = attempt_order F"
  "fences (note_diagnostic d F) = fences F" "tick (note_diagnostic d F) = tick F"
  "generation (note_diagnostic d F) = generation F"
  "topology_generation (note_diagnostic d F) = topology_generation F"
  by (simp_all add: note_diagnostic_def Let_def)

lemma count_transition_frame [simp, fabric_frame]:
  "resources (count_transition F) = resources F" "objects (count_transition F) = objects F"
  "reservations (count_transition F) = reservations F" "grants (count_transition F) = grants F"
  "evidence (count_transition F) = evidence F" "claim_index (count_transition F) = claim_index F"
  "reservation_index (count_transition F) = reservation_index F" "limits (count_transition F) = limits F"
  "incarnation (count_transition F) = incarnation F" "epoch (count_transition F) = epoch F"
  "tick (count_transition F) = tick F" "generation (count_transition F) = generation F"
  "topology_generation (count_transition F) = topology_generation F"
  "attempts (count_transition F) = attempts F" "attempt_order (count_transition F) = attempt_order F"
  "fences (count_transition F) = fences F" "diagnostics (count_transition F) = diagnostics F"
  "journal (count_transition F) = journal F" "closed (count_transition F) = closed F"
  "persistence_failed (count_transition F) = persistence_failed F"
  by (simp_all add: count_transition_def)

section \<open>The invariant\<close>

definition registered_path :: "Fabric \<Rightarrow> ConnectivityRecord \<Rightarrow> bool" where
  "registered_path F r \<longleftrightarrow> (\<forall>res \<in> set (path_resources r). map_of (resources F) res \<noteq> None)"

definition canonical_record :: "Fabric \<Rightarrow> ConnectivityRecord \<Rightarrow> bool" where
  "canonical_record F r \<longleftrightarrow> canonicalize_path (cr_path r) (limits F) = Inr (cr_canonical r)"

definition activated_states :: "ConnectivityState set" where
  "activated_states = {Active, Degraded, Failed, Withdrawing, Retired}"

definition activation_recorded :: "ConnectivityRecord \<Rightarrow> bool" where
  "activation_recorded r \<longleftrightarrow> (cr_activated_tick r \<noteq> 0 \<longrightarrow> cr_state r \<in> activated_states)"

definition compatible_records ::
  "(ResourceRef, ResourceState) omap \<Rightarrow> ConnectivityRecord \<Rightarrow> ConnectivityRecord \<Rightarrow> bool" where
  "compatible_records rs a b \<longleftrightarrow>
     (\<forall>res \<in> set (path_resources a) \<inter> set (path_resources b).
        \<not> resource_exclusive rs res \<and> pd_channel (cr_path a) \<noteq> pd_channel (cr_path b))"

definition compatible :: "Fabric \<Rightarrow> bool" where
  "compatible F \<longleftrightarrow>
     (\<forall>i j a b. map_of (objects F) i = Some a \<longrightarrow> map_of (objects F) j = Some b \<longrightarrow> i \<noteq> j \<longrightarrow>
        holds_committed_claims a \<longrightarrow> holds_committed_claims b \<longrightarrow> compatible_records (resources F) a b)"

definition sound_object :: "Fabric \<Rightarrow> u64 \<Rightarrow> ConnectivityRecord \<Rightarrow> bool" where
  "sound_object F i r \<longleftrightarrow>
     cr_id r = i \<and> registered_path F r \<and> canonical_record F r \<and> activation_recorded r"

definition claims_core :: "Fabric \<Rightarrow> bool" where
  "claims_core F \<longleftrightarrow>
     ordered_keys (resources F) \<and> ordered_keys (objects F) \<and> ordered_keys (reservations F) \<and>
     (\<forall>k s. map_of (resources F) k = Some s \<longrightarrow> rs_resource s = k) \<and>
     (\<forall>i r. map_of (objects F) i = Some r \<longrightarrow> sound_object F i r) \<and>
     (\<forall>i v. map_of (reservations F) i = Some v \<longrightarrow> rv_id v = i) \<and> compatible F"

definition indices_current :: "Fabric \<Rightarrow> bool" where
  "indices_current F \<longleftrightarrow>
     claim_index F = claim_index (rebuild_indices F) \<and>
     reservation_index F = reservation_index (rebuild_indices F)"

definition claims_inv :: "Fabric \<Rightarrow> bool" where
  "claims_inv F \<longleftrightarrow> claims_core F \<and> indices_current F"

definition claims_free_of :: "Fabric \<Rightarrow> ConnectivityRecord \<Rightarrow> bool" where
  "claims_free_of F r \<longleftrightarrow>
     (\<forall>j b. map_of (objects F) j = Some b \<longrightarrow> j \<noteq> cr_id r \<longrightarrow> holds_committed_claims b \<longrightarrow>
        compatible_records (resources F) r b)"

fun claims_ok :: "CommitItem \<Rightarrow> Fabric \<Rightarrow> bool" where
  "claims_ok (ResourceItem s) F =
     (case map_of (resources F) (rs_resource s) of None \<Rightarrow> True | Some s0 \<Rightarrow> rs_sharing s0 = rs_sharing s)"
| "claims_ok (ConnectivityItem r) F =
     (registered_path F r \<and> activation_recorded r \<and> (holds_committed_claims r \<longrightarrow> claims_free_of F r))"
| "claims_ok _ F = True"

section \<open>Each item keeps it\<close>

lemma compatible_records_sym: "compatible_records rs a b \<longleftrightarrow> compatible_records rs b a"
  by (auto simp: compatible_records_def)

lemma rebuild_indices_idem:
  "claim_index (rebuild_indices (rebuild_indices F)) = claim_index (rebuild_indices F)"
  "reservation_index (rebuild_indices (rebuild_indices F)) = reservation_index (rebuild_indices F)"
  by (simp_all add: rebuild_indices_def)

lemma claims_inv_rebuild: "claims_core F \<Longrightarrow> claims_inv (rebuild_indices F)"
  by (simp add: claims_inv_def indices_current_def rebuild_indices_idem claims_core_def sound_object_def
      compatible_def registered_path_def canonical_record_def)

lemma reload_connectivity_Some:
  assumes "reload_connectivity lim r = Some r'"
  obtains c where "canonicalize_path (cr_path r) lim = Inr c"
    "r' = r\<lparr>cr_canonical := c, cr_authority := reload_token (cr_authority r)\<rparr>"
    "cp_identity c = cp_identity (cr_canonical r)"
    "length (cr_history r) \<le> max_attempt_history_per_object lim"
    "length (cr_attempt_log r) \<le> max_attempt_history_per_object lim"
  using assms by (auto simp: reload_connectivity_def Let_def split: if_splits sum.splits)

lemma holds_committed_claims_cong:
  "cr_activated_tick a = cr_activated_tick b \<Longrightarrow> cr_state a = cr_state b \<Longrightarrow>
   holds_committed_claims a = holds_committed_claims b"
  by (simp add: holds_committed_claims_def)

lemma claims_core_put_object:
  assumes "claims_core F" and "sound_object F i r"
    and "holds_committed_claims r \<Longrightarrow> claims_free_of F r"
  shows "claims_core (F\<lparr>transitions_total := n, objects := map_put i r (objects F)\<rparr>)"
proof -
  have i: "cr_id r = i" using assms(2) by (simp add: sound_object_def)
  have "compatible (F\<lparr>transitions_total := n, objects := map_put i r (objects F)\<rparr>)"
    using assms(1,3) i
    by (auto simp: compatible_def claims_core_def claims_free_of_def compatible_records_sym)
  then show ?thesis
    using assms(1,2)
    by (auto simp: claims_core_def sound_object_def registered_path_def canonical_record_def)
qed

lemma claims_connectivity:
  assumes "claims_inv F" and "claims_ok (ConnectivityItem r) F"
  shows "claims_inv (snd (apply_item (ConnectivityItem r) F))"
proof (cases "reload_connectivity (limits F) r")
  case None
  then show ?thesis using assms(1) by simp
next
  case (Some r')
  then obtain c where c: "canonicalize_path (cr_path r) (limits F) = Inr c"
    and r': "r' = r\<lparr>cr_canonical := c, cr_authority := reload_token (cr_authority r)\<rparr>"
    by (rule reload_connectivity_Some)
  have paths: "path_resources r' = path_resources r" "cr_path r' = cr_path r" "cr_id r' = cr_id r"
    by (simp_all add: r' path_resources_def)
  have sound: "sound_object F (cr_id r') r'"
    using assms(2) c
    by (simp add: sound_object_def r' registered_path_def path_resources_def canonical_record_def
        activation_recorded_def)
  have "holds_committed_claims r' = holds_committed_claims r"
    by (simp add: r' holds_committed_claims_def)
  moreover have "claims_free_of F r' = claims_free_of F r"
    by (simp only: claims_free_of_def compatible_records_def paths)
  ultimately have "holds_committed_claims r' \<Longrightarrow> claims_free_of F r'"
    using assms(2) by simp
  from claims_inv_rebuild [OF claims_core_put_object [OF _ sound this]] assms(1)
  show ?thesis using Some by (simp add: claims_inv_def)
qed

lemma claims_reservation:
  assumes "claims_inv F"
  shows "claims_inv (snd (apply_item (ReservationItem v) F))"
proof (cases "reload_reservation v")
  case None
  then show ?thesis using assms by simp
next
  case (Some v')
  have "claims_core (F\<lparr>reservations := map_put (rv_id v') v' (reservations F)\<rparr>)"
    using assms
    by (auto simp: claims_inv_def claims_core_def sound_object_def registered_path_def canonical_record_def
        compatible_def)
  from claims_inv_rebuild [OF this] show ?thesis using Some by simp
qed

text \<open>Registering a resource cannot change what an object claims: its resources are registered
  already and their sharing mode stays.\<close>

lemma resource_exclusive_put:
  assumes "map_of rs (rs_resource s) = None \<or> (\<exists>s0. map_of rs (rs_resource s) = Some s0 \<and> rs_sharing s0 = rs_sharing s)"
    and "map_of rs res \<noteq> None"
  shows "resource_exclusive (map_put (rs_resource s) s rs) res = resource_exclusive rs res"
  using assms by (auto simp: resource_exclusive_def split: option.splits)

lemma derive_claims_cong:
  assumes "\<And>res. res \<in> set (path_resources r) \<Longrightarrow> resource_exclusive rs res = resource_exclusive rs' res"
  shows "derive_claims rs r = derive_claims rs' r"
  using assms by (simp add: derive_claims_def path_resources_def)

lemma committed_claims_cong:
  assumes "\<And>i r. (i, r) \<in> set objs \<Longrightarrow> holds_committed_claims r \<Longrightarrow> derive_claims rs r = derive_claims rs' r"
  shows "committed_claims rs objs = committed_claims rs' objs"
proof -
  have "map (\<lambda>(i, r). if holds_committed_claims r then derive_claims rs r else []) objs =
      map (\<lambda>(i, r). if holds_committed_claims r then derive_claims rs' r else []) objs"
    using assms by (intro map_cong) auto
  then show ?thesis by (simp only: committed_claims_def)
qed

lemma claims_put_resource:
  assumes "claims_inv F" and "claims_ok (ResourceItem s) F"
  shows "claims_inv (F\<lparr>resources := map_put (rs_resource s) s (resources F)\<rparr>)"
proof -
  let ?rs = "map_put (rs_resource s) s (resources F)"
  have core: "claims_core F" and current: "indices_current F" using assms(1) by (simp_all add: claims_inv_def)
  have excl: "resource_exclusive ?rs res = resource_exclusive (resources F) res"
    if "map_of (resources F) res \<noteq> None" for res
    using assms(2) that by (intro resource_exclusive_put) (auto split: option.splits)
  have reg: "map_of (resources F) res \<noteq> None"
    if "map_of (objects F) i = Some r" "res \<in> set (path_resources r)" for i r res
    using core that by (auto simp: claims_core_def sound_object_def registered_path_def)
  have claims: "committed_claims ?rs (objects F) = committed_claims (resources F) (objects F)"
  proof (intro committed_claims_cong derive_claims_cong)
    fix i r res
    assume "(i, r) \<in> set (objects F)" and res: "res \<in> set (path_resources r)"
    then have "map_of (objects F) i = Some r"
      using core by (simp add: claims_core_def ordered_entry_iff)
    from excl [OF reg [OF this res]]
    show "resource_exclusive ?rs res = resource_exclusive (resources F) res" .
  qed
  have "compatible (F\<lparr>resources := ?rs\<rparr>)"
    unfolding compatible_def
  proof (intro allI impI)
    fix i j a b
    assume objs: "map_of (objects (F\<lparr>resources := ?rs\<rparr>)) i = Some a"
      "map_of (objects (F\<lparr>resources := ?rs\<rparr>)) j = Some b"
      and rest: "i \<noteq> j" "holds_committed_claims a" "holds_committed_claims b"
    then have "compatible_records (resources F) a b"
      using core by (simp add: claims_core_def compatible_def)
    moreover have "resource_exclusive ?rs res = resource_exclusive (resources F) res"
      if "res \<in> set (path_resources a)" for res
      using excl reg objs that by simp
    ultimately show "compatible_records (resources (F\<lparr>resources := ?rs\<rparr>)) a b"
      by (simp add: compatible_records_def)
  qed
  then have "claims_core (F\<lparr>resources := ?rs\<rparr>)"
    using core by (auto simp: claims_core_def sound_object_def registered_path_def canonical_record_def)
  moreover have "indices_current (F\<lparr>resources := ?rs\<rparr>)"
    using current claims by (simp add: indices_current_def rebuild_indices_def)
  ultimately show ?thesis by (simp add: claims_inv_def)
qed

lemma claims_resource:
  assumes "claims_inv F" and "claims_ok (ResourceItem s) F"
  shows "claims_inv (snd (apply_item (ResourceItem s) F))"
proof (cases "reload_resource s")
  case None
  then show ?thesis using assms(1) by simp
next
  case (Some s')
  then have "s' = s" by (auto simp: reload_resource_def split: if_splits)
  then show ?thesis using claims_put_resource [OF assms] Some by simp
qed

lemma claims_inv_cong:
  assumes "resources G = resources F" "objects G = objects F" "reservations G = reservations F"
    "claim_index G = claim_index F" "reservation_index G = reservation_index F" "limits G = limits F"
  shows "claims_inv G = claims_inv F"
  by (simp add: claims_inv_def claims_core_def indices_current_def rebuild_indices_def compatible_def
      sound_object_def registered_path_def canonical_record_def assms)

lemma claims_reset: "claims_inv (snd (apply_item ResetItem F))"
  by (simp add: claims_inv_def claims_core_def indices_current_def rebuild_indices_def compatible_def
      committed_claims_def reserved_resources_def build_index_def)

lemma claims_apply:
  assumes "claims_inv F" and "claims_ok i F"
  shows "claims_inv (snd (apply_item i F))"
proof (cases i)
  case ResetItem
  then show ?thesis by (simp only: claims_reset)
next
  case (ResourceItem s)
  then show ?thesis using claims_resource assms by blast
next
  case (ConnectivityItem r)
  then show ?thesis using claims_connectivity assms by blast
next
  case (ReservationItem v)
  then show ?thesis using claims_reservation assms by blast
next
  case (EvidenceItem r)
  have "claims_inv (snd (apply_item i F)) = claims_inv F"
    by (rule claims_inv_cong) (simp_all add: EvidenceItem split: option.splits)
  then show ?thesis using assms(1) by blast
next
  case (AttemptItem r)
  have "claims_inv (snd (apply_item i F)) = claims_inv F"
    by (rule claims_inv_cong) (simp_all add: AttemptItem split: option.splits)
  then show ?thesis using assms(1) by blast
next
  case (RuntimeItem s)
  have "claims_inv (snd (apply_item i F)) = claims_inv F"
    by (rule claims_inv_cong) (simp_all add: RuntimeItem)
  then show ?thesis using assms(1) by blast
next
  case (GrantItem g)
  have "claims_inv (snd (apply_item i F)) = claims_inv F"
    by (rule claims_inv_cong) (simp_all add: GrantItem Let_def)
  then show ?thesis using assms(1) by blast
next
  case (FenceItem f)
  have "claims_inv (snd (apply_item i F)) = claims_inv F"
    by (rule claims_inv_cong) (simp_all add: FenceItem)
  then show ?thesis using assms(1) by blast
qed

interpretation claims: commit_invariant claims_inv claims_ok
proof
  fix F :: Fabric and i j b d r
  show "claims_inv F \<Longrightarrow> claims_ok i F \<Longrightarrow> claims_inv (snd (apply_item i F))" by (rule claims_apply)
  show "claims_inv (F\<lparr>journal := j\<rparr>) = claims_inv F" by (rule claims_inv_cong) simp_all
  show "claims_inv (F\<lparr>persistence_failed := b\<rparr>) = claims_inv F" by (rule claims_inv_cong) simp_all
  have "claims_inv (note_diagnostic d F) = claims_inv F" by (rule claims_inv_cong) simp_all
  then show "claims_inv F \<Longrightarrow> claims_inv (note_diagnostic d F)" by blast
  show "claims_ok (AttemptItem r) F" by simp
qed

end
