(* ===== verification/Decisions.thy ===== *)
theory Decisions
  imports Claims
begin

text \<open>
  When a handler commits, and what it commits: one elimination rule per handler, giving every
  guard the handler passed and the bundle it built. The invariants and the functional
  properties of the handlers rest on these rules.
\<close>

lemma move_object_simps [simp]:
  "cr_path (move_object F to code a r) = cr_path r" "cr_id (move_object F to code a r) = cr_id r"
  "cr_activated_tick (move_object F to code a r) = cr_activated_tick r"
  "cr_state (move_object F to code a r) = to" "cr_canonical (move_object F to code a r) = cr_canonical r"
  "cr_generation (move_object F to code a r) = cr_generation r + 1"
  "cr_authority (move_object F to code a r) = cr_authority r"
  "cr_authority_confirmed (move_object F to code a r) = cr_authority_confirmed r"
  "cr_activation_digest (move_object F to code a r) = cr_activation_digest r"
  "cr_has_reservation (move_object F to code a r) = cr_has_reservation r"
  "cr_reservation (move_object F to code a r) = cr_reservation r"
  "cr_requirements (move_object F to code a r) = cr_requirements r"
  "cr_attempt_log (move_object F to code a r) = cr_attempt_log r"
  "cr_last_refusal (move_object F to code a r) = cr_last_refusal r"
  "path_resources (move_object F to code a r) = path_resources r"
  by (simp_all add: move_object_def push_transition_locked_def Let_def path_resources_def)

lemma move_object_history:
  "cr_history (move_object F to code a r) =
     push_bounded (max_attempt_history_per_object (limits F)) (transition_of F r to Applied code a) (cr_history r)"
  by (simp add: move_object_def push_transition_locked_def Let_def)

lemma decide_validate_Perform:
  assumes "decide_validate F q = Perform kind items G r b"
  obtains rec updated outcome code where
    "\<not> closed F" "map_of (attempts F) (vq_attempt q) = None"
    "map_of (objects F) (vq_connectivity q) = Some rec" "cr_state rec = Proposed"
    "require_authority_locked F (vq_authority q) (object_scope_locked F rec) = RNone"
    "items = [ConnectivityItem updated, AttemptItem (attempt_of ''validate'' (vq_attempt q)
       (digest_validate_request q) outcome code (vq_connectivity q) 0 F)]"
    "G = F \<or> G = count_transition F" "vr_outcome r = outcome" "vr_state r = cr_state updated"
    "if healthy (assess_locked F (cr_path rec) (cr_requirements rec))
     then updated = (move_object F Validated RNone (vq_attempt q) rec)\<lparr>cr_last_refusal := RNone\<rparr> \<and>
       outcome = Applied \<and> code = RNone
     else updated = unhealthy_record F (vq_attempt q) (assess_locked F (cr_path rec) (cr_requirements rec)) rec \<and>
       outcome = Refused \<and> code = refusal_for_assessment (assess_locked F (cr_path rec) (cr_requirements rec))"
  using assms
  by (auto simp: decide_validate_def Let_def find_attempt_locked_def copy_object_locked_def
      split: if_splits option.splits)

lemma decide_reserve_Perform:
  assumes "decide_reserve F q = Perform kind items G r b"
  obtains rec where
    "\<not> closed F" "map_of (attempts F) (rsq_attempt q) = None"
    "rsq_ttl_ticks q \<noteq> 0" "rsq_ttl_ticks q \<le> max_lease_ticks F"
    "map_of (objects F) (rsq_connectivity q) = Some rec" "cr_state rec = Validated"
    "require_authority_locked F (rsq_authority q) (object_scope_locked F rec) = RNone"
    "healthy (assess_locked F (cr_path rec) (cr_requirements rec))"
    "check_claims_locked F (path_resources rec) (pd_channel (cr_path rec)) (cr_id rec) 0 = NoConflict"
    "length (reservations F) < max_reservations (limits F)"
    "items = [ReservationItem (reservation_for F q rec), ConnectivityItem (reserved_record F q rec),
       AttemptItem (attempt_of ''reserve'' (rsq_attempt q) (digest_reserve_request q) Applied RNone
         (rsq_connectivity q) (rv_id (reservation_for F q rec)) F)]"
    "G = count_transition F" "rr_outcome r = Applied" "rr_reservation r = reservation_for F q rec"
    "rr_claimed r = path_resources rec"
  using assms
  by (auto simp: decide_reserve_def Let_def find_attempt_locked_def copy_object_locked_def not_le not_less
      split: if_splits option.splits)

lemma decide_renew_Perform:
  assumes "decide_renew_reservation F q = Perform kind items G r b"
  obtains v ob where
    "\<not> closed F" "map_of (attempts F) (rnq_attempt q) = None"
    "rnq_extend_ticks q \<noteq> 0" "rnq_extend_ticks q \<le> max_lease_ticks F"
    "map_of (reservations F) (rnq_reservation q) = Some v" "\<not> rv_consumed v" "live_at v (tick F)"
    "rv_holder v = holder_text (rnq_authority q)"
    "map_of (objects F) (rv_connectivity v) = Some ob"
    "require_authority_locked F (rnq_authority q) (object_scope_locked F ob) = RNone"
    "items = [ReservationItem (renewed_view F q v), ConnectivityItem (renewed_object F q v ob),
       AttemptItem (attempt_of ''renew_reservation'' (rnq_attempt q) (digest_renew_request q) Applied RNone
         (rv_connectivity v) (rnq_reservation q) F)]"
    "G = F\<lparr>objects := map_put (rv_connectivity v) (renewed_object F q v ob) (objects F)\<rparr>"
    "rr_outcome r = Applied" "rr_reservation r = renewed_view F q v"
proof -
  obtain v ob where
    "\<not> closed F" "rnq_extend_ticks q \<noteq> 0" "rnq_extend_ticks q \<le> max_lease_ticks F"
    "map_of (reservations F) (rnq_reservation q) = Some v" "map_of (attempts F) (rnq_attempt q) = None"
    "\<not> rv_released v" "\<not> rv_consumed v" "rv_holder v = holder_text (rnq_authority q)" "live_at v (tick F)"
    "map_of (objects F) (rv_connectivity v) = Some ob"
    "require_authority_locked F (rnq_authority q) (object_scope_locked F ob) = RNone"
    using assms
    by (simp add: decide_renew_reservation_def Let_def find_attempt_locked_def not_less
        split: if_splits option.splits)
  with assms show ?thesis
    by (intro that [of v ob])
      (simp_all add: decide_renew_reservation_def Let_def find_attempt_locked_def leD, auto)
qed

lemma decide_release_Perform:
  assumes "decide_release_reservation F q = Perform kind items G r b"
  obtains v ob where
    "\<not> closed F" "map_of (attempts F) (rlq_attempt q) = None"
    "map_of (reservations F) (rlq_reservation q) = Some v" "\<not> rv_released v" "\<not> rv_consumed v"
    "rv_holder v = holder_text (rlq_authority q)"
    "map_of (objects F) (rv_connectivity v) = Some ob"
    "require_authority_locked F (rlq_authority q) (object_scope_locked F ob) = RNone"
    "items = [ReservationItem (released_view v)] @
       (if cr_state ob = Reserved then [ConnectivityItem (unreserved_object F q ob)] else []) @
       [AttemptItem (attempt_of ''release_reservation'' (rlq_attempt q) (digest_release_request q) Applied RNone
          (rv_connectivity v) (rlq_reservation q) F)]"
    "G = (if cr_state ob = Reserved then count_transition F else F)" "rl_outcome r = Applied"
    "rl_released r = rv_resources v"
proof -
  obtain v ob where
    "\<not> closed F" "map_of (reservations F) (rlq_reservation q) = Some v"
    "map_of (attempts F) (rlq_attempt q) = None"
    "\<not> rv_released v" "\<not> rv_consumed v" "rv_holder v = holder_text (rlq_authority q)"
    "map_of (objects F) (rv_connectivity v) = Some ob"
    "require_authority_locked F (rlq_authority q) (object_scope_locked F ob) = RNone"
    using assms
    by (simp add: decide_release_reservation_def Let_def find_attempt_locked_def
        split: if_splits option.splits)
  with assms show ?thesis
    by (intro that [of v ob])
      (simp_all add: decide_release_reservation_def Let_def find_attempt_locked_def, auto)
qed

lemma decide_begin_activation_Perform:
  assumes "decide_begin_activation F q = Perform kind items G r b"
  obtains rec where
    "\<not> closed F" "map_of (attempts F) (acq_attempt q) = None"
    "map_of (objects F) (acq_connectivity q) = Some rec" "cr_state rec = Reserved"
    "require_authority_locked F (acq_authority q) (object_scope_locked F rec) = RNone"
    "reservation_refusal F rec = RNone"
    "healthy (assess_locked F (cr_path rec) (cr_requirements rec))"
    "check_claims_locked F (path_resources rec) (pd_channel (cr_path rec)) (cr_id rec)
       (cr_reservation rec) = NoConflict"
    "items = [ConnectivityItem (activating_record F q (assess_locked F (cr_path rec) (cr_requirements rec)) rec),
       AttemptItem (attempt_of ''begin_activation'' (acq_attempt q) (digest_activation_request q) Applied RNone
         (acq_connectivity q) (cr_reservation rec) F)]"
    "G = count_transition F" "av_outcome r = Applied" "av_state r = Activating"
    "av_activation_digest r = cr_activation_digest
       (activating_record F q (assess_locked F (cr_path rec) (cr_requirements rec)) rec)"
  using assms
  by (auto simp: decide_begin_activation_def Let_def find_attempt_locked_def copy_object_locked_def
      activating_record_def split: if_splits option.splits)

lemma decide_commit_activation_Perform:
  assumes "decide_commit_activation F q = Perform kind items G r b"
  obtains rec where
    "\<not> closed F" "map_of (attempts F) (cmq_attempt q) = None"
    "map_of (objects F) (cmq_connectivity q) = Some rec" "cr_state rec = Activating"
    "cmq_activation_digest q = cr_activation_digest rec" "cr_activation_digest rec \<noteq> nil_digest"
    "require_authority_locked F (cmq_authority q) (object_scope_locked F rec) = RNone"
    "healthy (assess_locked F (cr_path rec) (cr_requirements rec))"
    "check_claims_locked F (path_resources rec) (pd_channel (cr_path rec)) (cr_id rec)
       (cr_reservation rec) = NoConflict"
    "items = [ConnectivityItem (active_record F q rec)] @ consume_items F rec @
       [AttemptItem (attempt_of ''commit_activation'' (cmq_attempt q) (digest_commit_request q) Applied RNone
          (cmq_connectivity q) (cr_reservation rec) F)]"
    "G = count_transition F" "av_outcome r = Applied" "av_state r = Active"
    "av_committed r = path_resources rec"
  using assms
  by (auto simp: decide_commit_activation_def Let_def find_attempt_locked_def copy_object_locked_def
      active_record_def split: if_splits option.splits)

lemma decide_withdraw_Perform:
  assumes "decide_withdraw F q = Perform kind items G r b"
  obtains rec where
    "\<not> closed F" "map_of (attempts F) (wdq_attempt q) = None"
    "map_of (objects F) (wdq_connectivity q) = Some rec" "cr_state rec \<noteq> Retired"
    "require_authority_locked F (wdq_authority q) (object_scope_locked F rec) = RNone"
    "items = [ConnectivityItem (withdrawn_record F (wdq_attempt q) rec)] @ withdraw_release_items F rec @
       [AttemptItem (attempt_of ''withdraw'' (wdq_attempt q) (digest_withdrawal_request q) Applied RNone
          (wdq_connectivity q) 0 F)]"
    "G = count_transition F" "wr_outcome r = Applied"
    "wr_state r = cr_state (withdrawn_record F (wdq_attempt q) rec)"
  using assms
  by (auto simp: decide_withdraw_def Let_def find_attempt_locked_def copy_object_locked_def
      split: if_splits option.splits)

lemma decide_health_Perform:
  assumes "decide_health target op F q = Perform kind items G r b"
  obtains rec where
    "\<not> closed F" "map_of (attempts F) (hrq_attempt q) = None"
    "map_of (objects F) (hrq_connectivity q) = Some rec" "is_committed_state (cr_state rec)"
    "cr_state rec \<noteq> target"
    "require_authority_locked F (hrq_authority q) (object_scope_locked F rec) = RNone"
    "items = [ConnectivityItem (move_object F target RNone (hrq_attempt q) rec),
       AttemptItem (attempt_of op (hrq_attempt q) (digest_health_request q) Applied RNone (hrq_connectivity q) 0 F)]"
    "G = count_transition F" "hr_outcome r = Applied" "hr_state r = target"
  using assms
  by (auto simp: decide_health_def Let_def find_attempt_locked_def copy_object_locked_def
      split: if_splits option.splits)

lemma decide_revalidate_Perform:
  assumes "decide_revalidate F q = Perform kind items G r b"
  obtains rec updated code where
    "\<not> closed F" "map_of (attempts F) (rvq_attempt q) = None"
    "map_of (objects F) (rvq_connectivity q) = Some rec" "is_committed_state (cr_state rec)"
    "require_authority_locked F (rvq_authority q) (object_scope_locked F rec) = RNone"
    "\<not> confirmed_here F rec"
    "items = [ConnectivityItem updated, AttemptItem (attempt_of ''revalidate'' (rvq_attempt q)
       (digest_revalidation_request q) Applied code (rvq_connectivity q) 0 F)]"
    "G = F \<or> G = count_transition F" "rw_outcome r = Applied" "rw_state r = cr_state updated"
    "if healthy (assess_locked F (cr_path rec) (cr_requirements rec))
     then updated = reconfirmed_record F (rvq_authority q) rec \<and> code = RNone \<and> rw_authority_confirmed r
     else rvq_withdraw_on_failure q \<and> updated = revalidation_withdrawn F (rvq_attempt q) code rec \<and>
       code = refusal_for_assessment (assess_locked F (cr_path rec) (cr_requirements rec)) \<and>
       \<not> rw_authority_confirmed r"
  using assms
  by (auto simp: decide_revalidate_def Let_def find_attempt_locked_def copy_object_locked_def
      split: if_splits option.splits)

end
