(* ===== verification/Safety.thy ===== *)
theory Safety
  imports Decisions
begin

text \<open>
  Every operation of the runtime keeps the claims invariant of theory \<open>Claims\<close>, whatever the
  store does. The only operation that adds claims is \<open>commit_activation\<close>, and its conflict
  check, made against the commit index, is what keeps the new claims compatible.
\<close>

declare apply_item.simps [simp del]
declare claims_ok.simps(2) [simp del]

section \<open>Items that keep what an object claims\<close>

lemma claims_invD:
  assumes "claims_inv F"
  shows "ordered_keys (resources F)" "ordered_keys (objects F)" "ordered_keys (reservations F)"
    "map_of (objects F) i = Some r \<Longrightarrow> sound_object F i r"
    "map_of (reservations F) k = Some v \<Longrightarrow> rv_id v = k"
    "map_of (resources F) x = Some s \<Longrightarrow> rs_resource s = x"
    "compatible F" "indices_current F"
  using assms by (simp_all add: claims_inv_def claims_core_def)

lemma claims_ok_same_view:
  "objects G = objects F \<Longrightarrow> resources G = resources F \<Longrightarrow>
   claims_ok (ConnectivityItem r) G = claims_ok (ConnectivityItem r) F"
  by (simp add: claims_ok.simps(2) registered_path_def claims_free_of_def)

lemma claims_ok_update:
  assumes "claims_inv F" and "map_of (objects F) i = Some old"
    and "cr_id new = cr_id old" "cr_path new = cr_path old"
    and "activation_recorded new" and "holds_committed_claims new \<Longrightarrow> holds_committed_claims old"
  shows "claims_ok (ConnectivityItem new) F"
proof -
  have sound: "sound_object F i old" using assms(1,2) by (rule claims_invD(4))
  have "claims_free_of F new" if "holds_committed_claims new"
    using claims_invD(7) [OF assms(1)] assms(2,3,4) assms(6) [OF that] sound
    by (auto simp: claims_free_of_def compatible_def sound_object_def compatible_records_def path_resources_def)
  then show ?thesis
    using sound assms(4,5) by (simp add: claims_ok.simps(2) sound_object_def registered_path_def path_resources_def)
qed

lemma not_holding: "cr_activated_tick r = 0 \<Longrightarrow> \<not> holds_committed_claims r"
  by (simp add: holds_committed_claims_def)

lemma activation_recorded_zero: "cr_activated_tick r = 0 \<Longrightarrow> activation_recorded r"
  by (simp add: activation_recorded_def)

text \<open>An object in a state before activation has no activation tick.\<close>

lemma not_yet_activated:
  assumes "claims_inv F" "map_of (objects F) i = Some r" "cr_state r \<notin> activated_states"
  shows "cr_activated_tick r = 0"
  using claims_invD(4) [OF assms(1,2)] assms(3) by (auto simp: sound_object_def activation_recorded_def)

lemma claims_ok_before_activation:
  assumes "claims_inv F" "map_of (objects F) i = Some old" "cr_state old \<notin> activated_states"
    and "cr_id new = cr_id old" "cr_path new = cr_path old" "cr_activated_tick new = cr_activated_tick old"
  shows "claims_ok (ConnectivityItem new) F"
proof -
  have "cr_activated_tick new = 0" using not_yet_activated [OF assms(1-3)] assms(6) by simp
  then show ?thesis
    using assms by (intro claims_ok_update [OF assms(1,2,4,5)]) (simp_all add: activation_recorded_zero not_holding)
qed

section \<open>The conflict check and the commit index\<close>

lemma claim_indexed:
  assumes "claims_inv F" "map_of (objects F) j = Some b" "holds_committed_claims b"
    and "res \<in> set (path_resources b)"
  shows "\<exists>c \<in> set (indexed (claim_index F) res). ce_connectivity c = j \<and> ce_channel c = pd_channel (cr_path b)"
proof -
  have entry: "(j, b) \<in> set (objects F)"
    using claims_invD(2) [OF assms(1)] assms(2) by (simp add: ordered_entry_iff)
  obtain s where s: "s \<in> set (pd_segments (cr_path b))" "seg_resource s = res"
    using assms(4) by (auto simp: path_resources_def)
  define c where "c = \<lparr>ce_resource = res, ce_connectivity = cr_id b, ce_channel = pd_channel (cr_path b),
      ce_exclusive = resource_exclusive (resources F) res, ce_committed_tick = cr_activated_tick b\<rparr>"
  have "c \<in> set (derive_claims (resources F) b)"
    using assms(3) s by (auto simp: derive_claims_def c_def holds_committed_claims_def)
  then have "c \<in> set (committed_claims (resources F) (objects F))"
    using entry assms(3) by (auto simp: committed_claims_def intro!: bexI [of _ "(j, b)"])
  then have "(res, c) \<in> set (filter (\<lambda>e. fst e = res)
      (map (\<lambda>c. (ce_resource c, c)) (committed_claims (resources F) (objects F))))"
    by (auto simp: c_def image_iff)
  then have "c \<in> set (indexed (claim_index (rebuild_indices F)) res)"
    by (force simp: rebuild_indices_def indexed_build)
  then have "c \<in> set (indexed (claim_index F) res)"
    using claims_invD(8) [OF assms(1)] by (simp add: indices_current_def)
  moreover have "cr_id b = j"
    using claims_invD(4) [OF assms(1,2)] by (simp add: sound_object_def)
  ultimately show ?thesis by (intro bexI [of _ c]) (simp_all add: c_def)
qed

lemma no_conflict_compatible:
  assumes "claims_inv F"
    and "check_claims_locked F (path_resources r) (pd_channel (cr_path r)) (cr_id r) own = NoConflict"
  shows "claims_free_of F r"
  unfolding claims_free_of_def compatible_records_def
proof (intro allI impI ballI)
  fix j b res
  assume b: "map_of (objects F) j = Some b" "j \<noteq> cr_id r" "holds_committed_claims b"
    and res: "res \<in> set (path_resources r) \<inter> set (path_resources b)"
  obtain c where c: "c \<in> set (indexed (claim_index F) res)" "ce_connectivity c = j"
    "ce_channel c = pd_channel (cr_path b)"
    using claim_indexed [OF assms(1) b(1,3)] res by blast
  have "\<not> claim_clashes (resource_exclusive (resources F) res) (pd_channel (cr_path r)) (cr_id r) c"
    using assms(2) c(1) res by (simp add: check_claims_NoConflict)
  then show "\<not> resource_exclusive (resources F) res \<and> pd_channel (cr_path r) \<noteq> pd_channel (cr_path b)"
    using c(2,3) b(2) by (auto simp: claim_clashes_def)
qed

section \<open>Handlers\<close>

text \<open>\<open>live_inv K\<close>: the claims invariant, with at least the resources \<open>K\<close> registered. A live runtime
  never forgets a resource, since only a checkpoint being replayed resets the registry.\<close>

definition live_inv :: "ResourceRef set \<Rightarrow> Fabric \<Rightarrow> bool" where
  "live_inv K F \<longleftrightarrow> claims_inv F \<and> K \<subseteq> dom (map_of (resources F))"

definition live_ok :: "CommitItem \<Rightarrow> Fabric \<Rightarrow> bool" where
  "live_ok i F \<longleftrightarrow> claims_ok i F \<and> i \<noteq> ResetItem"

lemma live_claims: "live_inv K F \<Longrightarrow> claims_inv F"
  by (simp add: live_inv_def)

lemma apply_item_registry:
  "i \<noteq> ResetItem \<Longrightarrow> dom (map_of (resources F)) \<subseteq> dom (map_of (resources (snd (apply_item i F))))"
  by (cases i) (auto simp: apply_item.simps Let_def split: option.splits)

lemma all_live_ok: "all_ok live_ok items F \<longleftrightarrow> all_ok claims_ok items F \<and> ResetItem \<notin> set items"
  by (induction items arbitrary: F) (auto simp: live_ok_def)

interpretation live: commit_invariant "live_inv K" live_ok for K
proof
  fix F :: Fabric and i j b d r
  show "live_inv K (snd (apply_item i F))" if "live_inv K F" "live_ok i F"
    using that claims_apply [of F i] apply_item_registry [of i F]
    unfolding live_inv_def live_ok_def by (meson subset_trans)
  show "live_inv K (F\<lparr>journal := j\<rparr>) = live_inv K F" by (simp add: live_inv_def)
  show "live_inv K (F\<lparr>persistence_failed := b\<rparr>) = live_inv K F" by (simp add: live_inv_def)
  show "live_inv K F \<Longrightarrow> live_inv K (note_diagnostic d F)"
    by (simp add: live_inv_def claims.diagnostic_inv)
  show "live_ok (AttemptItem r) F" by (simp add: live_ok_def)
qed

lemma live_handler:
  assumes "live_inv K F"
    and "\<And>kind items G r b. decision = Perform kind items G r b \<Longrightarrow>
      claims_inv G \<and> resources G = resources F \<and> ResetItem \<notin> set items \<and> all_ok claims_ok items G"
  shows "live_inv K (snd (run_handler io refused attempt decision F))"
  by (rule live.run_handler_inv [OF assms(1)])
    (use assms in \<open>auto simp: live_inv_def all_live_ok\<close>)

lemma consume_items_no_reset [simp]: "ResetItem \<notin> set (consume_items F rec)"
  by (auto simp: consume_items_def split: option.splits)

lemma withdraw_release_no_reset [simp]: "ResetItem \<notin> set (withdraw_release_items F rec)"
  by (auto simp: withdraw_release_items_def split: option.splits)

lemma claims_inv_count [simp]: "claims_inv (count_transition F) = claims_inv F"
  by (rule claims_inv_cong) simp_all

lemma claims_ok_count [simp]:
  "claims_ok (ConnectivityItem r) (count_transition F) = claims_ok (ConnectivityItem r) F"
  by (rule claims_ok_same_view) simp_all

lemma claims_ok_after_reservation [simp]:
  "claims_ok (ConnectivityItem r) (snd (apply_item (ReservationItem v) F)) = claims_ok (ConnectivityItem r) F"
  by (rule claims_ok_same_view) simp_all

lemma consume_items_ok: "all_ok claims_ok (consume_items F rec) G"
  by (auto simp: consume_items_def split: option.splits)

lemma withdraw_release_items_ok: "all_ok claims_ok (withdraw_release_items F rec) G"
  by (auto simp: withdraw_release_items_def split: option.splits)

lemma validate_inv [inv_intro]:
  assumes "live_inv K F" shows "live_inv K (snd (validate io q F))"
  unfolding validate_def
proof (rule live_handler [OF assms])
  fix kind items G r b
  assume "decide_validate F q = Perform kind items G r b"
  then obtain rec updated outcome code where ob: "map_of (objects F) (vq_connectivity q) = Some rec"
      "cr_state rec = Proposed"
    and items: "items = [ConnectivityItem updated, AttemptItem (attempt_of ''validate'' (vq_attempt q)
       (digest_validate_request q) outcome code (vq_connectivity q) 0 F)]"
    and G: "G = F \<or> G = count_transition F"
    and updated: "if healthy (assess_locked F (cr_path rec) (cr_requirements rec))
     then updated = (move_object F Validated RNone (vq_attempt q) rec)\<lparr>cr_last_refusal := RNone\<rparr> \<and>
       outcome = Applied \<and> code = RNone
     else updated = unhealthy_record F (vq_attempt q) (assess_locked F (cr_path rec) (cr_requirements rec)) rec \<and>
       outcome = Refused \<and> code = refusal_for_assessment (assess_locked F (cr_path rec) (cr_requirements rec))"
    by (rule decide_validate_Perform)
  have "cr_id updated = cr_id rec" "cr_path updated = cr_path rec"
      "cr_activated_tick updated = cr_activated_tick rec"
    using updated by (auto simp: unhealthy_record_def Let_def split: if_splits)
  then have "claims_ok (ConnectivityItem updated) F"
    using ob by (intro claims_ok_before_activation [OF live_claims [OF assms]]) (simp_all add: activated_states_def)
  then show "claims_inv G \<and> resources G = resources F \<and> ResetItem \<notin> set items \<and> all_ok claims_ok items G" using items G live_claims [OF assms] by auto
qed

lemma reserve_inv [inv_intro]:
  assumes "live_inv K F" shows "live_inv K (snd (reserve io q F))"
  unfolding reserve_def
proof (rule live_handler [OF assms], elim decide_reserve_Perform)
  fix kind items G r b rec
  assume ob: "map_of (objects F) (rsq_connectivity q) = Some rec" "cr_state rec = Validated"
    and items: "items = [ReservationItem (reservation_for F q rec), ConnectivityItem (reserved_record F q rec),
       AttemptItem (attempt_of ''reserve'' (rsq_attempt q) (digest_reserve_request q) Applied RNone
         (rsq_connectivity q) (rv_id (reservation_for F q rec)) F)]"
    and G: "G = count_transition F"
  have "claims_ok (ConnectivityItem (reserved_record F q rec)) F"
    using ob by (intro claims_ok_before_activation [OF live_claims [OF assms]]) (simp_all add: activated_states_def reserved_record_def)
  then show "claims_inv G \<and> resources G = resources F \<and> ResetItem \<notin> set items \<and> all_ok claims_ok items G" using items G live_claims [OF assms] by simp
qed

text \<open>The renewal handler edits the stored object in place; its claims do not change.\<close>

lemma map_map_put_same:
  "ordered_keys m \<Longrightarrow> map_of m k = Some w \<Longrightarrow> f (k, v) = f (k, w) \<Longrightarrow> map f (map_put k v m) = map f m"
proof (induction m)
  case Nil
  then show ?case by simp
next
  case (Cons e m)
  show ?case
  proof (cases "fst e = k")
    case True
    with Cons.prems show ?thesis by (cases e) auto
  next
    case False
    with Cons.prems have "map_of m k = Some w" by (cases e) auto
    moreover from this have "(k, w) \<in> set m" by (rule map_of_SomeD)
    ultimately show ?thesis using Cons by (fastforce simp: ordered_keys_Cons)
  qed
qed

lemma claims_inv_edit_object:
  assumes "claims_inv F" and "map_of (objects F) i = Some old"
    and same: "cr_id new = cr_id old" "cr_path new = cr_path old" "cr_canonical new = cr_canonical old"
      "cr_state new = cr_state old" "cr_activated_tick new = cr_activated_tick old"
  shows "claims_inv (F\<lparr>objects := map_put i new (objects F)\<rparr>)"
proof -
  have sound: "sound_object F i old" using assms(1,2) by (rule claims_invD(4))
  have new: "sound_object F i new"
    using sound same
    by (simp add: sound_object_def registered_path_def canonical_record_def activation_recorded_def path_resources_def)
  have free: "claims_free_of F new" if "holds_committed_claims new"
    using claims_invD(7) [OF assms(1)] assms(2) that sound same
    by (auto simp: claims_free_of_def compatible_def sound_object_def compatible_records_def path_resources_def
        holds_committed_claims_def)
  have "claims_core (F\<lparr>transitions_total := transitions_total F, objects := map_put i new (objects F)\<rparr>)"
    using assms(1) new free by (intro claims_core_put_object) (auto simp: claims_inv_def)
  then have core: "claims_core (F\<lparr>objects := map_put i new (objects F)\<rparr>)" by simp
  have "committed_claims (resources F) (map_put i new (objects F)) = committed_claims (resources F) (objects F)"
    using map_map_put_same [OF claims_invD(2) [OF assms(1)] assms(2),
        of "\<lambda>(i, r). if holds_committed_claims r then derive_claims (resources F) r else []" new] same
    by (simp add: committed_claims_def holds_committed_claims_def derive_claims_def)
  then have "indices_current (F\<lparr>objects := map_put i new (objects F)\<rparr>)"
    using claims_invD(8) [OF assms(1)] by (simp add: indices_current_def rebuild_indices_def)
  with core show ?thesis by (simp add: claims_inv_def)
qed

lemma renew_reservation_inv [inv_intro]:
  assumes "live_inv K F" shows "live_inv K (snd (renew_reservation io q F))"
  unfolding renew_reservation_def
proof (rule live_handler [OF assms], elim decide_renew_Perform)
  fix kind items G r b v ob
  assume ob: "map_of (objects F) (rv_connectivity v) = Some ob"
    and items: "items = [ReservationItem (renewed_view F q v), ConnectivityItem (renewed_object F q v ob),
       AttemptItem (attempt_of ''renew_reservation'' (rnq_attempt q) (digest_renew_request q) Applied RNone
         (rv_connectivity v) (rnq_reservation q) F)]"
    and G: "G = F\<lparr>objects := map_put (rv_connectivity v) (renewed_object F q v ob) (objects F)\<rparr>"
  have inv: "claims_inv G"
    unfolding G by (rule claims_inv_edit_object [OF live_claims [OF assms] ob]) (simp_all add: renewed_object_def)
  have here: "map_of (objects G) (rv_connectivity v) = Some (renewed_object F q v ob)" by (simp add: G)
  have "activation_recorded (renewed_object F q v ob)"
    using claims_invD(4) [OF inv here] by (simp add: sound_object_def)
  then have "claims_ok (ConnectivityItem (renewed_object F q v ob)) G"
    by (intro claims_ok_update [OF inv here]) simp_all
  then show "claims_inv G \<and> resources G = resources F \<and> ResetItem \<notin> set items \<and> all_ok claims_ok items G" using items inv G by simp
qed

lemma release_reservation_inv [inv_intro]:
  assumes "live_inv K F" shows "live_inv K (snd (release_reservation io q F))"
  unfolding release_reservation_def
proof (rule live_handler [OF assms], elim decide_release_Perform)
  fix kind items G r b v ob
  assume ob: "map_of (objects F) (rv_connectivity v) = Some ob"
    and items: "items = [ReservationItem (released_view v)] @
       (if cr_state ob = Reserved then [ConnectivityItem (unreserved_object F q ob)] else []) @
       [AttemptItem (attempt_of ''release_reservation'' (rlq_attempt q) (digest_release_request q) Applied RNone
          (rv_connectivity v) (rlq_reservation q) F)]"
    and G: "G = (if cr_state ob = Reserved then count_transition F else F)"
  have "claims_ok (ConnectivityItem (unreserved_object F q ob)) F" if "cr_state ob = Reserved"
    using ob that by (intro claims_ok_before_activation [OF live_claims [OF assms]])
      (simp_all add: activated_states_def unreserved_object_def)
  then show "claims_inv G \<and> resources G = resources F \<and> ResetItem \<notin> set items \<and> all_ok claims_ok items G" using items G live_claims [OF assms] by simp
qed

lemma begin_activation_inv [inv_intro]:
  assumes "live_inv K F" shows "live_inv K (snd (begin_activation io q F))"
  unfolding begin_activation_def
proof (rule live_handler [OF assms], elim decide_begin_activation_Perform)
  fix kind items G r b rec
  let ?new = "activating_record F q (assess_locked F (cr_path rec) (cr_requirements rec)) rec"
  assume ob: "map_of (objects F) (acq_connectivity q) = Some rec" "cr_state rec = Reserved"
    and items: "items = [ConnectivityItem ?new,
       AttemptItem (attempt_of ''begin_activation'' (acq_attempt q) (digest_activation_request q) Applied RNone
         (acq_connectivity q) (cr_reservation rec) F)]"
    and G: "G = count_transition F"
  have "claims_ok (ConnectivityItem ?new) F"
    using ob by (intro claims_ok_before_activation [OF live_claims [OF assms]]) (simp_all add: activated_states_def activating_record_def)
  then show "claims_inv G \<and> resources G = resources F \<and> ResetItem \<notin> set items \<and> all_ok claims_ok items G" using items G live_claims [OF assms] by simp
qed

lemma commit_activation_inv [inv_intro]:
  assumes "live_inv K F" shows "live_inv K (snd (commit_activation io q F))"
  unfolding commit_activation_def
proof (rule live_handler [OF assms], elim decide_commit_activation_Perform)
  fix kind items G r b rec
  assume ob: "map_of (objects F) (cmq_connectivity q) = Some rec"
    and free: "check_claims_locked F (path_resources rec) (pd_channel (cr_path rec)) (cr_id rec)
       (cr_reservation rec) = NoConflict"
    and items: "items = [ConnectivityItem (active_record F q rec)] @ consume_items F rec @
       [AttemptItem (attempt_of ''commit_activation'' (cmq_attempt q) (digest_commit_request q) Applied RNone
          (cmq_connectivity q) (cr_reservation rec) F)]"
    and G: "G = count_transition F"
  have sound: "sound_object F (cmq_connectivity q) rec" using claims_invD(4) [OF live_claims [OF assms] ob] .
  have same: "cr_id (active_record F q rec) = cr_id rec" "cr_path (active_record F q rec) = cr_path rec"
    "path_resources (active_record F q rec) = path_resources rec" "cr_state (active_record F q rec) = Active"
    by (simp_all add: active_record_def path_resources_def)
  have "claims_free_of F (active_record F q rec)"
    using no_conflict_compatible [OF live_claims [OF assms] free] by (simp add: claims_free_of_def compatible_records_def same)
  then have "claims_ok (ConnectivityItem (active_record F q rec)) F"
    using sound by (simp add: claims_ok.simps(2) sound_object_def registered_path_def same activation_recorded_def
        activated_states_def)
  then show "claims_inv G \<and> resources G = resources F \<and> ResetItem \<notin> set items \<and> all_ok claims_ok items G"
    using items G live_claims [OF assms] by (simp add: all_ok_append consume_items_ok)
qed

lemma withdraw_inv [inv_intro]:
  assumes "live_inv K F" shows "live_inv K (snd (withdraw io q F))"
  unfolding withdraw_def
proof (rule live_handler [OF assms], elim decide_withdraw_Perform)
  fix kind items G r b rec
  assume ob: "map_of (objects F) (wdq_connectivity q) = Some rec"
    and items: "items = [ConnectivityItem (withdrawn_record F (wdq_attempt q) rec)] @ withdraw_release_items F rec @
       [AttemptItem (attempt_of ''withdraw'' (wdq_attempt q) (digest_withdrawal_request q) Applied RNone
          (wdq_connectivity q) 0 F)]"
    and G: "G = count_transition F"
  have "claims_ok (ConnectivityItem (withdrawn_record F (wdq_attempt q) rec)) F"
    by (rule claims_ok_update [OF live_claims [OF assms] ob])
      (auto simp: withdrawn_record_def activation_recorded_def activated_states_def holds_committed_claims_def
        split: if_splits)
  then show "claims_inv G \<and> resources G = resources F \<and> ResetItem \<notin> set items \<and> all_ok claims_ok items G"
    using items G live_claims [OF assms] by (simp add: all_ok_append withdraw_release_items_ok)
qed

lemma committed_is_activated: "is_committed_state s \<Longrightarrow> s \<in> {Active, Degraded}"
  by (cases s) (simp_all add: is_committed_state_def)

lemma apply_health_inv:
  assumes "live_inv K F" and "target \<in> {Degraded, Failed}"
  shows "live_inv K (snd (apply_health io q target op F))"
  unfolding apply_health_def
proof (rule live_handler [OF assms(1)], elim decide_health_Perform)
  fix kind items G r b rec
  assume ob: "map_of (objects F) (hrq_connectivity q) = Some rec" "is_committed_state (cr_state rec)"
    and items: "items = [ConnectivityItem (move_object F target RNone (hrq_attempt q) rec),
       AttemptItem (attempt_of op (hrq_attempt q) (digest_health_request q) Applied RNone (hrq_connectivity q) 0 F)]"
    and G: "G = count_transition F"
  have "claims_ok (ConnectivityItem (move_object F target RNone (hrq_attempt q) rec)) F"
    using committed_is_activated [OF ob(2)] assms(2)
    by (intro claims_ok_update [OF live_claims [OF assms(1)] ob(1)])
      (auto simp: activation_recorded_def activated_states_def holds_committed_claims_def)
  then show "claims_inv G \<and> resources G = resources F \<and> ResetItem \<notin> set items \<and> all_ok claims_ok items G" using items G live_claims [OF assms(1)] by simp
qed

lemma report_inv [inv_intro]:
  assumes "live_inv K F"
  shows "live_inv K (snd (report_degraded io q F))" "live_inv K (snd (report_failed io q F))"
  using assms by (simp_all add: report_degraded_def report_failed_def apply_health_inv)

lemma revalidate_inv [inv_intro]:
  assumes "live_inv K F" shows "live_inv K (snd (revalidate io q F))"
  unfolding revalidate_def
proof (rule live_handler [OF assms], elim decide_revalidate_Perform)
  fix kind items G r b rec updated code
  assume ob: "map_of (objects F) (rvq_connectivity q) = Some rec" "is_committed_state (cr_state rec)"
    and items: "items = [ConnectivityItem updated, AttemptItem (attempt_of ''revalidate'' (rvq_attempt q)
       (digest_revalidation_request q) Applied code (rvq_connectivity q) 0 F)]"
    and G: "G = F \<or> G = count_transition F"
    and updated: "if healthy (assess_locked F (cr_path rec) (cr_requirements rec))
     then updated = reconfirmed_record F (rvq_authority q) rec \<and> code = RNone \<and> rw_authority_confirmed r
     else rvq_withdraw_on_failure q \<and> updated = revalidation_withdrawn F (rvq_attempt q) code rec \<and>
       code = refusal_for_assessment (assess_locked F (cr_path rec) (cr_requirements rec)) \<and>
       \<not> rw_authority_confirmed r"
  have state: "cr_state updated \<in> activated_states"
    using updated committed_is_activated [OF ob(2)]
    by (auto simp: reconfirmed_record_def revalidation_withdrawn_def activated_states_def split: if_splits)
  have "claims_ok (ConnectivityItem updated) F"
    using updated state
    by (intro claims_ok_update [OF live_claims [OF assms] ob(1)])
      (auto simp: reconfirmed_record_def revalidation_withdrawn_def activation_recorded_def
        holds_committed_claims_def split: if_splits)
  then show "claims_inv G \<and> resources G = resources F \<and> ResetItem \<notin> set items \<and> all_ok claims_ok items G" using items G live_claims [OF assms] by auto
qed

section \<open>Intents\<close>

lemma declared_chain_current: "declared_chain F segs \<Longrightarrow> s \<in> set segs \<Longrightarrow> current_segment F s"
  by (induction F segs rule: declared_chain.induct) (auto simp: port_segment_def joins_def Let_def)

lemma current_registered: "current_segment F s \<Longrightarrow> map_of (resources F) (seg_resource s) \<noteq> None"
  by (auto simp: current_segment_def find_resource_def)

lemma resolved_registered:
  assumes "resolve_intent_path planner F0 F1 it = Inr path" and "ordered_keys (resources F0)"
  shows "(\<forall>s \<in> set (pd_segments path). map_of (resources F0) (seg_resource s) \<noteq> None) \<or>
         (\<forall>s \<in> set (pd_segments path). map_of (resources F1) (seg_resource s) \<noteq> None)"
proof (cases "resolve_declared_route_locked F0 it")
  case (Inr p)
  then have "p = path" using assms(1) by (simp add: resolve_intent_path_def)
  with Inr have "declared_chain F0 (if in_direction it = Reverse then rev (pd_segments path) else pd_segments path)"
    using resolve_declared_route_chain(2) [OF assms(2)] by (simp add: chain_to_def)
  from declared_chain_current [OF this]
  have "current_segment F0 s" if "s \<in> set (pd_segments path)" for s
    using that by (simp split: if_splits)
  then show ?thesis using current_registered by blast
next
  case (Inl e)
  then obtain proposed origin where "describe_route_locked F1 proposed (in_channel it) (in_direction it) origin = Inr path"
    using assms(1) by (auto simp: resolve_intent_path_def split: if_splits option.splits sum.splits)
  from describe_route_Inr(3) [OF this] show ?thesis
    using current_registered by (auto simp: list_all_iff)
qed

lemma admit_intent_inv:
  assumes "live_inv K F" and "\<forall>s \<in> set (pd_segments path). map_of (resources F) (seg_resource s) \<noteq> None"
  shows "live_inv K (snd (admit_intent io it path canonical F))"
proof -
  have "claims_ok (ConnectivityItem (proposed_record F it path canonical)) F"
    using assms(2)
    by (simp add: claims_ok.simps(2) registered_path_def path_resources_def proposed_record_def
        activation_recorded_def holds_committed_claims_def)
  then have "all_ok live_ok [ConnectivityItem (proposed_record F it path canonical),
      RuntimeItem (runtime_state F (generation F + 1) (topology_generation F))] F"
    by (simp add: live_ok_def)
  from live.commit_inv [OF assms(1) this] show ?thesis
    using assms(1) by (simp add: admit_intent_def Let_def case_prod_beta split: option.splits)
qed

lemma submit_intent_inv [inv_intro]:
  assumes "live_inv K F" and "ordered_keys (resources F0)"
    and "dom (map_of (resources F0)) \<subseteq> K" "dom (map_of (resources F1)) \<subseteq> K"
  shows "live_inv K (snd (submit_intent io planner F0 F1 it F))"
proof -
  have "live_inv K (snd (admit_intent io it path canonical F))"
    if "resolve_intent_path planner F0 F1 it = Inr path" for path canonical
  proof (rule admit_intent_inv [OF assms(1)])
    have "K \<subseteq> dom (map_of (resources F))" using assms(1) by (simp add: live_inv_def)
    then show "\<forall>s \<in> set (pd_segments path). map_of (resources F) (seg_resource s) \<noteq> None"
      using resolved_registered [OF that assms(2)] assms(3,4) by blast
  qed
  then show ?thesis
    using assms(1) by (auto simp: submit_intent_def split: sum.splits)
qed

section \<open>Clock, topology, evidence and authority\<close>

lemma live_inv_cong:
  assumes "resources G = resources F" "objects G = objects F" "reservations G = reservations F"
    "claim_index G = claim_index F" "reservation_index G = reservation_index F" "limits G = limits F"
  shows "live_inv K G = live_inv K F"
  using claims_inv_cong [OF assms] by (simp add: live_inv_def assms)

lemma advance_tick_inv [inv_intro]:
  assumes "live_inv K F" shows "live_inv K (snd (advance_tick io delta F))"
proof -
  have "live_inv K (F\<lparr>tick := t, generation := g\<rparr>)" for t g
    using assms live_inv_cong [of "F\<lparr>tick := t, generation := g\<rparr>" F K] by simp
  then have "live_inv K (snd (commit io RkRuntimeState [RuntimeItem s] (F\<lparr>tick := t, generation := g\<rparr>)))" for s t g
    by (intro live.commit_inv) (simp_all add: live_ok_def)
  then show ?thesis using assms by (simp add: advance_tick_def Let_def case_prod_beta)
qed

lemma close_inv [inv_intro]: "live_inv K F \<Longrightarrow> live_inv K (snd (close_fabric synced F))"
  using live_inv_cong [of "F\<lparr>store_open := b, closed := True\<rparr>" F K for b] by (simp add: close_fabric_def)

lemma owner_update_ok:
  assumes "claims_inv F" "map_of (resources F) (rs_resource s) = None"
  shows "all_ok claims_ok (owner_update F owner (rs_resource s)) (snd (apply_item (ResourceItem s) F))"
proof -
  have "map_of (resources F) owner = Some st \<Longrightarrow> rs_resource st = owner" for st
    using claims_invD(6) [OF assms(1)] by blast
  moreover have "map_of (resources (snd (apply_item (ResourceItem s) F))) owner = map_of (resources F) owner"
    if "map_of (resources F) owner \<noteq> None"
    using that assms(2) by (auto simp: apply_item.simps reload_resource_def split: if_splits option.splits)
  ultimately show ?thesis by (auto simp: owner_update_def split: option.splits)
qed

lemma owner_update_no_reset [simp]: "ResetItem \<notin> set (owner_update F owner m)"
  by (auto simp: owner_update_def split: option.splits)

lemma register_resource_inv:
  assumes "live_inv K F"
  shows "live_inv K (snd (register_resource_locked io s n lim owner F))"
proof (cases "map_of (resources F) (rs_resource s)")
  case None
  let ?s = "s\<lparr>rs_generation := 1, rs_registered_tick := tick F\<rparr>"
  have "map_of (resources F) (rs_resource ?s) = None" using None by simp
  from owner_update_ok [OF live_claims [OF assms] this, of owner]
  have "all_ok live_ok (register_items F ?s owner) F"
    using None by (simp add: all_live_ok register_items_def all_ok_append live_ok_def)
  from live.commit_inv [OF assms this] show ?thesis
    using assms None by (simp add: register_resource_locked_def Let_def case_prod_beta)
qed (use assms in \<open>simp add: register_resource_locked_def\<close>)

lemma link_related_inv:
  assumes "live_inv K F" shows "live_inv K (link_related_locked io owner m F)"
proof (cases "map_of (resources F) owner")
  case (Some st)
  let ?st = "st\<lparr>rs_related := rs_related st @ [m]\<rparr>"
  let ?G = "F\<lparr>resources := map_put owner ?st (resources F)\<rparr>"
  have own: "rs_resource st = owner" using claims_invD(6) [OF live_claims [OF assms] Some] .
  have "claims_ok (ResourceItem ?st) F" using Some own by simp
  from claims_put_resource [OF live_claims [OF assms] this] have "claims_inv ?G" using own by simp
  then have "live_inv K ?G" using assms by (auto simp: live_inv_def)
  moreover have "all_ok live_ok [ResourceItem ?st] ?G" using own by (simp add: live_ok_def)
  ultimately have "live_inv K (snd (commit io RkTopologyRegistered [ResourceItem ?st] ?G))"
    by (rule live.commit_inv)
  then show ?thesis using assms Some by (simp add: link_related_locked_def Let_def)
qed (use assms in \<open>simp add: link_related_locked_def\<close>)

lemma register_inv [inv_intro]:
  assumes "live_inv K F"
  shows "live_inv K (snd (register_site io site F))" "live_inv K (snd (register_optical_node io node F))"
    "live_inv K (snd (register_port io port F))" "live_inv K (snd (register_span io io' span F))"
    "live_inv K (snd (register_line_system io line F))" "live_inv K (snd (register_cross_connect io xc F))"
    "live_inv K (snd (register_channel io ch F))"
  using register_resource_inv [OF assms] assms
  by (auto simp: register_site_def register_optical_node_def register_port_def register_span_def
      register_line_system_def register_cross_connect_def register_channel_def Let_def case_prod_beta
      intro: link_related_inv split: option.splits)

lemma ingest_locked_inv:
  assumes "live_inv K F" shows "live_inv K (snd (ingest_evidence_locked io r F))"
proof -
  have "live_inv K (snd (commit io RkEvidenceIngested [EvidenceItem e, RuntimeItem s] F))" for e s
    using assms by (intro live.commit_inv) (simp_all add: live_ok_def)
  then show ?thesis
    using assms by (simp add: ingest_evidence_locked_def Let_def case_prod_beta split: option.splits)
qed

lemma ingest_all_inv: "live_inv K F \<Longrightarrow> live_inv K (snd (ingest_all ios b rs n F))"
proof (induction rs arbitrary: n F)
  case (Cons r rs)
  then show ?case
    using ingest_locked_inv [OF Cons.prems] by (simp add: Let_def case_prod_beta split: sum.splits)
qed simp

lemma ingest_inv [inv_intro]:
  assumes "live_inv K F"
  shows "live_inv K (snd (ingest_evidence io r F))" "live_inv K (snd (ingest_bundle ios b F))"
    "live_inv K (snd (refresh_from_source ios src polled desc F0 F))"
  using assms ingest_locked_inv ingest_all_inv
  by (auto simp: ingest_evidence_def ingest_bundle_def refresh_from_source_def split: option.splits sum.splits)

lemma register_source_inv [inv_intro]:
  "live_inv K F \<Longrightarrow> live_inv K (register_evidence_source d F)"
  using live_inv_cong [of "F\<lparr>sources := x\<rparr>" F K for x]
  by (simp add: register_evidence_source_def live.diagnostic_inv)

lemma fence_items_ok: "all_ok live_ok (fence_items F s e) G"
proof -
  have "all_ok live_ok (concat (map (\<lambda>(i, g). if supersedes s g
      then [GrantItem (fence_grant (supersede_record F e g) g), FenceItem (supersede_record F e g)]
      else []) gs)) G" for gs
    by (induction gs arbitrary: G) (auto simp: live_ok_def)
  then show ?thesis by (simp add: fence_items_def)
qed

lemma acquire_inv [inv_intro]:
  assumes "live_inv K F" shows "live_inv K (snd (acquire_authority io q F))"
proof -
  have "live_inv K (F\<lparr>grants := g\<rparr>)" for g
    using assms live_inv_cong [of "F\<lparr>grants := g\<rparr>" F K] by simp
  then have "live_inv K (snd (commit io RkAuthorityGranted (acquire_items F q) (F\<lparr>grants := g\<rparr>)))" for g
    by (intro live.commit_inv) (simp_all add: acquire_items_def all_ok_append fence_items_ok live_ok_def)
  then show ?thesis using assms by (simp add: acquire_authority_def Let_def case_prod_beta)
qed

lemma fence_inv [inv_intro]: "live_inv K F \<Longrightarrow> live_inv K (snd (fence io q F))"
  using acquire_inv [of K F io] by (simp add: fence_def Let_def case_prod_beta split: option.splits)

lemma renew_authority_inv [inv_intro]:
  assumes "live_inv K F" shows "live_inv K (snd (renew_authority io q F))"
proof -
  have "live_inv K (snd (commit io RkAuthorityGranted [GrantItem g, AttemptItem r] F))" for g r
    using assms by (intro live.commit_inv) (simp_all add: live_ok_def)
  then show ?thesis
    using assms by (simp add: renew_authority_def Let_def case_prod_beta split: option.splits)
qed

end
