(* ===== verification/Checks.thy ===== *)
theory Checks
  imports Safety
begin

text \<open>
  What the claims invariant says in the runtime's own terms: the first four checks of
  \<open>verify_invariants\<close> and the accounting balance hold in every state that has it.
\<close>

section \<open>Contents of a built index\<close>

lemma ordered_index_push [simp]: "ordered_keys idx \<Longrightarrow> ordered_keys (index_push k v idx)"
  by (simp add: index_push_def)

lemma ordered_build_index: "ordered_keys (build_index kvs)"
proof -
  have "ordered_keys idx \<Longrightarrow> ordered_keys (foldl (\<lambda>idx (k, v). index_push k v idx) idx kvs)" for idx
    by (induction kvs arbitrary: idx) auto
  then show ?thesis by (simp add: build_index_def)
qed

lemma build_index_entry:
  assumes "(k, vs) \<in> set (build_index kvs)"
  shows "vs = map snd (filter (\<lambda>e. fst e = k) kvs)"
proof -
  have "map_of (build_index kvs) k = Some vs"
    using assms ordered_build_index ordered_entry_iff by metis
  then show ?thesis using indexed_build [of kvs k] by (simp add: indexed_def)
qed

definition index_size :: "('k, 'v list) omap \<Rightarrow> nat" where
  "index_size idx = sum_list (map (\<lambda>(k, vs). length vs) idx)"

lemma index_size_put:
  "ordered_keys idx \<Longrightarrow>
   index_size (map_put k vs idx) + (case map_of idx k of None \<Rightarrow> 0 | Some ws \<Rightarrow> length ws) = index_size idx + length vs"
proof (induction idx)
  case Nil
  then show ?case by (simp add: index_size_def)
next
  case (Cons e idx)
  obtain a ws where e: "e = (a, ws)" by (cases e)
  have absent: "map_of idx k = None" if "k \<le> a"
  proof -
    have "k \<notin> fst ` set idx" using that Cons.prems by (auto simp: e ordered_keys_Cons)
    then show ?thesis by (simp add: map_of_eq_None_iff)
  qed
  show ?case
    using Cons absent by (cases "k = a") (auto simp: e index_size_def ordered_keys_Cons)
qed

lemma index_size_build: "index_size (build_index kvs) = length kvs"
proof -
  have push: "index_size (index_push k v idx) = index_size idx + 1" if "ordered_keys idx"
    for k :: "'a::linorder" and v :: 'b and idx
    using index_size_put [OF that, of k "(case map_of idx k of None \<Rightarrow> [] | Some vs \<Rightarrow> vs) @ [v]"]
    by (auto simp: index_push_def split: option.splits)
  have "ordered_keys idx \<Longrightarrow>
      index_size (foldl (\<lambda>idx (k, v). index_push k v idx) idx kvs) = index_size idx + length kvs"
    for idx :: "('a, 'b list) omap"
    by (induction kvs arbitrary: idx) (auto simp: push)
  then show ?thesis by (simp add: build_index_def index_size_def)
qed

section \<open>The commit index\<close>

lemma claim_index_eq:
  assumes "claims_inv F"
  shows "claim_index F = build_index (map (\<lambda>c. (ce_resource c, c)) (committed_claims (resources F) (objects F)))"
  using claims_invD(8) [OF assms] by (simp add: indices_current_def rebuild_indices_def)

lemma reservation_index_eq:
  assumes "claims_inv F"
  shows "reservation_index F = build_index (reserved_resources (reservations F))"
  using claims_invD(8) [OF assms] by (simp add: indices_current_def rebuild_indices_def)

lemma claims_inv_index_matches:
  assumes "claims_inv F" shows "commit_index_matches_objects F"
proof -
  have "indexed_claims F = index_size (claim_index F)" by (simp add: indexed_claims_def index_size_def)
  also have "\<dots> = length (committed_claims (resources F) (objects F))"
    by (simp add: claim_index_eq [OF assms] index_size_build)
  also have "\<dots> = derived_claims F"
    by (simp add: committed_claims_def derived_claims_def length_concat comp_def case_prod_beta'
        if_distrib [of length] cong: if_cong)
  finally show ?thesis by (simp add: commit_index_matches_objects_def)
qed

lemma sound_path_distinct:
  assumes "claims_inv F" "map_of (objects F) i = Some r"
  shows "distinct (path_resources r)"
proof -
  have "canonicalize_path (cr_path r) (limits F) = Inr (cr_canonical r)"
    using claims_invD(4) [OF assms] by (simp add: sound_object_def canonical_record_def)
  then show ?thesis by (simp add: canonicalize_path_Inr validate_path_structure_Ok path_resources_def)
qed

definition claim_on :: "Fabric \<Rightarrow> ResourceRef \<Rightarrow> u64 \<times> ConnectivityRecord \<Rightarrow> ClaimEntry" where
  "claim_on F res e =
     \<lparr>ce_resource = res, ce_connectivity = cr_id (snd e), ce_channel = pd_channel (cr_path (snd e)),
      ce_exclusive = resource_exclusive (resources F) res, ce_committed_tick = cr_activated_tick (snd e)\<rparr>"

definition claimants :: "Fabric \<Rightarrow> ResourceRef \<Rightarrow> (u64 \<times> ConnectivityRecord) list" where
  "claimants F res =
     filter (\<lambda>e. holds_committed_claims (snd e) \<and> res \<in> set (path_resources (snd e))) (objects F)"

lemma length_filter_distinct:
  "distinct (map f xs) \<Longrightarrow> length (filter (\<lambda>x. f x = y) xs) = (if y \<in> f ` set xs then 1 else 0)"
proof (induction xs)
  case (Cons x xs)
  then show ?case by (cases "f x = y") (auto simp: filter_empty_conv)
qed simp

lemma derived_on_resource:
  assumes "distinct (path_resources r)" "holds_committed_claims r"
  shows "filter (\<lambda>c. ce_resource c = res) (derive_claims (resources F) r) =
    (if res \<in> set (path_resources r) then [claim_on F res (i, r)] else [])"
proof -
  have act: "cr_activated_tick r \<noteq> 0" using assms(2) by (simp add: holds_committed_claims_def)
  let ?segs = "filter (\<lambda>s. seg_resource s = res) (pd_segments (cr_path r))"
  have "filter (\<lambda>c. ce_resource c = res) (derive_claims (resources F) r) = map (\<lambda>s. claim_on F res (i, r)) ?segs"
    using act by (auto simp: derive_claims_def filter_map comp_def claim_on_def)
  also have "\<dots> = replicate (length ?segs) (claim_on F res (i, r))" by (simp add: map_replicate_const)
  also have "length ?segs = (if res \<in> set (path_resources r) then 1 else 0)"
    using assms(1) length_filter_distinct [of seg_resource "pd_segments (cr_path r)" res]
    by (simp add: path_resources_def)
  finally show ?thesis by simp
qed

text \<open>The claims on a resource are those of the objects that hold it, in object order.\<close>

lemma claims_on_resource:
  assumes "claims_inv F"
  shows "filter (\<lambda>c. ce_resource c = res) (committed_claims (resources F) (objects F)) =
    map (claim_on F res) (claimants F res)"
proof -
  have "filter (\<lambda>c. ce_resource c = res) (if holds_committed_claims r then derive_claims (resources F) r else []) =
      (if holds_committed_claims r \<and> res \<in> set (path_resources r) then [claim_on F res (i, r)] else [])"
    if "(i, r) \<in> set (objects F)" for i r
  proof -
    have "map_of (objects F) i = Some r" using that claims_invD(2) [OF assms] by (simp add: ordered_entry_iff)
    from derived_on_resource [OF sound_path_distinct [OF assms this], of res F i] show ?thesis by simp
  qed
  then have step: "map (\<lambda>(i, r). filter (\<lambda>c. ce_resource c = res)
        (if holds_committed_claims r then derive_claims (resources F) r else [])) (objects F) =
      map (\<lambda>(i, r). if holds_committed_claims r \<and> res \<in> set (path_resources r)
        then [claim_on F res (i, r)] else []) (objects F)"
    by (intro map_cong) auto
  have collect: "concat (map (\<lambda>(i, r). if holds_committed_claims r \<and> res \<in> set (path_resources r)
        then [claim_on F res (i, r)] else []) es) =
      map (claim_on F res) (filter (\<lambda>e. holds_committed_claims (snd e) \<and> res \<in> set (path_resources (snd e))) es)" for es
    by (induction es) auto
  have "filter (\<lambda>c. ce_resource c = res) (committed_claims (resources F) (objects F)) =
      concat (map (\<lambda>(i, r). filter (\<lambda>c. ce_resource c = res)
        (if holds_committed_claims r then derive_claims (resources F) r else [])) (objects F))"
    by (simp add: committed_claims_def filter_concat comp_def case_prod_beta')
  then show ?thesis by (simp only: step collect claimants_def)
qed

lemma claim_index_entry:
  assumes "claims_inv F" and "(res, cs) \<in> set (claim_index F)"
  shows "cs = map (claim_on F res) (claimants F res)"
proof -
  have "cs = map snd (filter (\<lambda>e. fst e = res)
      (map (\<lambda>c. (ce_resource c, c)) (committed_claims (resources F) (objects F))))"
    using build_index_entry assms(2) unfolding claim_index_eq [OF assms(1)] by blast
  also have "\<dots> = filter (\<lambda>c. ce_resource c = res) (committed_claims (resources F) (objects F))"
    by (simp add: filter_map comp_def)
  finally show ?thesis by (simp only: claims_on_resource [OF assms(1)])
qed

lemma pairwise_compatible_wrt: "pairwise_compatible cs = sorted_wrt (\<lambda>a b. \<not> claims_conflict a b) cs"
  by (induction cs) (simp_all add: list_all_iff)

lemma claimants_compatible:
  assumes "claims_inv F"
  shows "pairwise_compatible (map (claim_on F res) (claimants F res))"
proof -
  have "sorted_wrt (\<lambda>a b. fst a < fst b) (claimants F res)"
    using claims_invD(2) [OF assms]
    by (simp add: claimants_def ordered_keys_def sorted_wrt_map sorted_wrt_filter)
  then have "sorted_wrt (\<lambda>a b. \<not> claims_conflict (claim_on F res a) (claim_on F res b)) (claimants F res)"
  proof (rule sorted_wrt_mono_rel [rotated])
    fix a b
    assume "a \<in> set (claimants F res)" "b \<in> set (claimants F res)" and less: "fst a < fst b"
    then have objs: "map_of (objects F) (fst a) = Some (snd a)" "map_of (objects F) (fst b) = Some (snd b)"
      and holds: "holds_committed_claims (snd a)" "holds_committed_claims (snd b)"
      and res: "res \<in> set (path_resources (snd a)) \<inter> set (path_resources (snd b))"
      using claims_invD(2) [OF assms] by (auto simp: claimants_def ordered_entry_iff [symmetric])
    have "compatible_records (resources F) (snd a) (snd b)"
      using claims_invD(7) [OF assms] objs holds less by (auto simp: compatible_def)
    then show "\<not> claims_conflict (claim_on F res a) (claim_on F res b)"
      using res by (auto simp: compatible_records_def claims_conflict_def claim_on_def)
  qed
  then show ?thesis by (simp add: pairwise_compatible_wrt sorted_wrt_map)
qed

lemma claims_inv_compatible:
  assumes "claims_inv F" shows "no_incompatible_claims F"
  using claim_index_entry [OF assms] claimants_compatible [OF assms]
  by (auto simp: no_incompatible_claims_def list_all_iff)

lemma claims_inv_retired:
  assumes "claims_inv F" shows "retired_objects_hold_no_claims F"
proof -
  have "ce_connectivity c \<noteq> i"
    if obj: "(i, r) \<in> set (objects F)" and "cr_state r = Retired \<or> cr_state r = SRefused"
      and cs: "(res, cs) \<in> set (claim_index F)" and c: "c \<in> set cs" for i r res cs c
  proof -
    obtain e where e: "e \<in> set (claimants F res)" "c = claim_on F res e"
      using claim_index_entry [OF assms cs] c by auto
    have "map_of (objects F) (fst e) = Some (snd e)"
      using e(1) claims_invD(2) [OF assms] by (auto simp: claimants_def ordered_entry_iff [symmetric])
    moreover from this have "cr_id (snd e) = fst e"
      using claims_invD(4) [OF assms] by (simp add: sound_object_def)
    moreover have "map_of (objects F) i = Some r"
      using obj claims_invD(2) [OF assms] by (simp add: ordered_entry_iff)
    moreover have "holds_committed_claims (snd e)" using e(1) by (simp add: claimants_def)
    ultimately show ?thesis
      using that(2) e(2) by (auto simp: claim_on_def holds_committed_claims_def)
  qed
  then show ?thesis
    unfolding retired_objects_hold_no_claims_def list_all_iff case_prod_beta by (metis prod.collapse)
qed

lemma claims_inv_reservations:
  assumes "claims_inv F" shows "reservation_index_matches_records F"
proof -
  have "i \<in> set (indexed (reservation_index F) res) \<longleftrightarrow> \<not> rv_released v \<and> \<not> rv_consumed v"
    if "(i, v) \<in> set (reservations F)" "res \<in> set (rv_resources v)" for i v res
  proof -
    have "i \<in> set (indexed (reservation_index F) res) \<longleftrightarrow> (res, i) \<in> set (reserved_resources (reservations F))"
      by (force simp: reservation_index_eq [OF assms] indexed_build)
    also have "\<dots> \<longleftrightarrow> (\<exists>w. (i, w) \<in> set (reservations F) \<and> \<not> rv_released w \<and> \<not> rv_consumed w \<and> res \<in> set (rv_resources w))"
      by (force simp: reserved_resources_def split: if_splits)
    also have "\<dots> \<longleftrightarrow> \<not> rv_released v \<and> \<not> rv_consumed v"
      using that claims_invD(3) [OF assms] by (auto simp: ordered_entry_iff)
    finally show ?thesis .
  qed
  then show ?thesis by (auto simp: reservation_index_matches_records_def list_all_iff)
qed

section \<open>The conflict check on the records\<close>

lemma claims_indexed:
  assumes "claims_inv F"
  shows "set (indexed (claim_index F) res) = claim_on F res ` set (claimants F res)"
proof -
  have "indexed (claim_index F) res = filter (\<lambda>c. ce_resource c = res) (committed_claims (resources F) (objects F))"
    by (simp add: claim_index_eq [OF assms] indexed_build filter_map comp_def)
  then show ?thesis by (simp add: claims_on_resource [OF assms])
qed

lemma reservations_indexed:
  assumes "claims_inv F"
  shows "i \<in> set (indexed (reservation_index F) res) \<longleftrightarrow>
    (\<exists>v. map_of (reservations F) i = Some v \<and> \<not> rv_released v \<and> \<not> rv_consumed v \<and> res \<in> set (rv_resources v))"
proof -
  have "i \<in> set (indexed (reservation_index F) res) \<longleftrightarrow> (res, i) \<in> set (reserved_resources (reservations F))"
    by (force simp: reservation_index_eq [OF assms] indexed_build)
  also have "\<dots> \<longleftrightarrow> (\<exists>v. (i, v) \<in> set (reservations F) \<and> \<not> rv_released v \<and> \<not> rv_consumed v \<and> res \<in> set (rv_resources v))"
    by (force simp: reserved_resources_def split: if_splits)
  finally show ?thesis using claims_invD(3) [OF assms] by (simp add: ordered_entry_iff)
qed

text \<open>The check looks at the indices; it decides about the records.\<close>

lemma conflict_check_records:
  assumes "claims_inv F"
  shows "check_claims_locked F rs channel self own = NoConflict \<longleftrightarrow>
    (\<forall>res \<in> set rs.
       (\<forall>i r. map_of (objects F) i = Some r \<longrightarrow> i \<noteq> self \<longrightarrow> holds_committed_claims r \<longrightarrow> res \<in> set (path_resources r) \<longrightarrow>
          \<not> resource_exclusive (resources F) res \<and> pd_channel (cr_path r) \<noteq> channel) \<and>
       (\<forall>i v. map_of (reservations F) i = Some v \<longrightarrow> i \<noteq> own \<longrightarrow> \<not> rv_released v \<longrightarrow> \<not> rv_consumed v \<longrightarrow>
          res \<in> set (rv_resources v) \<longrightarrow>
          \<not> resource_exclusive (resources F) res \<and>
          (\<exists>r. map_of (objects F) (rv_connectivity v) = Some r \<and> pd_channel (cr_path r) \<noteq> channel)))"
proof -
  have claimant: "(i, r) \<in> set (claimants F res) \<longleftrightarrow>
      map_of (objects F) i = Some r \<and> holds_committed_claims r \<and> res \<in> set (path_resources r)" for i r res
    using claims_invD(2) [OF assms] by (auto simp: claimants_def ordered_entry_iff)
  have id: "cr_id r = i" if "map_of (objects F) i = Some r" for i r
    using claims_invD(4) [OF assms that] by (simp add: sound_object_def)
  have "(\<forall>c \<in> set (indexed (claim_index F) res). \<not> claim_clashes ex channel self c) \<longleftrightarrow>
      (\<forall>i r. map_of (objects F) i = Some r \<longrightarrow> i \<noteq> self \<longrightarrow> holds_committed_claims r \<longrightarrow> res \<in> set (path_resources r) \<longrightarrow>
         \<not> ex \<and> pd_channel (cr_path r) \<noteq> channel)" for res ex
  proof -
    have "(\<forall>c \<in> set (indexed (claim_index F) res). \<not> claim_clashes ex channel self c) \<longleftrightarrow>
        (\<forall>i r. (i, r) \<in> set (claimants F res) \<longrightarrow> \<not> claim_clashes ex channel self (claim_on F res (i, r)))"
      by (force simp: claims_indexed [OF assms])
    then show ?thesis unfolding claimant by (simp add: claim_clashes_def claim_on_def) (metis id)
  qed
  moreover have "(\<forall>i \<in> set (indexed (reservation_index F) res). \<not> reservation_clashes F ex channel own i) \<longleftrightarrow>
      (\<forall>i v. map_of (reservations F) i = Some v \<longrightarrow> i \<noteq> own \<longrightarrow> \<not> rv_released v \<longrightarrow> \<not> rv_consumed v \<longrightarrow>
         res \<in> set (rv_resources v) \<longrightarrow> \<not> ex \<and>
         (\<exists>r. map_of (objects F) (rv_connectivity v) = Some r \<and> pd_channel (cr_path r) \<noteq> channel))" for res ex
  proof -
    have "reservation_clashes F ex channel own i \<longleftrightarrow> i \<noteq> own \<and> (ex \<or>
        \<not> (\<exists>r. map_of (objects F) (rv_connectivity v) = Some r \<and> pd_channel (cr_path r) \<noteq> channel))"
      if "map_of (reservations F) i = Some v" for i v
      using that by (auto simp: reservation_clashes_def split: option.splits)
    then show ?thesis using reservations_indexed [OF assms, of _ res] by (metis (lifting))
  qed
  ultimately show ?thesis by (simp add: check_claims_NoConflict)
qed

end
