(* ===== verification/Steps.thy ===== *)
theory Steps
  imports Checks
begin

text \<open>
  The life of a connectivity object and of a reservation as step relations. \<open>object_step\<close> has one
  rule per way a handler changes an object, with the guards of that handler that matter for the
  object; \<open>reservation_step\<close> likewise. \<open>handled\<close> is the effect of any handler on the runtime, and
  \<open>handled_plan\<close> says that whatever a handler commits consists of such steps. Invariants of
  objects and reservations are then proved by cases on the rules, once for all handlers.
\<close>

section \<open>Steps of an object\<close>

definition authorized_by :: "Fabric \<Rightarrow> AuthorityToken \<Rightarrow> ConnectivityRecord \<Rightarrow> bool" where
  "authorized_by F token r \<longleftrightarrow> require_authority_locked F token (object_scope_locked F r) = RNone"

inductive object_step :: "Fabric \<Rightarrow> ConnectivityRecord \<Rightarrow> ConnectivityRecord \<Rightarrow> bool" for F where
  validated: "cr_state old = Proposed \<Longrightarrow> healthy (assess_locked F (cr_path old) (cr_requirements old)) \<Longrightarrow>
    object_step F old ((move_object F Validated RNone attempt old)\<lparr>cr_last_refusal := RNone\<rparr>)"
| unhealthy: "cr_state old = Proposed \<Longrightarrow>
    object_step F old (unhealthy_record F attempt (assess_locked F (cr_path old) (cr_requirements old)) old)"
| reserved: "cr_state old = Validated \<Longrightarrow> authorized_by F (rsq_authority q) old \<Longrightarrow>
    object_step F old (reserved_record F q old)"
| renewed: "object_step F old (renewed_object F rq v old)"
| unreserved: "cr_state old = Reserved \<Longrightarrow> object_step F old (unreserved_object F lq old)"
| activating: "cr_state old = Reserved \<Longrightarrow> authorized_by F (acq_authority aq) old \<Longrightarrow>
    reservation_refusal F old = RNone \<Longrightarrow>
    object_step F old (activating_record F aq (assess_locked F (cr_path old) (cr_requirements old)) old)"
| activated: "cr_state old = Activating \<Longrightarrow> authorized_by F (cmq_authority cq) old \<Longrightarrow>
    healthy (assess_locked F (cr_path old) (cr_requirements old)) \<Longrightarrow>
    cr_activation_digest old \<noteq> nil_digest \<Longrightarrow> object_step F old (active_record F cq old)"
| withdrawn: "cr_state old \<noteq> Retired \<Longrightarrow> object_step F old (withdrawn_record F attempt old)"
| reported: "is_committed_state (cr_state old) \<Longrightarrow> target \<in> {Degraded, Failed} \<Longrightarrow> cr_state old \<noteq> target \<Longrightarrow>
    object_step F old (move_object F target RNone attempt old)"
| reconfirmed: "is_committed_state (cr_state old) \<Longrightarrow> authorized_by F token old \<Longrightarrow>
    healthy (assess_locked F (cr_path old) (cr_requirements old)) \<Longrightarrow>
    object_step F old (reconfirmed_record F token old)"
| unconfirmed: "is_committed_state (cr_state old) \<Longrightarrow>
    \<not> healthy (assess_locked F (cr_path old) (cr_requirements old)) \<Longrightarrow>
    object_step F old (revalidation_withdrawn F attempt code old)"

inductive_cases object_step_cases: "object_step F old new"

text \<open>What no step changes.\<close>

lemma object_step_keeps:
  assumes "object_step F old new"
  shows "cr_id new = cr_id old" "cr_path new = cr_path old" "cr_canonical new = cr_canonical old"
    "cr_requirements new = cr_requirements old" "cr_attempt_log new = cr_attempt_log old"
  using assms
  by (cases; simp add: unhealthy_record_def Let_def reserved_record_def renewed_object_def unreserved_object_def
      activating_record_def active_record_def withdrawn_record_def reconfirmed_record_def
      revalidation_withdrawn_def)+

lemma object_step_moves:
  assumes "object_step F old new"
  shows "cr_state new = cr_state old \<or> transition_allowed (cr_state old) (cr_state new) \<or>
    (cr_state old = Reserved \<and> cr_state new = Validated)"
  using assms
proof cases
  case (withdrawn attempt)
  then show ?thesis
    by (cases "cr_state old") (simp_all add: withdrawn_record_def transition_allowed_iff)
next
  case (reported target attempt)
  then show ?thesis using committed_is_activated [OF reported(2)] by (auto simp: transition_allowed_iff)
next
  case (unconfirmed attempt code)
  then show ?thesis
    using committed_is_activated [OF unconfirmed(2)]
    by (auto simp: revalidation_withdrawn_def transition_allowed_iff)
qed (auto simp: unhealthy_record_def Let_def reserved_record_def renewed_object_def unreserved_object_def
      activating_record_def active_record_def reconfirmed_record_def transition_allowed_iff)

section \<open>Steps of a reservation\<close>

inductive reservation_step :: "Fabric \<Rightarrow> ReservationView option \<Rightarrow> ReservationView \<Rightarrow> bool" for F where
  granted: "map_of (objects F) i = Some ob \<Longrightarrow> rsq_ttl_ticks q \<noteq> 0 \<Longrightarrow> rsq_ttl_ticks q \<le> max_lease_ticks F \<Longrightarrow>
    reservation_step F w (reservation_for F q ob)"
| extended: "live_at v (tick F) \<Longrightarrow> \<not> rv_consumed v \<Longrightarrow> rnq_extend_ticks rq \<noteq> 0 \<Longrightarrow>
    rnq_extend_ticks rq \<le> max_lease_ticks F \<Longrightarrow> reservation_step F (Some v) (renewed_view F rq v)"
| released: "\<not> rv_released v \<Longrightarrow> \<not> rv_consumed v \<Longrightarrow> reservation_step F (Some v) (released_view v)"
| consumed: "reservation_step F (Some v) (consumed_view v)"

inductive_cases reservation_step_cases: "reservation_step F w v"

section \<open>Handlers consist of steps\<close>

fun item_step :: "Fabric \<Rightarrow> CommitItem \<Rightarrow> bool" where
  "item_step F (ConnectivityItem u) \<longleftrightarrow> (\<exists>i old. map_of (objects F) i = Some old \<and> object_step F old u)"
| "item_step F (ReservationItem v) \<longleftrightarrow> reservation_step F (map_of (reservations F) (rv_id v)) v"
| "item_step F (AttemptItem r) \<longleftrightarrow> True"
| "item_step F _ \<longleftrightarrow> False"

definition edited :: "Fabric \<Rightarrow> Fabric \<Rightarrow> bool" where
  "edited F G \<longleftrightarrow> G = F \<or> G = count_transition F \<or>
     (\<exists>i old new. map_of (objects F) i = Some old \<and> object_step F old new \<and> cr_state new = cr_state old \<and>
        cr_activated_tick new = cr_activated_tick old \<and> G = F\<lparr>objects := map_put i new (objects F)\<rparr>)"

inductive handled :: "Fabric \<Rightarrow> Fabric \<Rightarrow> bool" for F where
  validate: "handled F (snd (validate io vq F))"
| reserve: "handled F (snd (reserve io rsq F))"
| renew_reservation: "handled F (snd (renew_reservation io rnq F))"
| release_reservation: "handled F (snd (release_reservation io rlq F))"
| begin_activation: "handled F (snd (begin_activation io acq F))"
| commit_activation: "handled F (snd (commit_activation io cmq F))"
| withdraw: "handled F (snd (withdraw io wdq F))"
| report_degraded: "handled F (snd (report_degraded io hrq F))"
| report_failed: "handled F (snd (report_failed io hrq F))"
| revalidate: "handled F (snd (revalidate io rvq F))"

definition planned :: "Fabric \<Rightarrow> 'r Decision \<Rightarrow> bool" where
  "planned F d \<longleftrightarrow>
     (\<forall>kind items G r b. d = Perform kind items G r b \<longrightarrow> (\<forall>i \<in> set items. item_step F i) \<and> edited F G)"

text \<open>Stored reservations are filed under their own identity.\<close>

definition reservation_ids :: "Fabric \<Rightarrow> bool" where
  "reservation_ids F \<longleftrightarrow> (\<forall>i v. map_of (reservations F) i = Some v \<longrightarrow> rv_id v = i)"

lemma connectivity_step:
  "map_of (objects F) i = Some old \<Longrightarrow> object_step F old u \<Longrightarrow> item_step F (ConnectivityItem u)"
  by auto

lemma edited_simps [simp]: "edited F F" "edited F (count_transition F)"
  by (simp_all add: edited_def)

lemma planned_validate: "planned F (decide_validate F q)"
  unfolding planned_def
proof (intro allI impI, elim decide_validate_Perform)
  fix items G rec updated outcome code
  assume ob: "map_of (objects F) (vq_connectivity q) = Some rec" "cr_state rec = Proposed"
    and items: "items = [ConnectivityItem updated, AttemptItem (attempt_of ''validate'' (vq_attempt q)
       (digest_validate_request q) outcome code (vq_connectivity q) 0 F)]"
    and G: "G = F \<or> G = count_transition F"
    and updated: "if healthy (assess_locked F (cr_path rec) (cr_requirements rec))
     then updated = (move_object F Validated RNone (vq_attempt q) rec)\<lparr>cr_last_refusal := RNone\<rparr> \<and>
       outcome = Applied \<and> code = RNone
     else updated = unhealthy_record F (vq_attempt q) (assess_locked F (cr_path rec) (cr_requirements rec)) rec \<and>
       outcome = Refused \<and> code = refusal_for_assessment (assess_locked F (cr_path rec) (cr_requirements rec))"
  have "object_step F rec updated"
    using ob updated validated unhealthy by (auto split: if_splits)
  then show "(\<forall>i \<in> set items. item_step F i) \<and> edited F G"
    using ob items G by (auto simp: edited_def)
qed

lemma planned_reserve: "planned F (decide_reserve F q)"
  unfolding planned_def
  by (intro allI impI, elim decide_reserve_Perform)
    (auto simp del: item_step.simps(1) simp: authorized_by_def
      intro!: granted elim!: connectivity_step intro: object_step.reserved)

lemma planned_renew:
  assumes "reservation_ids F"
  shows "planned F (decide_renew_reservation F q)"
  unfolding planned_def
proof (intro allI impI, elim decide_renew_Perform)
  fix kind items G r b v ob
  assume v: "rnq_extend_ticks q \<noteq> 0" "rnq_extend_ticks q \<le> max_lease_ticks F"
      "map_of (reservations F) (rnq_reservation q) = Some v" "\<not> rv_consumed v" "live_at v (tick F)"
    and ob: "map_of (objects F) (rv_connectivity v) = Some ob"
    and items: "items = [ReservationItem (renewed_view F q v), ConnectivityItem (renewed_object F q v ob),
       AttemptItem (attempt_of ''renew_reservation'' (rnq_attempt q) (digest_renew_request q) Applied RNone
         (rv_connectivity v) (rnq_reservation q) F)]"
    and G: "G = F\<lparr>objects := map_put (rv_connectivity v) (renewed_object F q v ob) (objects F)\<rparr>"
  have "rv_id (renewed_view F q v) = rnq_reservation q"
    using assms v(3) by (simp add: reservation_ids_def renewed_view_def)
  then have "reservation_step F (map_of (reservations F) (rv_id (renewed_view F q v))) (renewed_view F q v)"
    using v by (simp add: extended)
  moreover have "object_step F ob (renewed_object F q v ob)" by (rule renewed)
  moreover have "cr_state (renewed_object F q v ob) = cr_state ob"
    "cr_activated_tick (renewed_object F q v ob) = cr_activated_tick ob" by (simp_all add: renewed_object_def)
  ultimately show "(\<forall>i \<in> set items. item_step F i) \<and> edited F G"
    using items ob G unfolding edited_def by auto
qed

lemma planned_release:
  assumes "reservation_ids F"
  shows "planned F (decide_release_reservation F q)"
  unfolding planned_def
proof (intro allI impI, elim decide_release_Perform)
  fix kind items G r b v ob
  assume v: "map_of (reservations F) (rlq_reservation q) = Some v" "\<not> rv_released v" "\<not> rv_consumed v"
    and ob: "map_of (objects F) (rv_connectivity v) = Some ob"
    and items: "items = [ReservationItem (released_view v)] @
       (if cr_state ob = Reserved then [ConnectivityItem (unreserved_object F q ob)] else []) @
       [AttemptItem (attempt_of ''release_reservation'' (rlq_attempt q) (digest_release_request q) Applied RNone
          (rv_connectivity v) (rlq_reservation q) F)]"
    and G: "G = (if cr_state ob = Reserved then count_transition F else F)"
  have "rv_id (released_view v) = rlq_reservation q"
    using assms v(1) by (simp add: reservation_ids_def released_view_def)
  then have "reservation_step F (map_of (reservations F) (rv_id (released_view v))) (released_view v)"
    using v by (simp add: released)
  moreover have "object_step F ob (unreserved_object F q ob)" if "cr_state ob = Reserved"
    using that by (rule unreserved)
  ultimately show "(\<forall>i \<in> set items. item_step F i) \<and> edited F G"
    using items ob G by (auto simp: edited_def)
qed

lemma planned_begin: "planned F (decide_begin_activation F q)"
  unfolding planned_def
  by (intro allI impI, elim decide_begin_activation_Perform)
    (auto simp del: item_step.simps(1) simp: authorized_by_def
      elim!: connectivity_step intro: object_step.activating)

lemma consume_item_step:
  assumes "reservation_ids F" "i \<in> set (consume_items F rec)"
  shows "item_step F i"
  using assms
  by (auto simp: consume_items_def reservation_ids_def consumed_view_def consumed [unfolded consumed_view_def]
      split: option.splits if_splits)

lemma withdraw_item_step:
  assumes "reservation_ids F" "i \<in> set (withdraw_release_items F rec)"
  shows "item_step F i"
  using assms
  by (auto simp: withdraw_release_items_def reservation_ids_def released_view_def released [unfolded released_view_def]
      split: option.splits if_splits)

lemma planned_commit:
  assumes "reservation_ids F" shows "planned F (decide_commit_activation F q)"
  unfolding planned_def
proof (intro allI impI, elim decide_commit_activation_Perform)
  fix kind items G r b rec
  assume ob: "map_of (objects F) (cmq_connectivity q) = Some rec" "cr_state rec = Activating"
      "cr_activation_digest rec \<noteq> nil_digest"
      "require_authority_locked F (cmq_authority q) (object_scope_locked F rec) = RNone"
      "healthy (assess_locked F (cr_path rec) (cr_requirements rec))"
    and items: "items = [ConnectivityItem (active_record F q rec)] @ consume_items F rec @
       [AttemptItem (attempt_of ''commit_activation'' (cmq_attempt q) (digest_commit_request q) Applied RNone
          (cmq_connectivity q) (cr_reservation rec) F)]"
    and G: "G = count_transition F"
  have "object_step F rec (active_record F q rec)"
    using ob by (intro activated) (simp_all add: authorized_by_def)
  then show "(\<forall>i \<in> set items. item_step F i) \<and> edited F G"
    using ob(1) items G consume_item_step [OF assms] by (auto simp: edited_def)
qed

lemma planned_withdraw:
  assumes "reservation_ids F" shows "planned F (decide_withdraw F q)"
  unfolding planned_def
proof (intro allI impI, elim decide_withdraw_Perform)
  fix kind items G r b rec
  assume ob: "map_of (objects F) (wdq_connectivity q) = Some rec" "cr_state rec \<noteq> Retired"
    and items: "items = [ConnectivityItem (withdrawn_record F (wdq_attempt q) rec)] @ withdraw_release_items F rec @
       [AttemptItem (attempt_of ''withdraw'' (wdq_attempt q) (digest_withdrawal_request q) Applied RNone
          (wdq_connectivity q) 0 F)]"
    and G: "G = count_transition F"
  have "object_step F rec (withdrawn_record F (wdq_attempt q) rec)" using ob(2) by (rule withdrawn)
  then show "(\<forall>i \<in> set items. item_step F i) \<and> edited F G"
    using ob(1) items G withdraw_item_step [OF assms] by (auto simp: edited_def)
qed

lemma planned_health:
  "target \<in> {Degraded, Failed} \<Longrightarrow> planned F (decide_health target op F q)"
  unfolding planned_def
  by (intro allI impI, elim decide_health_Perform) 
    (auto simp del: item_step.simps(1) elim!: connectivity_step intro: object_step.reported)

lemma planned_revalidate: "planned F (decide_revalidate F q)"
  unfolding planned_def
proof (intro allI impI, elim decide_revalidate_Perform)
  fix kind items G rec updated code and r b :: RevalidationResult
  assume ob: "map_of (objects F) (rvq_connectivity q) = Some rec" "is_committed_state (cr_state rec)"
      "require_authority_locked F (rvq_authority q) (object_scope_locked F rec) = RNone"
    and items: "items = [ConnectivityItem updated, AttemptItem (attempt_of ''revalidate'' (rvq_attempt q)
       (digest_revalidation_request q) Applied code (rvq_connectivity q) 0 F)]"
    and G: "G = F \<or> G = count_transition F"
    and updated: "if healthy (assess_locked F (cr_path rec) (cr_requirements rec))
     then updated = reconfirmed_record F (rvq_authority q) rec \<and> code = RNone \<and> rw_authority_confirmed r
     else rvq_withdraw_on_failure q \<and> updated = revalidation_withdrawn F (rvq_attempt q) code rec \<and>
       code = refusal_for_assessment (assess_locked F (cr_path rec) (cr_requirements rec)) \<and>
       \<not> rw_authority_confirmed r"
  have "object_step F rec updated"
    using ob updated object_step.reconfirmed unconfirmed by (auto simp: authorized_by_def split: if_splits)
  then show "(\<forall>i \<in> set items. item_step F i) \<and> edited F G" using ob(1) items G by (auto simp: edited_def)
qed

text \<open>The effect of a handler: nothing, an attempt record, or one commit made of steps.\<close>

lemma run_planned:
  assumes "planned F d"
  obtains "snd (run_handler io refused attempt d F) = F"
  | r where "snd (run_handler io refused attempt d F) = record_attempt_locked io r F"
  | kind items G where "snd (run_handler io refused attempt d F) = snd (commit io kind items G)"
      "\<forall>i \<in> set items. item_step F i" "edited F G"
proof -
  obtain r F' where run: "run_handler io refused attempt d F = (r, F')" by fastforce
  then have F': "snd (run_handler io refused attempt d F) = F'" by simp
  from run show ?thesis
  proof (cases rule: run_handler_Applied)
    case answer
    then show ?thesis using that(1) F' by simp
  next
    case (refuse code b)
    then show ?thesis using that(2) F' by simp
  next
    case (failed kind items G g b)
    then show ?thesis using that(3) F' assms unfolding planned_def by metis
  next
    case (performed kind items G b)
    then show ?thesis using that(3) F' assms unfolding planned_def by metis
  qed
qed

lemma handled_plan:
  assumes "handled F F'" and "reservation_ids F"
  obtains "F' = F"
  | io r where "F' = record_attempt_locked io r F"
  | io kind items G where "F' = snd (commit io kind items G)" "\<forall>i \<in> set items. item_step F i" "edited F G"
  using assms(1)
proof cases
  case (validate io q)
  then show ?thesis using run_planned [OF planned_validate] that unfolding validate_def by metis
next
  case (reserve io q)
  then show ?thesis using run_planned [OF planned_reserve] that unfolding reserve_def by metis
next
  case (renew_reservation io q)
  then show ?thesis using run_planned [OF planned_renew [OF assms(2)]] that unfolding renew_reservation_def by metis
next
  case (release_reservation io q)
  then show ?thesis using run_planned [OF planned_release [OF assms(2)]] that unfolding release_reservation_def by metis
next
  case (begin_activation io q)
  then show ?thesis using run_planned [OF planned_begin] that unfolding begin_activation_def by metis
next
  case (commit_activation io q)
  then show ?thesis using run_planned [OF planned_commit [OF assms(2)]] that unfolding commit_activation_def by metis
next
  case (withdraw io q)
  then show ?thesis using run_planned [OF planned_withdraw [OF assms(2)]] that unfolding withdraw_def by metis
next
  case (report_degraded io q)
  then show ?thesis
    using run_planned [OF planned_health] that unfolding report_degraded_def apply_health_def by (metis insertI1)
next
  case (report_failed io q)
  then show ?thesis
    using run_planned [OF planned_health] that unfolding report_failed_def apply_health_def
    by (metis insertI1 insertI2)
next
  case (revalidate io q)
  then show ?thesis using run_planned [OF planned_revalidate] that unfolding revalidate_def by metis
qed

end
