(* ===== verification/Machine.thy ===== *)
theory Machine
  imports Steps
begin

text \<open>
  The runtime as a machine. \<open>activity\<close> describes the operations that never touch objects or
  reservations (clock, topology, evidence, authority), \<open>background\<close> any of them; \<open>operation\<close> is any operation of the
  runtime; a trace is the sequence of states a process has gone through, newest first, so that a
  submission can resolve its route in an older state than the one it is admitted to.
\<close>

section \<open>Operations that leave objects alone\<close>

text \<open>What an operation does when it is not a handler of an object: edits of the runtime in memory
  and commits, one after the other. \<open>edits\<close> bounds the former, \<open>allow\<close> the items of the latter.\<close>

inductive activity ::
  "(Fabric \<Rightarrow> Fabric \<Rightarrow> bool) \<Rightarrow> (Fabric \<Rightarrow> CommitItem \<Rightarrow> bool) \<Rightarrow> Fabric \<Rightarrow> Fabric \<Rightarrow> bool"
  for edits allow F where
  idle: "activity edits allow F F"
| edit: "activity edits allow F G \<Longrightarrow> edits G H \<Longrightarrow> activity edits allow F H"
| commit: "activity edits allow F G \<Longrightarrow> \<forall>i \<in> set items. allow G i \<Longrightarrow>
    activity edits allow F (snd (commit io kind items G))"

lemma activity_commit: "\<forall>i \<in> set items. allow F i \<Longrightarrow> activity edits allow F (snd (commit io kind items F))"
  by (rule activity.commit [OF activity.idle])

lemma activity_edit_commit:
  "edits F G \<Longrightarrow> \<forall>i \<in> set items. allow G i \<Longrightarrow> activity edits allow F (snd (commit io kind items G))"
  by (rule activity.commit [OF activity.edit [OF activity.idle]])

lemma activity_trans: "activity edits allow G H \<Longrightarrow> activity edits allow F G \<Longrightarrow> activity edits allow F H"
  by (induction rule: activity.induct) (auto intro: activity.intros)

lemma activity_mono:
  assumes "activity edits allow F H"
    and "\<And>G H. edits G H \<Longrightarrow> edits' G H" "\<And>G i. allow G i \<Longrightarrow> allow' G i"
  shows "activity edits' allow' F H"
  using assms(1) by (induction rule: activity.induct) (auto intro: activity.intros assms(2,3))

text \<open>Edits: nothing but clocks, flags, known resources and diagnostics; or grants only.\<close>

definition same_records :: "Fabric \<Rightarrow> Fabric \<Rightarrow> bool" where
  "same_records F G \<longleftrightarrow>
     objects G = objects F \<and> reservations G = reservations F \<and> limits G = limits F \<and>
     incarnation G = incarnation F \<and> evidence G = evidence F \<and> fences G = fences F \<and>
     attempts G = attempts F \<and> attempt_order G = attempt_order F \<and>
     dom (map_of (resources G)) = dom (map_of (resources F)) \<and>
     (length (diagnostics F) \<le> max_diagnostics (limits F) \<longrightarrow> length (diagnostics G) \<le> max_diagnostics (limits F))"

definition quiet_edit :: "Fabric \<Rightarrow> Fabric \<Rightarrow> bool" where
  "quiet_edit F G \<longleftrightarrow> same_records F G \<and> grants G = grants F"

definition runtime_item :: "Fabric \<Rightarrow> CommitItem \<Rightarrow> bool" where
  "runtime_item F i \<longleftrightarrow> (\<exists>s. i = RuntimeItem s \<and> rt_boot_sequence s = boot_sequence (incarnation F))"

definition topology_item :: "Fabric \<Rightarrow> CommitItem \<Rightarrow> bool" where
  "topology_item F i \<longleftrightarrow> runtime_item F i \<or> (\<exists>s. i = ResourceItem s)"

definition evidence_item :: "Fabric \<Rightarrow> CommitItem \<Rightarrow> bool" where
  "evidence_item F i \<longleftrightarrow> runtime_item F i \<or>
     (\<exists>r. i = EvidenceItem r \<and> ev_id r = derive_evidence_id r \<and> find_resource F (ev_subject r) \<noteq> None)"

definition authority_item :: "Fabric \<Rightarrow> CommitItem \<Rightarrow> bool" where
  "authority_item F i \<longleftrightarrow> runtime_item F i \<or>
     (\<exists>g. i = GrantItem g) \<or> (\<exists>f. i = FenceItem f) \<or> (\<exists>r. i = AttemptItem r)"

definition background_item :: "Fabric \<Rightarrow> CommitItem \<Rightarrow> bool" where
  "background_item F i \<longleftrightarrow> topology_item F i \<or> evidence_item F i \<or> authority_item F i"

abbreviation background :: "Fabric \<Rightarrow> Fabric \<Rightarrow> bool" where
  "background \<equiv> activity same_records background_item"

lemma runtime_state_boot [simp]: "rt_boot_sequence (runtime_state F g t) = boot_sequence (incarnation F)"
  by (simp add: runtime_state_def)

lemma runtime_item_state [simp]:
  "boot_sequence (incarnation G) = boot_sequence (incarnation F) \<Longrightarrow> runtime_item F (RuntimeItem (runtime_state G g t))"
  by (simp add: runtime_item_def)

lemma runtime_item_Runtime [simp]:
  "runtime_item F (RuntimeItem s) \<longleftrightarrow> rt_boot_sequence s = boot_sequence (incarnation F)"
  by (simp add: runtime_item_def)

lemma quiet_edit_refl [simp]: "quiet_edit F F"
  by (simp add: quiet_edit_def same_records_def)

lemma topology_background:
  "activity quiet_edit topology_item F G \<Longrightarrow> background F G"
  "activity quiet_edit evidence_item F G \<Longrightarrow> background F G"
  "activity same_records authority_item F G \<Longrightarrow> background F G"
  by (erule activity_mono; simp add: quiet_edit_def background_item_def)+

subsection \<open>Clock and topology\<close>

lemma advance_tick_activity: "activity quiet_edit topology_item F (snd (advance_tick io delta F))"
proof -
  have "activity quiet_edit topology_item F (snd (commit io RkRuntimeState
      [RuntimeItem (runtime_state (F\<lparr>tick := t, generation := g\<rparr>) a b)] (F\<lparr>tick := t, generation := g\<rparr>)))" for t g a b
    by (rule activity_edit_commit) (simp_all add: quiet_edit_def same_records_def topology_item_def)
  then show ?thesis by (simp add: advance_tick_def Let_def case_prod_beta activity.idle)
qed

lemma close_activity: "activity quiet_edit topology_item F (snd (close_fabric synced F))"
  by (auto simp: close_fabric_def quiet_edit_def same_records_def intro: activity.idle activity.edit [OF activity.idle])

lemma register_activity: "activity quiet_edit topology_item F (snd (register_resource_locked io s n lim owner F))"
proof -
  have "activity quiet_edit topology_item F (snd (commit io RkTopologyRegistered (register_items F s' owner) F))" for s'
    by (rule activity_commit) (auto simp: register_items_def owner_update_def topology_item_def split: option.splits)
  then show ?thesis
    by (simp add: register_resource_locked_def Let_def case_prod_beta activity.idle split: option.splits)
qed

lemma link_activity: "activity quiet_edit topology_item F (link_related_locked io owner m F)"
proof -
  have "activity quiet_edit topology_item F (snd (commit io RkTopologyRegistered [ResourceItem s] (F\<lparr>resources := rs\<rparr>)))"
    if "dom (map_of rs) = dom (map_of (resources F))" for s rs
    by (rule activity_edit_commit) (simp_all add: quiet_edit_def same_records_def topology_item_def that)
  moreover have "dom (map_of (map_put owner v (resources F))) = dom (map_of (resources F))"
    if "map_of (resources F) owner = Some v'" for v v'
    using that by (auto split: if_splits)
  ultimately show ?thesis
    by (simp add: link_related_locked_def Let_def find_resource_def activity.idle split: option.splits)
qed

lemma registration_activity:
  "activity quiet_edit topology_item F (snd (register_site io site F))"
  "activity quiet_edit topology_item F (snd (register_optical_node io node F))"
  "activity quiet_edit topology_item F (snd (register_port io port F))"
  "activity quiet_edit topology_item F (snd (register_span io io' span F))"
  "activity quiet_edit topology_item F (snd (register_line_system io line F))"
  "activity quiet_edit topology_item F (snd (register_cross_connect io xc F))"
  "activity quiet_edit topology_item F (snd (register_channel io ch F))"
  by (auto simp: register_site_def register_optical_node_def register_port_def register_span_def
      register_line_system_def register_cross_connect_def register_channel_def Let_def case_prod_beta
      intro: activity.idle register_activity activity_trans [OF link_activity] split: option.splits)

lemma source_activity: "activity quiet_edit topology_item F (register_evidence_source d F)"
proof -
  have "quiet_edit F (register_evidence_source d F)"
    by (auto simp: register_evidence_source_def quiet_edit_def same_records_def note_diagnostic_def Let_def)
  then show ?thesis by (rule activity.edit [OF activity.idle])
qed

lemmas topology_activity = advance_tick_activity close_activity registration_activity source_activity

subsection \<open>Evidence\<close>

lemma ingest_locked_activity: "activity quiet_edit evidence_item F (snd (ingest_evidence_locked io r F))"
proof -
  have "activity quiet_edit evidence_item F (snd (commit io RkEvidenceIngested
      [EvidenceItem e, RuntimeItem (runtime_state F g t)] F))"
    if "ev_id e = derive_evidence_id e" "find_resource F (ev_subject e) \<noteq> None" for e g t
    by (rule activity_commit) (use that in \<open>auto simp: evidence_item_def\<close>)
  then show ?thesis
    by (auto simp: ingest_evidence_locked_def stamp_evidence_def derive_evidence_id_def Let_def case_prod_beta
        activity.idle split: option.splits)
qed

lemma ingest_all_activity: "activity quiet_edit evidence_item F (snd (ingest_all ios b rs n F))"
proof (induction rs arbitrary: n F)
  case (Cons r rs)
  then show ?case
    by (auto simp: Let_def case_prod_beta ingest_locked_activity
        intro: activity_trans [OF Cons.IH] split: sum.splits)
qed (simp add: activity.idle)

lemma evidence_activity:
  "activity quiet_edit evidence_item F (snd (ingest_evidence io r F))"
  "activity quiet_edit evidence_item F (snd (ingest_bundle ios b F))"
  "activity quiet_edit evidence_item F (snd (refresh_from_source ios src polled desc F0 F))"
  by (auto simp: ingest_evidence_def ingest_bundle_def refresh_from_source_def activity.idle
      ingest_locked_activity ingest_all_activity split: option.splits sum.splits)

subsection \<open>Authority\<close>

lemma acquire_activity: "activity same_records authority_item F (snd (acquire_authority io q F))"
proof -
  have "\<forall>i \<in> set (acquire_items F q). authority_item (F\<lparr>grants := g\<rparr>) i" for g
    by (auto simp: acquire_items_def fence_items_def authority_item_def)
  then have "activity same_records authority_item F
      (snd (commit io RkAuthorityGranted (acquire_items F q) (F\<lparr>grants := g\<rparr>)))" for g
    by (intro activity_edit_commit) (simp_all add: same_records_def)
  then show ?thesis by (simp add: acquire_authority_def Let_def case_prod_beta activity.idle)
qed

lemma fence_activity: "activity same_records authority_item F (snd (fence io q F))"
  using acquire_activity [of F io] by (simp add: fence_def Let_def case_prod_beta split: option.splits)

lemma renew_activity: "activity same_records authority_item F (snd (renew_authority io q F))"
proof -
  have "activity same_records authority_item F (snd (commit io RkAuthorityGranted [GrantItem g, AttemptItem r] F))" for g r
    by (rule activity_commit) (simp add: authority_item_def)
  then show ?thesis
    by (simp add: renew_authority_def Let_def case_prod_beta activity.idle split: option.splits)
qed

lemmas authority_activity = acquire_activity fence_activity renew_activity

lemmas background_ops =
  topology_activity [THEN topology_background(1)] evidence_activity [THEN topology_background(2)]
  authority_activity [THEN topology_background(3)]

section \<open>All operations\<close>

inductive operation :: "Fabric \<Rightarrow> Fabric \<Rightarrow> bool" for F where
  handler: "handled F F' \<Longrightarrow> operation F F'"
| advance_tick: "operation F (snd (advance_tick io delta F))"
| close: "operation F (snd (close_fabric synced F))"
| register_site: "operation F (snd (register_site io site F))"
| register_optical_node: "operation F (snd (register_optical_node io node F))"
| register_port: "operation F (snd (register_port io port F))"
| register_span: "operation F (snd (register_span io io' span F))"
| register_line_system: "operation F (snd (register_line_system io line F))"
| register_cross_connect: "operation F (snd (register_cross_connect io xc F))"
| register_channel: "operation F (snd (register_channel io ch F))"
| ingest_evidence: "operation F (snd (ingest_evidence io r F))"
| ingest_bundle: "operation F (snd (ingest_bundle ios b F))"
| refresh_from_source: "operation F (snd (refresh_from_source ios src polled desc F0 F))"
| register_evidence_source: "operation F (register_evidence_source d F)"
| acquire_authority: "operation F (snd (acquire_authority io aq F))"
| renew_authority: "operation F (snd (renew_authority io aq F))"
| fence: "operation F (snd (fence io fq F))"

lemma operation_background:
  "operation F F' \<Longrightarrow> handled F F' \<or> background F F'"
  by (cases rule: operation.cases) (auto simp: background_ops)

lemma handled_live: "handled F F' \<Longrightarrow> live_inv K F \<Longrightarrow> live_inv K F'"
  by (cases rule: handled.cases) (auto intro: inv_intro)

lemma operation_live: "operation F F' \<Longrightarrow> live_inv K F \<Longrightarrow> live_inv K F'"
  by (cases rule: operation.cases) (auto intro: handled_live inv_intro)

inductive trace_step :: "Fabric list \<Rightarrow> Fabric list \<Rightarrow> bool" where
  operate: "operation F F' \<Longrightarrow> trace_step (F # hs) (F' # F # hs)"
| submit: "F0 \<in> set (F # hs) \<Longrightarrow> F1 \<in> set (F # hs) \<Longrightarrow>
    trace_step (F # hs) (snd (submit_intent io planner F0 F1 it F) # F # hs)"

text \<open>A process starts on an empty store or in memory: \<open>construct\<close> with nothing to replay.\<close>

definition fresh_start :: "Fabric list \<Rightarrow> bool" where
  "fresh_start hs \<longleftrightarrow> (\<exists>io inst op F. construct io inst op Ok [] = Inr F \<and> hs = [F])"

section \<open>The claims invariant in every reachable state\<close>

definition trace_inv :: "Fabric list \<Rightarrow> bool" where
  "trace_inv hs \<longleftrightarrow> hs \<noteq> [] \<and> (\<forall>G \<in> set hs. claims_inv G \<and>
     dom (map_of (resources G)) \<subseteq> dom (map_of (resources (hd hs))))"

lemma live_inv_self: "claims_inv F \<Longrightarrow> live_inv (dom (map_of (resources F))) F"
  by (simp add: live_inv_def)

lemma trace_inv_cons:
  assumes "trace_inv (F # hs)" "live_inv (dom (map_of (resources F))) F'"
  shows "trace_inv (F' # F # hs)"
  using assms unfolding trace_inv_def live_inv_def by simp (meson subset_trans)

lemma trace_inv_step:
  assumes "trace_inv hs" "trace_step hs hs'"
  shows "trace_inv hs'"
  using assms(2,1)
proof cases
  case (operate F F' rest)
  have "claims_inv F" using assms(1) operate(1) by (simp add: trace_inv_def)
  from operation_live [OF operate(3) live_inv_self [OF this]]
  show ?thesis using trace_inv_cons assms(1) operate by simp
next
  case (submit F0 F rest F1 io planner it)
  let ?K = "dom (map_of (resources F))"
  have inv: "claims_inv F" "claims_inv F0" "dom (map_of (resources F0)) \<subseteq> ?K" "dom (map_of (resources F1)) \<subseteq> ?K"
    using assms(1) submit by (auto simp: trace_inv_def)
  have "live_inv ?K (snd (submit_intent io planner F0 F1 it F))"
    using inv claims_invD(1) [OF inv(2)] by (intro submit_intent_inv live_inv_self)
  then show ?thesis using trace_inv_cons assms(1) submit by simp
qed

text \<open>The constructor on an empty store: the recovery bundle holds the runtime record only.\<close>

lemma recovery_of_nothing:
  assumes "objects F = []" "grants F = []" "reservations F = []"
  shows "recovery_items recovered F = [RuntimeItem (runtime_state F (generation F) (topology_generation F))]"
    "recovery_prepared recovered F = rebuild_indices F"
proof -
  have "F\<lparr>grants := grants F, objects := objects F\<rparr> = F" by simp
  then have same: "F\<lparr>grants := [], objects := []\<rparr> = F" by (simp only: assms)
  have "recovery_prepared recovered F = rebuild_indices (F\<lparr>grants := [], objects := []\<rparr>)"
    using assms by (simp add: recovery_prepared_def recovery_epoch_def recovery_fences_def count_changes_def Let_def)
  then show "recovery_prepared recovered F = rebuild_indices F" by (simp only: same)
  show "recovery_items recovered F = [RuntimeItem (runtime_state F (generation F) (topology_generation F))]"
    using assms
    by (simp add: recovery_items_def recovery_epoch_def recovery_grant_items_def recovery_object_items_def Let_def)
qed

lemma claims_inv_empty:
  assumes "objects F = []" "resources F = []" "reservations F = []"
  shows "claims_inv (rebuild_indices F)"
  by (rule claims_inv_rebuild) (simp add: claims_core_def compatible_def assms)

lemma fresh_construct:
  assumes "construct io inst op Ok [] = Inr F"
  obtains G s where "F = snd (write_checkpoint io (snd (commit io RkRuntimeState [RuntimeItem s] (rebuild_indices G))))
      \<or> F = (snd (commit io RkRuntimeState [RuntimeItem s] (rebuild_indices G)))\<lparr>store_open := False, closed := True\<rparr>
      \<or> F = (snd (write_checkpoint io (snd (commit io RkRuntimeState [RuntimeItem s] (rebuild_indices G)))))\<lparr>closed := True\<rparr>"
    "objects G = []" "resources G = []" "reservations G = []" "grants G = []" "evidence G = []"
    "fences G = []" "attempts G = []" "attempt_order G = []" "diagnostics G = []" "limits G = op_limits op" "generation G = 1"
    "topology_generation G = 1" "epoch G = 0" "tick G \<noteq> 0" "boot_sequence (incarnation G) = 1"
    "s = runtime_state G 1 1" "limits_validate (op_limits op) = Ok"
proof -
  define G where "G = next_incarnation inst (op_host_label op)
      (start_counters ((initial_fabric op)\<lparr>store_open := True, journal := []\<rparr>))"
  have G: "objects G = []" "resources G = []" "reservations G = []" "grants G = []" "evidence G = []"
    "fences G = []" "attempts G = []" "attempt_order G = []" "diagnostics G = []" "limits G = op_limits op"
    "generation G = 1" "topology_generation G = 1" "epoch G = 0" "tick G \<noteq> 0" "boot_sequence (incarnation G) = 1"
    by (simp_all add: G_def next_incarnation_def start_counters_def initial_fabric_def nil_incarnation_def)
  have mark: "mark_recovery_conservative io prev G =
      commit io RkRuntimeState [RuntimeItem (runtime_state G 1 1)] (rebuild_indices G)" for prev
    using G by (simp add: mark_recovery_conservative_def recovery_of_nothing)
  have "open_and_recover io inst op Ok [] =
      (let (conservative, F3) = commit io RkRuntimeState [RuntimeItem (runtime_state G 1 1)] (rebuild_indices G)
       in if conservative \<noteq> Ok then (conservative, F3\<lparr>store_open := False\<rparr>) else write_checkpoint io F3)"
    by (simp add: open_and_recover_def Let_def G_def [symmetric] mark)
  then have "F = snd (write_checkpoint io (snd (commit io RkRuntimeState [RuntimeItem (runtime_state G 1 1)] (rebuild_indices G))))
      \<or> F = (snd (commit io RkRuntimeState [RuntimeItem (runtime_state G 1 1)] (rebuild_indices G)))\<lparr>store_open := False, closed := True\<rparr>
      \<or> F = (snd (write_checkpoint io (snd (commit io RkRuntimeState [RuntimeItem (runtime_state G 1 1)] (rebuild_indices G)))))\<lparr>closed := True\<rparr>"
    using assms by (simp add: construct_def Let_def case_prod_beta split: if_splits)
  moreover have "limits_validate (op_limits op) = Ok"
    using assms by (simp add: construct_def Let_def split: if_splits)
  ultimately show ?thesis using that G by blast
qed

lemma fresh_claims:
  assumes "construct io inst op Ok [] = Inr F"
  shows "claims_inv F"
proof -
  obtain G s where F: "F = snd (write_checkpoint io (snd (commit io RkRuntimeState [RuntimeItem s] (rebuild_indices G))))
      \<or> F = (snd (commit io RkRuntimeState [RuntimeItem s] (rebuild_indices G)))\<lparr>store_open := False, closed := True\<rparr>
      \<or> F = (snd (write_checkpoint io (snd (commit io RkRuntimeState [RuntimeItem s] (rebuild_indices G)))))\<lparr>closed := True\<rparr>"
    and G: "objects G = []" "resources G = []" "reservations G = []"
    by (rule fresh_construct [OF assms])
  let ?C = "snd (commit io RkRuntimeState [RuntimeItem s] (rebuild_indices G))"
  have C: "claims_inv ?C"
    by (rule claims.commit_inv) (simp_all add: claims_inv_empty G)
  then have W: "claims_inv (snd (write_checkpoint io ?C))" by (rule claims.write_checkpoint_inv)
  have "claims_inv (?C\<lparr>store_open := False, closed := True\<rparr>)"
    using C claims_inv_cong [of "?C\<lparr>store_open := False, closed := True\<rparr>" ?C] by simp
  moreover have "claims_inv ((snd (write_checkpoint io ?C))\<lparr>closed := True\<rparr>)"
    using W claims_inv_cong [of "(snd (write_checkpoint io ?C))\<lparr>closed := True\<rparr>" "snd (write_checkpoint io ?C)"] by simp
  ultimately show ?thesis using F W by metis
qed

interpretation runtime: safe_machine fresh_start trace_step trace_inv
proof
  show "trace_inv hs" if "fresh_start hs" for hs
    using that fresh_claims by (auto simp: fresh_start_def trace_inv_def)
  show "trace_inv hs \<Longrightarrow> trace_step hs hs' \<Longrightarrow> trace_inv hs'" for hs hs'
    by (rule trace_inv_step)
qed

lemma reachable_claims:
  assumes "reach fresh_start trace_step hs"
  shows "claims_inv (hd hs)"
proof -
  have "trace_inv hs" using assms by (rule runtime.reach_inv)
  then show ?thesis by (cases hs) (simp_all add: trace_inv_def)
qed

end
