(* ===== verification/Invariants.thy ===== *)
theory Invariants
  imports Machine
begin

text \<open>
  Invariants of single records. \<open>stable_invariant\<close> extends the commit contract to invariants whose
  item conditions survive the items before them, and carries them through activities and handlers.
  \<open>object_invariant\<close> is the contract of a property of connectivity objects: it holds of a new
  proposal, every step keeps it, and so does being written to and read back from the journal; the
  locale then gives it for every reachable state. The interpretations are the checks of
  \<open>verify_invariants\<close> on pending activations and confirmations, and the moves that histories record.
\<close>

abbreviation boot :: "Fabric \<Rightarrow> u64" where
  "boot F \<equiv> boot_sequence (incarnation F)"

section \<open>Invariants with stable item conditions\<close>

lemma all_ok_stable:
  assumes "\<forall>i \<in> set items. ok i F"
    and "\<And>i j G. ok i G \<Longrightarrow> ok j G \<Longrightarrow> ok j (snd (apply_item i G))"
  shows "all_ok ok items F"
  using assms(1) by (induction items arbitrary: F) (auto intro: assms(2))

lemma edited_cases:
  assumes "edited F G"
  obtains (same) "G = F" | (counted) "G = count_transition F"
  | (rewritten) i old new where "map_of (objects F) i = Some old" "object_step F old new"
      "cr_state new = cr_state old" "cr_activated_tick new = cr_activated_tick old"
      "G = F\<lparr>objects := map_put i new (objects F)\<rparr>"
  using assms by (auto simp: edited_def)

definition blank_runtime :: "Fabric \<Rightarrow> bool" where
  "blank_runtime G \<longleftrightarrow>
     objects G = [] \<and> resources G = [] \<and> reservations G = [] \<and> grants G = [] \<and> evidence G = [] \<and>
     fences G = [] \<and> attempts G = [] \<and> attempt_order G = [] \<and> diagnostics G = [] \<and>
     limits_validate (limits G) = Ok"

locale stable_invariant = commit_invariant inv ok
  for inv :: "Fabric \<Rightarrow> bool" and ok :: "CommitItem \<Rightarrow> Fabric \<Rightarrow> bool" +
  assumes ok_stable: "ok i F \<Longrightarrow> ok j F \<Longrightarrow> ok j (snd (apply_item i F))"
begin

lemma commit_items_inv: "inv F \<Longrightarrow> \<forall>i \<in> set items. ok i F \<Longrightarrow> inv (snd (commit io kind items F))"
  by (blast intro: commit_inv all_ok_stable ok_stable)

lemma activity_inv:
  assumes "activity edits allow F F'" "inv F"
    and "\<And>G H. edits G H \<Longrightarrow> inv G \<Longrightarrow> inv H"
    and "\<And>G i. allow G i \<Longrightarrow> inv G \<Longrightarrow> ok i G"
  shows "inv F'"
  using assms(1,2) by induction (auto intro: commit_items_inv assms(3,4))

lemma fresh_inv:
  assumes "construct io inst op Ok [] = Inr F"
    and start: "\<And>G. blank_runtime G \<Longrightarrow> inv (rebuild_indices G)"
    and runtime: "\<And>G g t. ok (RuntimeItem (runtime_state G g t)) (rebuild_indices G)"
    and flags: "\<And>G a b. inv (G\<lparr>store_open := a, closed := b\<rparr>) = inv G"
  shows "inv F"
proof -
  obtain G where F: "F = snd (write_checkpoint io (snd (commit io RkRuntimeState [RuntimeItem (runtime_state G 1 1)] (rebuild_indices G))))
      \<or> F = (snd (commit io RkRuntimeState [RuntimeItem (runtime_state G 1 1)] (rebuild_indices G)))\<lparr>store_open := False, closed := True\<rparr>
      \<or> F = (snd (write_checkpoint io (snd (commit io RkRuntimeState [RuntimeItem (runtime_state G 1 1)] (rebuild_indices G)))))\<lparr>closed := True\<rparr>"
    and G: "blank_runtime G"
    by (rule fresh_construct [OF assms(1)]) (simp add: blank_runtime_def)
  let ?C = "snd (commit io RkRuntimeState [RuntimeItem (runtime_state G 1 1)] (rebuild_indices G))"
  have C: "inv ?C" using start [OF G] runtime by (intro commit_items_inv) simp_all
  then have W: "inv (snd (write_checkpoint io ?C))" by (rule write_checkpoint_inv)
  have closed: "H\<lparr>closed := True\<rparr> = H\<lparr>store_open := store_open H, closed := True\<rparr>" for H :: Fabric by simp
  have "inv (?C\<lparr>store_open := False, closed := True\<rparr>)" using C flags by blast
  moreover have "inv ((snd (write_checkpoint io ?C))\<lparr>closed := True\<rparr>)" using W flags by (metis closed)
  ultimately show ?thesis using F W by metis
qed

lemma handled_inv:
  assumes "handled F F'" "reservation_ids F" "inv F"
    and "\<And>G. edited F G \<Longrightarrow> inv G" "\<And>G i. edited F G \<Longrightarrow> item_step F i \<Longrightarrow> ok i G"
  shows "inv F'"
  using assms(1,2)
proof (cases rule: handled_plan)
  case 1
  then show ?thesis using assms(3) by simp
next
  case (2 io r)
  then show ?thesis using assms(3) by (simp add: record_attempt_inv)
next
  case (3 io kind items G)
  then show ?thesis using assms(4,5) by (simp add: commit_items_inv)
qed

end

section \<open>Properties of connectivity objects\<close>

definition every_object :: "(Limits \<Rightarrow> u64 \<Rightarrow> ConnectivityRecord \<Rightarrow> bool) \<Rightarrow> Fabric \<Rightarrow> bool" where
  "every_object P F \<longleftrightarrow> (\<forall>e \<in> set (objects F). P (limits F) (boot F) (snd e))"

fun object_item :: "(Limits \<Rightarrow> u64 \<Rightarrow> ConnectivityRecord \<Rightarrow> bool) \<Rightarrow> CommitItem \<Rightarrow> Fabric \<Rightarrow> bool" where
  "object_item P (ConnectivityItem r) F \<longleftrightarrow> P (limits F) (boot F) r"
| "object_item P (RuntimeItem s) F \<longleftrightarrow> rt_boot_sequence s = boot F"
| "object_item P _ F \<longleftrightarrow> True"

lemma set_map_put: "set (map_put k v m) \<subseteq> insert (k, v) (set m)"
  by (induction m) auto

lemma every_object_put:
  "every_object P F \<Longrightarrow> P (limits F) (boot F) r \<Longrightarrow> every_object P (F\<lparr>objects := map_put k r (objects F)\<rparr>)"
  using set_map_put [of k r "objects F"] by (auto simp: every_object_def)

lemma every_object_cong:
  "objects G = objects F \<Longrightarrow> limits G = limits F \<Longrightarrow> boot G = boot F \<Longrightarrow> every_object P G = every_object P F"
  by (simp add: every_object_def)

lemma every_object_find:
  "every_object P F \<Longrightarrow> map_of (objects F) i = Some r \<Longrightarrow> P (limits F) (boot F) r"
  by (force simp: every_object_def dest: map_of_SomeD)

lemma note_diagnostic_keeps [simp]:
  "objects (note_diagnostic d F) = objects F" "limits (note_diagnostic d F) = limits F"
  "incarnation (note_diagnostic d F) = incarnation F" "reservations (note_diagnostic d F) = reservations F"
  "grants (note_diagnostic d F) = grants F" "evidence (note_diagnostic d F) = evidence F"
  "resources (note_diagnostic d F) = resources F"
  by (simp_all add: note_diagnostic_def Let_def)

lemma store_attempt_keeps [simp]:
  "objects (store_attempt r F) = objects F" "limits (store_attempt r F) = limits F"
  "incarnation (store_attempt r F) = incarnation F" "reservations (store_attempt r F) = reservations F"
  "grants (store_attempt r F) = grants F" "evidence (store_attempt r F) = evidence F"
  "resources (store_attempt r F) = resources F"
  by (simp_all add: store_attempt_def Let_def)

lemma rebuild_indices_keeps [simp]:
  "objects (rebuild_indices F) = objects F" "limits (rebuild_indices F) = limits F"
  "incarnation (rebuild_indices F) = incarnation F" "reservations (rebuild_indices F) = reservations F"
  "grants (rebuild_indices F) = grants F" "evidence (rebuild_indices F) = evidence F"
  "resources (rebuild_indices F) = resources F"
  by (simp_all add: rebuild_indices_def)

locale object_invariant =
  fixes P :: "Limits \<Rightarrow> u64 \<Rightarrow> ConnectivityRecord \<Rightarrow> bool"
  assumes step: "object_step F old new \<Longrightarrow> limits_validate (limits F) = Ok \<Longrightarrow> P (limits F) (boot F) old \<Longrightarrow>
      P (limits F) (boot F) new"
    and reload: "reload_connectivity lim r = Some r' \<Longrightarrow> P lim b r \<Longrightarrow> P lim b r'"
    and proposed: "limits_validate (limits F) = Ok \<Longrightarrow> P (limits F) b (proposed_record F it path canonical)"
begin

lemma apply_object_item:
  assumes "every_object P F" "object_item P i F"
  shows "every_object P (snd (apply_item i F))"
proof (cases i)
  case (ConnectivityItem r)
  show ?thesis
  proof (cases "reload_connectivity (limits F) r")
    case (Some r')
    then have "every_object P (F\<lparr>objects := map_put (cr_id r') r' (objects F)\<rparr>)"
      using assms ConnectivityItem reload by (intro every_object_put) auto
    then show ?thesis
      using Some ConnectivityItem by (simp add: apply_item.simps every_object_def)
  qed (use assms ConnectivityItem in \<open>simp add: apply_item.simps\<close>)
qed (use assms in \<open>auto simp: apply_item.simps every_object_def Let_def split: option.splits\<close>)

lemma object_item_stable:
  "object_item P i F \<Longrightarrow> object_item P j F \<Longrightarrow> object_item P j (snd (apply_item i F))"
  by (cases i; cases j) (auto simp: apply_item.simps Let_def split: option.splits)

end

sublocale object_invariant \<subseteq> objects: stable_invariant "every_object P" "object_item P"
proof
  show "every_object P (F\<lparr>journal := j\<rparr>) = every_object P F" for F j by (rule every_object_cong) simp_all
  show "every_object P (F\<lparr>persistence_failed := b\<rparr>) = every_object P F" for F b by (rule every_object_cong) simp_all
  show "every_object P F \<Longrightarrow> every_object P (note_diagnostic d F)" for F d by (simp add: every_object_def)
qed (simp_all add: apply_object_item object_item_stable)

context object_invariant
begin

lemma background_object:
  assumes "background F F'" "every_object P F"
  shows "every_object P F'"
  using assms
  by (rule objects.activity_inv)
    (auto simp: same_records_def every_object_def background_item_def topology_item_def evidence_item_def
      authority_item_def runtime_item_def)

lemma edited_object:
  assumes "edited F G" "every_object P F" "limits_validate (limits F) = Ok"
  shows "every_object P G \<and> limits G = limits F \<and> boot G = boot F"
  using assms(1)
proof (cases rule: edited_cases)
  case (rewritten i old new)
  then show ?thesis
    using every_object_put [OF assms(2)] step [OF _ assms(3)] every_object_find [OF assms(2)] by auto
qed (use assms(2) in \<open>auto simp: count_transition_def every_object_def\<close>)

lemma handled_object:
  assumes "handled F F'" "reservation_ids F" "every_object P F" "limits_validate (limits F) = Ok"
  shows "every_object P F'"
  using assms(1-3)
proof (rule objects.handled_inv)
  fix G i
  assume G: "edited F G" and i: "item_step F i"
  then show "object_item P i G"
    using edited_object [OF G assms(3,4)] step [OF _ assms(4)] every_object_find [OF assms(3)] by (cases i) auto
qed (use edited_object assms(3,4) in blast)

lemma submit_object:
  assumes "every_object P F" "limits_validate (limits F) = Ok"
  shows "every_object P (snd (submit_intent io planner F0 F1 it F))"
proof -
  have "every_object P (snd (commit io RkConnectivityTransition [ConnectivityItem (proposed_record F it path canonical),
      RuntimeItem (runtime_state F g t)] F))" for path canonical g t
    using assms proposed by (intro objects.commit_items_inv) auto
  then show ?thesis
    using assms(1)
    by (simp add: submit_intent_def admit_intent_def Let_def case_prod_beta split: sum.splits option.splits)
qed

lemma fresh_object:
  assumes "construct io inst op Ok [] = Inr F"
  shows "every_object P F"
  using assms
  by (rule objects.fresh_inv) (simp_all add: blank_runtime_def every_object_def)

end

lemma claims_inv_reservation_ids: "claims_inv F \<Longrightarrow> reservation_ids F"
  by (auto simp: reservation_ids_def dest: claims_invD)

section \<open>Limits\<close>

definition valid_limits :: "Fabric \<Rightarrow> bool" where
  "valid_limits F \<longleftrightarrow> limits_validate (limits F) = Ok"

interpretation valid: stable_invariant valid_limits "\<lambda>i F. True"
  by unfold_locales (simp_all add: valid_limits_def)

lemma edited_keeps:
  assumes "edited F G"
  shows "limits G = limits F" "incarnation G = incarnation F" "grants G = grants F" "evidence G = evidence F"
    "resources G = resources F" "reservations G = reservations F" "fences G = fences F"
    "attempts G = attempts F" "attempt_order G = attempt_order F" "diagnostics G = diagnostics F"
  using assms by (cases rule: edited_cases; simp add: count_transition_def)+

lemma operation_valid:
  assumes "operation F F'" "reservation_ids F" "valid_limits F"
  shows "valid_limits F'"
  using operation_background [OF assms(1)]
proof
  assume "handled F F'"
  then show ?thesis using assms(2,3) by (rule valid.handled_inv) (use assms(3) in \<open>auto simp: valid_limits_def edited_keeps\<close>)
next
  assume "background F F'"
  then show ?thesis using assms(3) by (rule valid.activity_inv) (simp_all add: valid_limits_def same_records_def)
qed

lemma submit_valid: "valid_limits F \<Longrightarrow> valid_limits (snd (submit_intent io planner F0 F1 it F))"
  by (simp add: submit_intent_def admit_intent_def Let_def case_prod_beta valid.commit_items_inv
      split: sum.splits option.splits)

section \<open>Reachable states\<close>

text \<open>Any invariant of the newest state that operations and submissions keep.\<close>

locale runtime_invariant =
  fixes inv :: "Fabric \<Rightarrow> bool"
  assumes start_inv: "construct io inst op Ok [] = Inr F \<Longrightarrow> inv F"
    and operation_inv: "operation F F' \<Longrightarrow> claims_inv F \<Longrightarrow> valid_limits F \<Longrightarrow> inv F \<Longrightarrow> inv F'"
    and submit_inv: "claims_inv F \<Longrightarrow> valid_limits F \<Longrightarrow> inv F \<Longrightarrow> inv (snd (submit_intent io planner F0 F1 it F))"
begin

lemma reachable: "reach fresh_start trace_step hs \<Longrightarrow> inv (hd hs) \<and> valid_limits (hd hs)"
proof (induction rule: reach.induct)
  case (reach_start s)
  then show ?case
    using start_inv valid.fresh_inv by (auto simp: fresh_start_def valid_limits_def blank_runtime_def)
next
  case (reach_step s t)
  have c: "claims_inv (hd s)" using reach_step(1) by (rule reachable_claims)
  from reach_step(2) show ?case
  proof cases
    case (operate F F' hs)
    then show ?thesis
      using c reach_step.IH operation_inv operation_valid claims_inv_reservation_ids by auto
  next
    case (submit F0 F hs F1 io planner it)
    then show ?thesis using c reach_step.IH submit_inv submit_valid by auto
  qed
qed

end

sublocale object_invariant \<subseteq> run: runtime_invariant "every_object P"
proof
  show "every_object P F'" if "operation F F'" "claims_inv F" "valid_limits F" "every_object P F" for F F'
    using operation_background [OF that(1)] that
    by (auto simp: valid_limits_def intro: background_object handled_object claims_inv_reservation_ids)
qed (auto simp: valid_limits_def intro: fresh_object submit_object)

section \<open>Pending activations, confirmations and histories\<close>

definition pending_digest :: "Limits \<Rightarrow> u64 \<Rightarrow> ConnectivityRecord \<Rightarrow> bool" where
  "pending_digest lim b r \<longleftrightarrow> (cr_state r \<noteq> Activating \<longrightarrow> cr_activation_digest r = nil_digest)"

definition confirmed_by_boot :: "Limits \<Rightarrow> u64 \<Rightarrow> ConnectivityRecord \<Rightarrow> bool" where
  "confirmed_by_boot lim b r \<longleftrightarrow>
     (cr_authority_confirmed r \<longrightarrow> boot_sequence (tok_incarnation (cr_authority r)) = b)"

text \<open>The moves the handlers make: those of the transition table, the release of a reservation, and
  the record of the proposal itself.\<close>

definition lawful_move :: "TransitionRecord \<Rightarrow> bool" where
  "lawful_move t \<longleftrightarrow> transition_allowed (tr_from t) (tr_to t) \<or>
     (tr_from t = Reserved \<and> tr_to t = Validated) \<or> (tr_from t = Proposed \<and> tr_to t = Proposed)"

definition lawful_history :: "Limits \<Rightarrow> u64 \<Rightarrow> ConnectivityRecord \<Rightarrow> bool" where
  "lawful_history lim b r \<longleftrightarrow>
     cr_history r \<noteq> [] \<and> tr_to (last (cr_history r)) = cr_state r \<and>
     successively (\<lambda>t u. tr_to t = tr_from u) (cr_history r) \<and> (\<forall>t \<in> set (cr_history r). lawful_move t)"

lemmas object_step_defs =
  unhealthy_record_def reserved_record_def renewed_object_def unreserved_object_def activating_record_def
  active_record_def withdrawn_record_def reconfirmed_record_def revalidation_withdrawn_def

lemma reload_keeps:
  assumes "reload_connectivity lim r = Some r'"
  shows "cr_state r' = cr_state r" "cr_activation_digest r' = cr_activation_digest r"
    "cr_authority_confirmed r' = cr_authority_confirmed r" "cr_history r' = cr_history r"
    "tok_incarnation (cr_authority r') = tok_incarnation (cr_authority r)" "cr_attempt_log r' = cr_attempt_log r"
    "cr_has_reservation r' = cr_has_reservation r" "cr_reservation r' = cr_reservation r"
  using assms by (auto simp: reload_connectivity_def reload_token_def split: if_splits sum.splits)

interpretation pending: object_invariant pending_digest
proof
  show "pending_digest (limits F) (boot F) new"
    if "object_step F old new" "pending_digest (limits F) (boot F) old" for F old new
    using that by cases (auto simp: pending_digest_def object_step_defs Let_def is_committed_state_def)
qed (auto simp: pending_digest_def reload_keeps proposed_record_def)

interpretation confirmed: object_invariant confirmed_by_boot
proof
  show "confirmed_by_boot (limits F) (boot F) new"
    if "object_step F old new" "confirmed_by_boot (limits F) (boot F) old" for F old new
    using that by cases (auto simp: confirmed_by_boot_def object_step_defs Let_def authorized_by_def
        dest: require_authority_boot)
qed (auto simp: confirmed_by_boot_def reload_keeps proposed_record_def)

lemma successively_drop: "successively R xs \<Longrightarrow> successively R (drop n xs)"
  by (metis append_take_drop_id successively_append_iff)

lemma successively_push:
  assumes "successively R xs" "xs \<noteq> [] \<Longrightarrow> R (last xs) x"
  shows "successively R (push_bounded n x xs)"
proof -
  have "successively R (xs @ [x])" using assms by (cases "xs = []") (auto simp: successively_append_iff)
  then show ?thesis unfolding push_bounded_def by (rule successively_drop)
qed

lemma set_push_bounded: "set (push_bounded n x xs) \<subseteq> insert x (set xs)"
  using set_drop_subset [of _ "xs @ [x]"] by (fastforce simp: push_bounded_def)

lemma lawful_moved:
  assumes "lawful_history lim b old" "0 < max_attempt_history_per_object (limits F)"
    and "transition_allowed (cr_state old) target \<or> (cr_state old = Reserved \<and> target = Validated)"
    and "cr_history new = cr_history (move_object F target code attempt old)" "cr_state new = target"
  shows "lawful_history lim b new"
proof -
  let ?t = "transition_of F old target Applied code attempt"
  have h: "cr_history new = push_bounded (max_attempt_history_per_object (limits F)) ?t (cr_history old)"
    using assms(4) by (simp add: move_object_def push_transition_locked_def Let_def)
  have t: "lawful_move ?t" "tr_from ?t = cr_state old" "tr_to ?t = target"
    using assms(3) by (auto simp: lawful_move_def transition_of_def)
  then show ?thesis
    using assms(1,5) last_push_bounded [OF assms(2)] set_push_bounded
    unfolding lawful_history_def h by (fastforce intro: successively_push)
qed

lemma object_step_history:
  assumes "object_step F old new"
  obtains (kept) "cr_history new = cr_history old" "cr_state new = cr_state old"
  | (moved) target code attempt where
      "cr_history new = cr_history (move_object F target code attempt old)" "cr_state new = target"
      "transition_allowed (cr_state old) target \<or> (cr_state old = Reserved \<and> target = Validated)"
  using assms
proof cases
  case (unhealthy attempt)
  then show ?thesis
    using that(1) that(2) [of SRefused]
    by (cases "topology_outdated (assess_locked F (cr_path old) (cr_requirements old))")
      (auto simp: unhealthy_record_def Let_def move_object_def push_transition_locked_def transition_of_def transition_allowed_iff)
next
  case (withdrawn attempt)
  then show ?thesis
    by (cases "cr_state old"; intro that(2) [of "if cr_state old = Withdrawing then Retired else Withdrawing"])
      (auto simp: withdrawn_record_def transition_allowed_iff)
qed (use that(1) that(2) in \<open>auto simp: object_step_defs Let_def transition_allowed_iff is_committed_state_def\<close>)

interpretation lawful: object_invariant lawful_history
proof
  show "lawful_history (limits F) (boot F) new"
    if "object_step F old new" "limits_validate (limits F) = Ok" "lawful_history (limits F) (boot F) old" for F old new
    using that(1)
  proof (cases rule: object_step_history)
    case (moved target code attempt)
    with that limits_valid_positive(1) show ?thesis by (blast intro: lawful_moved)
  qed (use that in \<open>simp add: lawful_history_def\<close>)
qed (simp_all add: lawful_history_def reload_keeps proposed_record_def lawful_move_def)

end
