(* ===== verification/Ledgers.thy ===== *)
theory Ledgers
  imports Invariants
begin

text \<open>
  Invariants of what the runtime keeps beside the connectivity objects: the observations, the
  bounded logs and the authority grants. Each is an interpretation of \<open>stable_invariant\<close> or
  \<open>commit_invariant\<close> on the model and, through \<open>runtime_invariant\<close>, holds in every reachable state.
\<close>

section \<open>Carrying an invariant through every operation\<close>

context stable_invariant
begin

lemma operation_kept:
  assumes "operation F F'" "reservation_ids F" "inv F"
    and "\<And>G H. same_records G H \<Longrightarrow> inv G \<Longrightarrow> inv H" "\<And>G i. background_item G i \<Longrightarrow> ok i G"
    and "\<And>G. edited F G \<Longrightarrow> inv G" "\<And>G i. edited F G \<Longrightarrow> item_step F i \<Longrightarrow> ok i G"
  shows "inv F'"
  using operation_background [OF assms(1)] assms(2-7) by (auto intro: handled_inv activity_inv)

lemma submit_kept:
  assumes "inv F" "\<And>path canonical. ok (ConnectivityItem (proposed_record F it path canonical)) F"
    and "\<And>g t. ok (RuntimeItem (runtime_state F g t)) F"
  shows "inv (snd (submit_intent io planner F0 F1 it F))"
  using assms
  by (simp add: submit_intent_def admit_intent_def Let_def case_prod_beta commit_items_inv
      split: sum.splits option.splits)

end

lemma operation_kinds:
  assumes "operation F F'"
  obtains (handler) "handled F F'"
  | (quiet) "activity quiet_edit (\<lambda>G i. topology_item G i \<or> evidence_item G i) F F'"
  | (acquire) io q where "F' = snd (acquire_authority io q F)"
  | (renew) io q where "F' = snd (renew_authority io q F)"
proof -
  have topo: "activity quiet_edit (\<lambda>G i. topology_item G i \<or> evidence_item G i) F G"
    if "activity quiet_edit topology_item F G \<or> activity quiet_edit evidence_item F G" for G
    using that by (auto elim: activity_mono)
  have fence: "\<exists>aq. snd (fence io q F) = snd (acquire_authority io aq F)" for io q
    by (auto simp: fence_def Let_def case_prod_beta split: option.splits)
  from assms show ?thesis
    by cases (use handler quiet acquire renew topo topology_activity evidence_activity fence in metis)+
qed

section \<open>Observations\<close>

definition evidence_inv :: "Fabric \<Rightarrow> bool" where
  "evidence_inv F \<longleftrightarrow> (\<forall>e \<in> set (evidence F). derive_evidence_id (snd e) = fst e \<and>
     ev_subject (snd e) \<in> dom (map_of (resources F)))"

fun evidence_ok :: "CommitItem \<Rightarrow> Fabric \<Rightarrow> bool" where
  "evidence_ok (EvidenceItem r) F \<longleftrightarrow> ev_id r = derive_evidence_id r \<and> ev_subject r \<in> dom (map_of (resources F))"
| "evidence_ok ResetItem F \<longleftrightarrow> False"
| "evidence_ok i F \<longleftrightarrow> True"

lemma apply_item_resources:
  "i \<noteq> ResetItem \<Longrightarrow> dom (map_of (resources F)) \<subseteq> dom (map_of (resources (snd (apply_item i F))))"
  by (cases i) (auto simp: apply_item.simps Let_def split: option.splits if_splits)

interpretation observed: stable_invariant evidence_inv evidence_ok
proof
  show "evidence_inv (snd (apply_item i F))" if "evidence_inv F" "evidence_ok i F" for i F
  proof (cases i)
    case (EvidenceItem r)
    then show ?thesis
      using that set_map_put [of "ev_id r" r "evidence F"]
      by (fastforce simp: apply_item.simps reload_evidence_def evidence_inv_def split: option.splits)
  qed (use that in \<open>auto simp: apply_item.simps evidence_inv_def Let_def split: option.splits\<close>)
  show "evidence_ok j (snd (apply_item i F))" if "evidence_ok i F" "evidence_ok j F" for i j F
  proof -
    have "dom (map_of (resources F)) \<subseteq> dom (map_of (resources (snd (apply_item i F))))"
      using that(1) by (intro apply_item_resources) auto
    then show ?thesis using that(2) by (cases j) auto
  qed
qed (simp_all add: evidence_inv_def)

interpretation observations: runtime_invariant evidence_inv
proof
  show "evidence_inv F" if "construct io inst op Ok [] = Inr F" for io inst op F
    using that by (rule observed.fresh_inv) (simp_all add: evidence_inv_def blank_runtime_def)
  show "evidence_inv F'" if op: "operation F F'" "claims_inv F" "evidence_inv F" for F F'
  proof (rule observed.operation_kept [OF op(1) claims_inv_reservation_ids [OF op(2)] op(3)])
    show "evidence_ok i G" if "background_item G i" for G i
      using that by (auto simp: background_item_def topology_item_def evidence_item_def authority_item_def
          runtime_item_def find_resource_def)
    show "evidence_ok i G" if "item_step F i" for G i using that by (cases i) auto
  qed (use op in \<open>auto simp: evidence_inv_def same_records_def edited_keeps\<close>)
qed (auto intro: observed.submit_kept)

section \<open>Bounded logs\<close>

definition logs_inv :: "Fabric \<Rightarrow> bool" where
  "logs_inv F \<longleftrightarrow>
     ordered_keys (attempts F) \<and> fst ` set (attempts F) = set (attempt_order F) \<and>
     distinct (attempt_order F) \<and> length (attempt_order F) \<le> max_attempt_history_total (limits F) \<and>
     length (diagnostics F) \<le> max_diagnostics (limits F) \<and>
     length (fences F) \<le> max_fence_reasons_history (limits F)"

lemma fold_erase:
  "ordered_keys m \<Longrightarrow> ordered_keys (foldl (\<lambda>m a. map_erase a m) m ks)"
  "fst ` set (foldl (\<lambda>m a. map_erase a m) m ks) = fst ` set m - set ks"
  "map_of (foldl (\<lambda>m a. map_erase a m) m ks) k = (if k \<in> set ks then None else map_of m k)"
proof (induction ks arbitrary: m)
  case (Cons a ks)
  { case 1 then show ?case using Cons(1) by simp }
  { case 2 then show ?case using Cons(2) by (auto simp: map_erase_def) }
  { case 3 then show ?case using Cons(3) by simp }
qed simp_all

lemma set_drop_distinct: "distinct xs \<Longrightarrow> set (drop n xs) = set xs - set (take n xs)"
  using set_take_disj_set_drop_if_distinct [of xs n n] by (metis Diff_cancel Diff_triv Un_Diff append_take_drop_id
      inf_commute order_refl set_append sup_bot_left)

text \<open>A stored attempt can be found, and the log keeps its shape.\<close>

lemma logs_store_attempt:
  assumes "logs_inv F"
  shows "logs_inv (store_attempt r F)"
    and "0 < max_attempt_history_total (limits F) \<Longrightarrow> map_of (attempts (store_attempt r F)) (ar_attempt r) = Some r"
proof -
  let ?k = "ar_attempt r"
  let ?order = "attempt_order F @ [?k]"
  let ?n = "length ?order - max_attempt_history_total (limits F)"
  have keys: "?k \<in> set (attempt_order F) \<longleftrightarrow> map_of (attempts F) ?k \<noteq> None"
    using assms by (metis logs_inv_def map_of_eq_None_iff)
  have inv: "logs_inv (store_attempt r F) \<and>
      (0 < max_attempt_history_total (limits F) \<longrightarrow> map_of (attempts (store_attempt r F)) ?k = Some r)"
  proof (cases "map_of (attempts F) ?k = None")
    case True
    define order where "order = ?order"
    define n where "n = ?n"
    have order: "distinct order" "set order = insert ?k (fst ` set (attempts F))"
        "length order - n \<le> max_attempt_history_total (limits F)"
      using True keys assms by (auto simp: logs_inv_def order_def n_def)
    have stored: "store_attempt r F = F\<lparr>attempts := foldl (\<lambda>m a. map_erase a m) (map_put ?k r (attempts F)) (take n order),
        attempt_order := drop n order\<rparr>"
      using True by (simp add: store_attempt_def Let_def order_def n_def)
    have "?k \<notin> set (take n order)" if "0 < max_attempt_history_total (limits F)"
    proof -
      have "take n order = take n (attempt_order F)" using that by (simp add: order_def n_def)
      then show ?thesis using True keys by (metis in_set_takeD)
    qed
    then show ?thesis
      using assms order set_drop_distinct [OF order(1), of n] by (auto simp: logs_inv_def stored fold_erase)
  next
    case False
    then show ?thesis using assms keys by (auto simp: logs_inv_def store_attempt_def Let_def)
  qed
  then show "logs_inv (store_attempt r F)"
    and "0 < max_attempt_history_total (limits F) \<Longrightarrow> map_of (attempts (store_attempt r F)) ?k = Some r"
    by blast+
qed

interpretation logs: stable_invariant logs_inv "\<lambda>i F. True"
proof
  show "logs_inv (snd (apply_item i F))" if "logs_inv F" for i F
  proof (cases i)
    case (AttemptItem r)
    then show ?thesis
      using that logs_store_attempt by (simp add: apply_item.simps split: option.splits)
  next
    case (ConnectivityItem r)
    then show ?thesis using that by (simp add: apply_item.simps logs_inv_def rebuild_indices_def split: option.splits)
  next
    case (ReservationItem r)
    then show ?thesis using that by (simp add: apply_item.simps logs_inv_def rebuild_indices_def split: option.splits)
  qed (use that in \<open>auto simp: apply_item.simps logs_inv_def Let_def split: option.splits\<close>)
  show "logs_inv F \<Longrightarrow> logs_inv (note_diagnostic d F)" for d F
    by (auto simp: logs_inv_def note_diagnostic_def Let_def)
qed (simp_all add: logs_inv_def)

interpretation bounded_logs: runtime_invariant logs_inv
proof
  show "logs_inv F" if "construct io inst op Ok [] = Inr F" for io inst op F
    using that by (rule logs.fresh_inv) (simp_all add: logs_inv_def blank_runtime_def rebuild_indices_def)
  show "logs_inv F'" if op: "operation F F'" "claims_inv F" "logs_inv F" for F F'
    by (rule logs.operation_kept [OF op(1) claims_inv_reservation_ids [OF op(2)] op(3)])
      (use op in \<open>auto simp: logs_inv_def same_records_def edited_keeps\<close>)
qed (auto intro: logs.submit_kept)

lemma logs_attempts:
  assumes "logs_inv F" shows "length (attempts F) \<le> max_attempt_history_total (limits F)"
proof -
  have "length (attempts F) = card (fst ` set (attempts F))"
    using assms ordered_keys_distinct [of "attempts F"]
    by (metis distinct_card length_map list.set_map logs_inv_def)
  also have "\<dots> = card (set (attempt_order F))" using assms by (simp add: logs_inv_def)
  also have "\<dots> \<le> length (attempt_order F)" by (rule card_length)
  finally show ?thesis using assms by (simp add: logs_inv_def)
qed

section \<open>Grants\<close>

text \<open>Every grant is filed under its identity, and two live grants never overlap.\<close>

definition apart :: "u64 \<times> GrantState \<Rightarrow> u64 \<times> GrantState \<Rightarrow> bool" where
  "apart e h \<longleftrightarrow> (fst e \<noteq> fst h \<longrightarrow> grant_live (snd e) \<longrightarrow> grant_live (snd h) \<longrightarrow>
     \<not> overlaps (gv_scope (gs_view (snd e))) (gv_scope (gs_view (snd h))))"

definition all_apart :: "(u64 \<times> GrantState) set \<Rightarrow> bool" where
  "all_apart S \<longleftrightarrow> (\<forall>e \<in> S. gv_id (gs_view (snd e)) = fst e) \<and> (\<forall>e \<in> S. \<forall>h \<in> S. apart e h)"

definition grants_inv :: "Fabric \<Rightarrow> bool" where
  "grants_inv F \<longleftrightarrow> all_apart (set (grants F))"

lemma all_apart_empty [simp]: "all_apart {}"
  by (simp add: all_apart_def)

lemma all_apart_subset: "all_apart S \<Longrightarrow> T \<subseteq> S \<Longrightarrow> all_apart T"
  by (auto simp: all_apart_def)

fun grants_ok :: "CommitItem \<Rightarrow> Fabric \<Rightarrow> bool" where
  "grants_ok (GrantItem g) F \<longleftrightarrow> (\<forall>e \<in> set (grants F). apart e (gv_id (gs_view g), g))"
| "grants_ok i F \<longleftrightarrow> True"

definition no_grant :: "CommitItem \<Rightarrow> Fabric \<Rightarrow> bool" where
  "no_grant i F \<longleftrightarrow> (\<forall>g. i \<noteq> GrantItem g)"

lemma overlaps_reload [simp]:
  "overlaps (reload_scope a) b = overlaps a b" "overlaps a (reload_scope b) = overlaps a b"
  by (cases "scope_kind a"; cases "scope_kind b"; simp add: overlaps_def reload_scope_def)+

lemma reload_grant_view [simp]:
  "gv_id (gs_view (reload_grant g)) = gv_id (gs_view g)" "grant_live (reload_grant g) = grant_live g"
  "gv_scope (gs_view (reload_grant g)) = reload_scope (gv_scope (gs_view g))"
  by (simp_all add: reload_grant_def grant_live_def)

lemma apart_sym: "apart e h \<Longrightarrow> apart h e"
  by (auto simp: apart_def overlaps_sym)

lemma apart_reload: "apart e (i, reload_grant g) = apart e (i, g)"
  by (simp add: apart_def)

lemma grants_put:
  assumes "grants_inv F" "grants_ok (GrantItem g) F"
  shows "grants_inv (F\<lparr>grants := map_put (gv_id (gs_view g)) (reload_grant g) (grants F)\<rparr>)"
proof -
  let ?n = "(gv_id (gs_view g), reload_grant g)"
  have sub: "set (map_put (gv_id (gs_view g)) (reload_grant g) (grants F)) \<subseteq> insert ?n (set (grants F))"
    by (rule set_map_put)
  have new: "apart e ?n" if "e \<in> set (grants F)" for e using assms(2) that by (simp add: apart_reload)
  have "apart e h" if e: "e \<in> insert ?n (set (grants F))" and h: "h \<in> insert ?n (set (grants F))" for e h
  proof -
    consider "e = ?n" "h = ?n" | "e = ?n" "h \<in> set (grants F)" | "e \<in> set (grants F)" "h = ?n"
      | "e \<in> set (grants F)" "h \<in> set (grants F)" using e h by blast
    then show ?thesis
    proof cases
      case 1 then show ?thesis by (simp add: apart_def)
    qed (use new apart_sym assms(1) in \<open>auto simp: grants_inv_def all_apart_def all_apart_def\<close>)
  qed
  moreover have "gv_id (gs_view (snd e)) = fst e" if "e \<in> insert ?n (set (grants F))" for e
    using assms(1) that by (auto simp: grants_inv_def all_apart_def all_apart_def)
  ultimately have "all_apart (insert ?n (set (grants F)))" by (simp add: all_apart_def)
  from all_apart_subset [OF this sub] show ?thesis by (simp add: grants_inv_def)
qed

lemma apply_item_grants:
  assumes "grants_inv F" "grants_ok i F" shows "grants_inv (snd (apply_item i F))"
proof (cases i)
  case (GrantItem g)
  then show ?thesis using grants_put [OF assms(1)] assms(2) by (simp add: apply_item.simps Let_def)
qed (use assms in \<open>auto simp: apply_item.simps grants_inv_def Let_def split: option.splits\<close>)

interpretation granted: commit_invariant grants_inv grants_ok
  by unfold_locales (simp_all add: apply_item_grants, simp_all add: grants_inv_def all_apart_def)

interpretation ungranted: stable_invariant grants_inv no_grant
proof
  show "grants_inv (snd (apply_item i F))" if "grants_inv F" "no_grant i F" for i F
    using that by (intro apply_item_grants) (cases i; simp add: no_grant_def)+
qed (simp_all add: grants_inv_def no_grant_def)

subsection \<open>Acquiring and renewing\<close>

definition clear_of :: "AuthorityScope \<Rightarrow> Fabric \<Rightarrow> bool" where
  "clear_of s F \<longleftrightarrow> (\<forall>e \<in> set (grants F). grant_live (snd e) \<longrightarrow> \<not> overlaps (gv_scope (gs_view (snd e))) s)"

definition dead_item :: "CommitItem \<Rightarrow> bool" where
  "dead_item i \<longleftrightarrow> (\<exists>g. i = GrantItem g \<and> \<not> grant_live g) \<or> (\<exists>f. i = FenceItem f)"

lemma dead_items:
  assumes "\<forall>i \<in> set items. dead_item i" "clear_of s F"
  shows "all_ok grants_ok items F \<and> clear_of s (foldl (\<lambda>S i. snd (apply_item i S)) F items)"
  using assms
proof (induction items arbitrary: F)
  case (Cons i items)
  have "clear_of s (snd (apply_item i F))"
    using Cons.prems set_map_put
    by (fastforce simp: dead_item_def clear_of_def apply_item.simps Let_def)
  moreover have "grants_ok i F" using Cons.prems by (auto simp: dead_item_def apart_def)
  ultimately show ?case using Cons by simp
qed simp

lemma fence_grant_live [simp]: "\<not> grant_live (fence_grant f g)"
  by (simp add: fence_grant_def grant_live_def)

lemma acquire_prepared:
  assumes "grants_inv F"
  shows "grants_inv (F\<lparr>grants := fence_overlapping F s n\<rparr>) \<and> clear_of s (F\<lparr>grants := fence_overlapping F s n\<rparr>)"
proof -
  define f where "f = (\<lambda>g. if supersedes s g then fence_grant (supersede_record F n g) g else g)"
  have f: "gv_id (gs_view (f g)) = gv_id (gs_view g)" "gv_scope (gs_view (f g)) = gv_scope (gs_view g)"
    "grant_live (f g) \<longleftrightarrow> grant_live g \<and> \<not> overlaps (gv_scope (gs_view g)) s" for g
    by (auto simp: f_def supersedes_def) (simp_all add: fence_grant_def)
  have "fence_overlapping F s n = map (\<lambda>e. (fst e, f (snd e))) (grants F)"
    by (simp add: fence_overlapping_def f_def case_prod_beta)
  then show ?thesis using assms by (auto simp: grants_inv_def all_apart_def clear_of_def apart_def f)
qed

lemma acquire_grants:
  assumes "grants_inv F"
  shows "grants_inv (snd (acquire_authority io q F))"
proof -
  let ?G = "F\<lparr>grants := fence_overlapping F (aq_scope q) (epoch F + 1)\<rparr>"
  let ?dead = "fence_items F (aq_scope q) (epoch F + 1)"
  have "\<forall>i \<in> set ?dead. dead_item i" by (auto simp: fence_items_def dead_item_def)
  with acquire_prepared [OF assms] have
    dead: "all_ok grants_ok ?dead ?G" "clear_of (aq_scope q) (foldl (\<lambda>S i. snd (apply_item i S)) ?G ?dead)"
    using dead_items by blast+
  then have "all_ok grants_ok (acquire_items F q) ?G"
    by (auto simp: acquire_items_def all_ok_append clear_of_def apart_def new_grant_def)
  then have "grants_inv (snd (commit io RkAuthorityGranted (acquire_items F q) ?G))"
    using acquire_prepared [OF assms] by (intro granted.commit_inv) blast+
  then show ?thesis using assms by (simp add: acquire_authority_def Let_def case_prod_beta)
qed

lemma renew_grants:
  assumes "grants_inv F"
  shows "grants_inv (snd (renew_authority io q F))"
proof -
  have "grants_inv (snd (commit io RkAuthorityGranted [GrantItem (g\<lparr>gs_view := (gs_view g)\<lparr>gv_expiry_tick := t,
      gv_generation := n\<rparr>\<rparr>), AttemptItem r] F))"
    if "find (\<lambda>(i, g). renewable F q g) (grants F) = Some (target, g)" for target g t n r
  proof (rule granted.commit_inv [OF assms])
    have "(target, g) \<in> set (grants F)" using find_SomeD [OF that] by simp
    then have "apart e (gv_id (gs_view g), g)" if "e \<in> set (grants F)" for e
      using assms that by (force simp: grants_inv_def all_apart_def all_apart_def)
    then show "all_ok grants_ok [GrantItem (g\<lparr>gs_view := (gs_view g)\<lparr>gv_expiry_tick := t, gv_generation := n\<rparr>\<rparr>),
        AttemptItem r] F"
      by (simp add: apart_def grant_live_def)
  qed
  then show ?thesis
    using assms by (simp add: renew_authority_def Let_def case_prod_beta split: option.splits)
qed

interpretation exclusive_grants: runtime_invariant grants_inv
proof
  show "grants_inv F" if "construct io inst op Ok [] = Inr F" for io inst op F
    using that by (rule ungranted.fresh_inv) (simp_all add: grants_inv_def blank_runtime_def no_grant_def)
  show "grants_inv F'" if op: "operation F F'" "claims_inv F" "grants_inv F" for F F'
    using op(1)
  proof (cases rule: operation_kinds)
    case handler
    then show ?thesis
    proof (rule ungranted.handled_inv [OF _ claims_inv_reservation_ids [OF op(2)] op(3)])
      show "no_grant i G" if "item_step F i" for G i using that by (cases i) (auto simp: no_grant_def)
    qed (use op(3) in \<open>auto simp: grants_inv_def all_apart_def edited_keeps\<close>)
  next
    case quiet
    then show ?thesis using op(3)
      by (rule ungranted.activity_inv)
        (auto simp: grants_inv_def all_apart_def quiet_edit_def no_grant_def topology_item_def evidence_item_def runtime_item_def)
  qed (use op(3) acquire_grants renew_grants in auto)
qed (auto simp: no_grant_def intro: ungranted.submit_kept)

lemma grants_inv_unique:
  assumes "grants_inv F" shows "at_most_one_current_grant_per_scope F"
proof -
  have "\<not> overlaps (gv_scope (gs_view g)) (gv_scope (gs_view h))"
    if "(i, g) \<in> set (grants F)" "(j, h) \<in> set (grants F)" "j \<noteq> i" "grant_live g" "grant_live h" for i g j h
  proof -
    have "apart (i, g) (j, h)" using assms that(1,2) by (simp add: grants_inv_def all_apart_def)
    then show ?thesis using that by (simp add: apart_def)
  qed
  then show ?thesis unfolding at_most_one_current_grant_per_scope_def list_all_iff by blast
qed

text \<open>Two current tokens that both reach into one scope are tokens of one grant.\<close>

lemma current_tokens_agree:
  assumes "grants_inv F" "check_authority_locked F t = Current" "check_authority_locked F u = Current"
    and "covers (tok_scope t) s" "covers (tok_scope u) s"
  shows "tok_grant t = tok_grant u \<and> tok_holder t = tok_holder u \<and> tok_epoch t = tok_epoch u"
proof -
  obtain g where g: "map_of (grants F) (tok_grant t) = Some g" "grant_live g" "tok_holder t = gv_holder (gs_view g)"
      "tok_epoch t = gv_epoch (gs_view g)" "tok_scope t = gv_scope (gs_view g)"
    by (rule check_authority_Current [OF assms(2)])
  obtain h where h: "map_of (grants F) (tok_grant u) = Some h" "grant_live h" "tok_holder u = gv_holder (gs_view h)"
      "tok_epoch u = gv_epoch (gs_view h)" "tok_scope u = gv_scope (gs_view h)"
    by (rule check_authority_Current [OF assms(3)])
  have "overlaps (gv_scope (gs_view g)) (gv_scope (gs_view h))"
    using covers_same_overlap [OF assms(4,5)] g h by simp
  moreover have "apart (tok_grant t, g) (tok_grant u, h)"
    using assms(1) g(1) h(1) by (auto simp: grants_inv_def all_apart_def dest!: map_of_SomeD)
  ultimately have "tok_grant t = tok_grant u" using g(2) h(2) by (auto simp: apart_def)
  then show ?thesis using g h by simp
qed

end
