(* ===== verification/Holdings.thy ===== *)
theory Holdings
  imports Ledgers
begin

text \<open>
  What an object says it holds exists: the reservation an object names is stored. The proof goes
  handler by handler, because \<open>reserve\<close> writes the reservation and the object that names it in one
  commit and relies on their order.
\<close>

definition encodable_path :: "ConnectivityRecord \<Rightarrow> bool" where
  "encodable_path r \<longleftrightarrow> list_all (\<lambda>s. ref_encodable (seg_resource s)) (pd_segments (cr_path r))"

definition known_reservation :: "Fabric \<Rightarrow> ConnectivityRecord \<Rightarrow> bool" where
  "known_reservation F r \<longleftrightarrow> (cr_has_reservation r \<longrightarrow> cr_reservation r \<in> dom (map_of (reservations F)))"

definition holdings_inv :: "Fabric \<Rightarrow> bool" where
  "holdings_inv F \<longleftrightarrow> (\<forall>e \<in> set (objects F). encodable_path (snd e) \<and> known_reservation F (snd e))"

fun holdings_ok :: "CommitItem \<Rightarrow> Fabric \<Rightarrow> bool" where
  "holdings_ok (ConnectivityItem r) F \<longleftrightarrow> known_reservation F r"
| "holdings_ok ResetItem F \<longleftrightarrow> False"
| "holdings_ok i F \<longleftrightarrow> True"

lemma apply_item_reservations:
  "i \<noteq> ResetItem \<Longrightarrow> dom (map_of (reservations F)) \<subseteq> dom (map_of (reservations (snd (apply_item i F))))"
  by (cases i) (auto simp: apply_item.simps Let_def split: option.splits if_splits)

lemma holdings_mono:
  "dom (map_of (reservations F)) \<subseteq> dom (map_of (reservations G)) \<Longrightarrow> known_reservation F r \<Longrightarrow> known_reservation G r"
  by (auto simp: known_reservation_def)

lemma holdings_put:
  assumes "holdings_inv F" "encodable_path r" "known_reservation F r"
  shows "holdings_inv (F\<lparr>objects := map_put k r (objects F)\<rparr>)"
  using assms set_map_put [of k r "objects F"] by (auto simp: holdings_inv_def known_reservation_def)

interpretation held: stable_invariant holdings_inv holdings_ok
proof
  show "holdings_inv (snd (apply_item i F))" if "holdings_inv F" "holdings_ok i F" for i F
  proof (cases i)
    case (ConnectivityItem r)
    show ?thesis
    proof (cases "reload_connectivity (limits F) r")
      case (Some r')
      then have "encodable_path r'" "known_reservation F r'"
        using that(2) ConnectivityItem
        by (auto simp: encodable_path_def known_reservation_def reload_connectivity_def split: if_splits sum.splits)
      from holdings_put [OF that(1) this, of "cr_id r'"] show ?thesis
        using Some ConnectivityItem by (simp add: apply_item.simps holdings_inv_def known_reservation_def)
    qed (use that ConnectivityItem in \<open>simp add: apply_item.simps\<close>)
  next
    case (ReservationItem v)
    then have "dom (map_of (reservations F)) \<subseteq> dom (map_of (reservations (snd (apply_item i F))))"
      by (intro apply_item_reservations) simp
    moreover have "objects (snd (apply_item i F)) = objects F"
      using ReservationItem by (simp add: apply_item.simps split: option.splits)
    ultimately show ?thesis using that(1) holdings_mono by (auto simp: holdings_inv_def)
  qed (use that in \<open>auto simp: apply_item.simps holdings_inv_def known_reservation_def Let_def split: option.splits\<close>)
  show "holdings_ok j (snd (apply_item i F))" if "holdings_ok i F" "holdings_ok j F" for i j F
  proof -
    have "dom (map_of (reservations F)) \<subseteq> dom (map_of (reservations (snd (apply_item i F))))"
      using that(1) by (intro apply_item_reservations) auto
    then show ?thesis using that(2) holdings_mono by (cases j) auto
  qed
qed (simp_all add: holdings_inv_def known_reservation_def)

section \<open>Handlers\<close>

lemma known_same:
  assumes "holdings_inv F" "map_of (objects F) i = Some old"
    and "cr_has_reservation new \<longrightarrow> cr_has_reservation old \<and> cr_reservation new = cr_reservation old"
    and "reservations G = reservations F"
  shows "known_reservation G new"
proof -
  have "(i, old) \<in> set (objects F)" using assms(2) by (rule map_of_SomeD)
  then have "known_reservation F old" using assms(1) by (force simp: holdings_inv_def)
  then show ?thesis using assms(3,4) by (auto simp: known_reservation_def)
qed

lemma holdings_edited:
  assumes "edited F G" "holdings_inv F"
  shows "holdings_inv G"
  using assms(1)
proof (cases rule: edited_cases)
  case (rewritten i old new)
  have "cr_has_reservation new \<longrightarrow> cr_has_reservation old \<and> cr_reservation new = cr_reservation old"
    using rewritten(2,3) by cases (auto simp: object_step_defs Let_def is_committed_state_def split: if_splits)
  with assms(2) rewritten have "known_reservation F new" by (auto intro: known_same)
  moreover have "encodable_path new"
    using assms(2) rewritten object_step_keeps(2) [OF rewritten(2)]
    by (force simp: holdings_inv_def encodable_path_def dest!: map_of_SomeD)
  ultimately show ?thesis using holdings_put [OF assms(2)] rewritten by simp
qed (use assms in \<open>auto simp: holdings_inv_def known_reservation_def count_transition_def\<close>)

text \<open>A step that is not a reservation keeps the reservation of the object or drops it.\<close>

lemma step_reservation:
  assumes "object_step F old new" "cr_state new \<noteq> Reserved"
  shows "cr_has_reservation new \<longrightarrow> cr_has_reservation old \<and> cr_reservation new = cr_reservation old"
  using assms by cases (auto simp: object_step_defs Let_def)

lemma step_renewed:
  "cr_has_reservation (renewed_object F q v ob) \<longrightarrow>
   cr_has_reservation ob \<and> cr_reservation (renewed_object F q v ob) = cr_reservation ob"
  by (simp add: renewed_object_def)

lemma reserve_holdings:
  assumes "holdings_inv F"
  shows "holdings_inv (snd (reserve io q F))"
  unfolding reserve_def
proof (rule held.run_handler_inv [OF assms])
  fix kind items G r b
  assume "decide_reserve F q = Perform kind items G r b"
  then show "holdings_inv G \<and> all_ok holdings_ok items G"
  proof (cases rule: decide_reserve_Perform)
    case (1 rec)
    have "list_all ref_encodable (rv_resources (reservation_for F q rec))"
      using assms 1(5) by (fastforce simp: holdings_inv_def encodable_path_def reservation_for_def path_resources_def
          list_all_iff dest!: map_of_SomeD)
    then have "known_reservation (snd (apply_item (ReservationItem (reservation_for F q rec)) G)) (reserved_record F q rec)"
      by (simp add: apply_item.simps reload_reservation_def known_reservation_def reserved_record_def domIff)
    then show ?thesis
      using 1 holdings_edited [OF edited_simps(2) assms] by simp
  qed
qed

text \<open>Handlers that never leave an object in the reserved state.\<close>

definition unreserving :: "'r Decision \<Rightarrow> bool" where
  "unreserving d \<longleftrightarrow> (\<forall>kind items G r b u. d = Perform kind items G r b \<longrightarrow> ConnectivityItem u \<in> set items \<longrightarrow>
     cr_state u \<noteq> Reserved)"

lemma held_run_handler:
  assumes "holdings_inv F" "planned F decision" "unreserving decision"
  shows "holdings_inv (snd (run_handler io refused attempt decision F))"
proof (rule held.run_handler_inv [OF assms(1)])
  fix kind items G r b
  assume d: "decision = Perform kind items G r b"
  then have plan: "\<forall>i \<in> set items. item_step F i" "edited F G" using assms(2) unfolding planned_def by blast+
  have "holdings_ok i G" if member: "i \<in> set items" for i
  proof (cases i)
    case (ConnectivityItem u)
    then obtain k old where old: "map_of (objects F) k = Some old" "object_step F old u" using plan(1) member by fastforce
    have "cr_state u \<noteq> Reserved" using assms(3) d member ConnectivityItem unfolding unreserving_def by blast
    with old have "known_reservation G u"
      using step_reservation known_same [OF assms(1) old(1)] edited_keeps(6) [OF plan(2)] by blast
    then show ?thesis using ConnectivityItem by simp
  qed (use plan(1) member in \<open>fastforce+\<close>)
  then show "holdings_inv G \<and> all_ok holdings_ok items G"
    using holdings_edited [OF plan(2) assms(1)] by (blast intro: all_ok_stable held.ok_stable)
qed

lemma renew_holdings:
  assumes "holdings_inv F"
  shows "holdings_inv (snd (renew_reservation io q F))"
  unfolding renew_reservation_def
proof (rule held.run_handler_inv [OF assms])
  fix kind items G r b
  assume "decide_renew_reservation F q = Perform kind items G r b"
  then show "holdings_inv G \<and> all_ok holdings_ok items G"
  proof (cases rule: decide_renew_Perform)
    case (1 v ob)
    have known: "known_reservation H (renewed_object F q v ob)" if "reservations H = reservations F" for H
      using known_same [OF assms 1(9) step_renewed that] .
    have "encodable_path (renewed_object F q v ob)"
      using assms 1(9) by (force simp: holdings_inv_def encodable_path_def renewed_object_def dest!: map_of_SomeD)
    then have "holdings_inv G" using holdings_put [OF assms _ known] 1 by simp
    moreover have "\<forall>i \<in> set items. holdings_ok i G" using 1 known by simp
    ultimately show ?thesis by (blast intro: all_ok_stable held.ok_stable)
  qed
qed

lemma unreserving_handlers:
  "unreserving (decide_validate F vq)" "unreserving (decide_release_reservation F lq)"
  "unreserving (decide_begin_activation F aq)" "unreserving (decide_commit_activation F cq)"
  "unreserving (decide_withdraw F wq)" "unreserving (decide_revalidate F rq)"
  "target \<noteq> Reserved \<Longrightarrow> unreserving (decide_health target op F hq)"
proof -
  show "unreserving (decide_validate F vq)"
    unfolding unreserving_def
    by (intro allI impI, elim decide_validate_Perform) (auto simp: unhealthy_record_def Let_def split: if_splits)
  show "unreserving (decide_release_reservation F lq)"
    unfolding unreserving_def
    by (intro allI impI, elim decide_release_Perform) (auto simp: unreserved_object_def split: if_splits)
  show "unreserving (decide_begin_activation F aq)"
    unfolding unreserving_def
    by (intro allI impI, elim decide_begin_activation_Perform) (auto simp: activating_record_def)
  show "unreserving (decide_commit_activation F cq)"
    unfolding unreserving_def
    by (intro allI impI, elim decide_commit_activation_Perform)
      (auto simp: active_record_def consume_items_def split: if_splits option.splits)
  show "unreserving (decide_withdraw F wq)"
    unfolding unreserving_def
    by (intro allI impI, elim decide_withdraw_Perform)
      (auto simp: withdrawn_record_def withdraw_release_items_def split: if_splits option.splits)
  show "unreserving (decide_revalidate F rq)"
    unfolding unreserving_def
    by (intro allI impI, elim decide_revalidate_Perform)
      (auto simp: reconfirmed_record_def revalidation_withdrawn_def is_committed_state_def split: if_splits)
  show "unreserving (decide_health target op F hq)" if "target \<noteq> Reserved"
    unfolding unreserving_def using that by (intro allI impI, elim decide_health_Perform) auto
qed

lemma handled_holdings:
  assumes "handled F F'" "reservation_ids F" "holdings_inv F"
  shows "holdings_inv F'"
  using assms(1)
proof cases
  case (validate io q)
  then show ?thesis unfolding validate_def
    using assms(3) planned_validate unreserving_handlers(1) by (auto intro: held_run_handler)
next
  case (release_reservation io q)
  then show ?thesis unfolding release_reservation_def
    using assms(3) planned_release [OF assms(2)] unreserving_handlers(2) by (auto intro: held_run_handler)
next
  case (begin_activation io q)
  then show ?thesis unfolding begin_activation_def
    using assms(3) planned_begin unreserving_handlers(3) by (auto intro: held_run_handler)
next
  case (commit_activation io q)
  then show ?thesis unfolding commit_activation_def
    using assms(3) planned_commit [OF assms(2)] unreserving_handlers(4) by (auto intro: held_run_handler)
next
  case (withdraw io q)
  then show ?thesis unfolding withdraw_def
    using assms(3) planned_withdraw [OF assms(2)] unreserving_handlers(5) by (auto intro: held_run_handler)
next
  case (revalidate io q)
  then show ?thesis unfolding revalidate_def
    using assms(3) planned_revalidate unreserving_handlers(6) by (auto intro: held_run_handler)
next
  case (report_degraded io q)
  then show ?thesis unfolding report_degraded_def apply_health_def
    using assms(3) by (auto intro!: held_run_handler planned_health unreserving_handlers(7))
next
  case (report_failed io q)
  then show ?thesis unfolding report_failed_def apply_health_def
    using assms(3) by (auto intro!: held_run_handler planned_health unreserving_handlers(7))
qed (use assms(3) reserve_holdings renew_holdings in auto)

interpretation holdings: runtime_invariant holdings_inv
proof
  show "holdings_inv F" if "construct io inst op Ok [] = Inr F" for io inst op F
    using that by (rule held.fresh_inv) (simp_all add: holdings_inv_def known_reservation_def blank_runtime_def)
  show "holdings_inv F'" if op: "operation F F'" "claims_inv F" "holdings_inv F" for F F'
    using operation_background [OF op(1)]
  proof
    assume "background F F'"
    then show ?thesis using op(3)
      by (rule held.activity_inv)
        (auto simp: holdings_inv_def known_reservation_def same_records_def background_item_def topology_item_def
          evidence_item_def authority_item_def runtime_item_def)
  qed (use op handled_holdings claims_inv_reservation_ids in blast)
  show "holdings_inv (snd (submit_intent io planner F0 F1 it F))" if "holdings_inv F" for io planner F0 F1 it F
    using that by (rule held.submit_kept) (simp_all add: known_reservation_def proposed_record_def)
qed

lemma claims_holdings_committed:
  assumes "claims_inv F" "holdings_inv F"
  shows "committed_paths_are_well_formed F"
proof -
  have "map_of (resources F) (seg_resource s) \<noteq> None"
    if "(i, r) \<in> set (objects F)" "s \<in> set (pd_segments (cr_path r))" for i r s
  proof -
    have "map_of (objects F) i = Some r"
      using that(1) claims_invD(2) [OF assms(1)] by (simp add: ordered_entry_iff)
    then show ?thesis
      using claims_invD(4) [OF assms(1)] that(2) by (auto simp: sound_object_def registered_path_def path_resources_def)
  qed
  then show ?thesis
    using assms(2)
    by (fastforce simp: committed_paths_are_well_formed_def list_all_iff find_resource_def holdings_inv_def known_reservation_def)
qed

end
