(* ===== verification/Outcomes.thy ===== *)
theory Outcomes
  imports Holdings
begin

text \<open>
  What the callers of the runtime are told, and what it means: an activation that was applied had
  every guard met and is stored; a refusal changes no object, reservation or grant; repeating an
  applied request is recognised and changes nothing; a granted token is accepted at once and ends
  every overlapping grant.
\<close>

section \<open>Reading a committed bundle back\<close>

fun writes_objects :: "CommitItem \<Rightarrow> bool" where
  "writes_objects (ConnectivityItem r) = True"
| "writes_objects ResetItem = True"
| "writes_objects i = False"

lemma apply_item_objects:
  "\<not> writes_objects i \<Longrightarrow> objects (snd (apply_item i F)) = objects F"
  by (cases i) (simp_all add: apply_item.simps Let_def split: option.splits)

lemma apply_decoded_objects:
  "\<forall>i \<in> set items. \<not> writes_objects i \<Longrightarrow> objects (snd (apply_decoded items F)) = objects F"
  by (induction items arbitrary: F) (auto simp: Let_def case_prod_beta apply_item_objects)

lemma apply_decoded_Cons_Ok:
  "fst (apply_decoded (i # is) F) = Ok \<longleftrightarrow> fst (apply_item i F) = Ok \<and> fst (apply_decoded is (snd (apply_item i F))) = Ok"
  "fst (apply_decoded (i # is) F) = Ok \<Longrightarrow> snd (apply_decoded (i # is) F) = snd (apply_decoded is (snd (apply_item i F)))"
  by (auto simp: Let_def case_prod_beta)

lemma commit_stores_object:
  assumes "fst (commit io kind (ConnectivityItem u # rest) F) = Ok" "\<forall>i \<in> set rest. \<not> writes_objects i"
  obtains u' where "reload_connectivity (limits F) u = Some u'"
    "objects (snd (commit io kind (ConnectivityItem u # rest) F)) = map_put (cr_id u') u' (objects F)"
proof -
  have ok: "fst (apply_decoded (ConnectivityItem u # rest) F) = Ok" using commit_Ok(3) [OF assms(1)] .
  obtain j where j: "snd (commit io kind (ConnectivityItem u # rest) F) =
      (snd (apply_decoded (ConnectivityItem u # rest) F))\<lparr>journal := j\<rparr>"
    using commit_Ok(4) [OF assms(1)] by blast
  from ok obtain u' where u': "reload_connectivity (limits F) u = Some u'"
    by (auto simp: apply_decoded_Cons_Ok apply_item.simps simp del: apply_decoded.simps split: option.splits)
  have "objects (snd (apply_decoded (ConnectivityItem u # rest) F)) = objects (snd (apply_item (ConnectivityItem u) F))"
    using apply_decoded_Cons_Ok(2) [OF ok] apply_decoded_objects [OF assms(2)] by simp
  then have "objects (snd (commit io kind (ConnectivityItem u # rest) F)) = map_put (cr_id u') u' (objects F)"
    using u' by (simp add: j apply_item.simps)
  with u' that show ?thesis by blast
qed

section \<open>Attempts only\<close>

definition same_authoritative :: "Fabric \<Rightarrow> Fabric \<Rightarrow> bool" where
  "same_authoritative F G \<longleftrightarrow> objects G = objects F \<and> reservations G = reservations F \<and> grants G = grants F \<and>
     resources G = resources F \<and> evidence G = evidence F \<and> incarnation G = incarnation F \<and> fences G = fences F \<and>
     claim_index G = claim_index F \<and> reservation_index G = reservation_index F \<and> epoch G = epoch F \<and>
     tick G = tick F \<and> generation G = generation F \<and> topology_generation G = topology_generation F \<and>
     transitions_total G = transitions_total F \<and> closed G = closed F"

lemma same_authoritative_refl [simp]: "same_authoritative F F"
  by (simp add: same_authoritative_def)

lemma same_authoritative_log:
  "same_authoritative F (store_attempt r G) = same_authoritative F G"
  "same_authoritative F (note_diagnostic d G) = same_authoritative F G"
  by (simp_all add: same_authoritative_def store_attempt_def note_diagnostic_def Let_def)

interpretation attempts_only: commit_invariant "same_authoritative F" "\<lambda>i G. \<exists>r. i = AttemptItem r" for F
proof
  show "same_authoritative F (snd (apply_item i G))" if "same_authoritative F G" "\<exists>r. i = AttemptItem r" for G i
    using that by (auto simp: apply_item.simps same_authoritative_log split: option.splits)
qed (simp_all add: same_authoritative_log, simp_all add: same_authoritative_def)

lemma record_attempt_same: "same_authoritative F (record_attempt_locked io r F)"
  by (rule attempts_only.record_attempt_inv) simp

text \<open>The effect of a refusal: nothing but the attempt log changes, or the store has failed and the runtime
  commits nothing any more.\<close>

definition refusal_effect :: "Fabric \<Rightarrow> RefusalCode \<Rightarrow> Fabric \<Rightarrow> bool" where
  "refusal_effect F code F' \<longleftrightarrow> same_authoritative F F' \<or> code = PersistenceFailure \<and> persistence_failed F'"

lemma run_handler_refused:
  assumes "run_handler io refused attempt decision F = (r, F')"
    and "\<And>kind items G g b. decision = Perform kind items G g b \<Longrightarrow> outcome g \<noteq> Refused"
    and "\<And>code b. code_of (refused code b) = code"
    and "outcome r = Refused"
  shows "refusal_effect F (code_of r) F'"
  using assms(1)
proof (cases rule: run_handler_Applied)
  case answer
  then show ?thesis by (simp add: refusal_effect_def)
next
  case (refuse code b)
  then show ?thesis by (simp add: refusal_effect_def record_attempt_same)
next
  case (failed kind items G g b)
  then show ?thesis using assms(3) commit_failed by (auto simp: refusal_effect_def)
next
  case (performed kind items G b)
  then show ?thesis using assms(2,4) by blast
qed

lemma reserve_refused:
  assumes "reserve io q F = (r, F')" "rr_outcome r = Refused"
  shows "refusal_effect F (rr_refusal r) F'"
  using assms(1) unfolding reserve_def
  by (rule run_handler_refused [where outcome = rr_outcome and code_of = rr_refusal])
    (use assms in \<open>auto simp: reservation_refused_def elim: decide_reserve_Perform\<close>)

lemma renew_refused:
  assumes "renew_reservation io q F = (r, F')" "rr_outcome r = Refused"
  shows "refusal_effect F (rr_refusal r) F'"
  using assms(1) unfolding renew_reservation_def
  by (rule run_handler_refused [where outcome = rr_outcome and code_of = rr_refusal])
    (use assms in \<open>auto simp: reservation_refused_def elim: decide_renew_Perform\<close>)

lemma release_refused_effect:
  assumes "release_reservation io q F = (r, F')" "rl_outcome r = Refused"
  shows "refusal_effect F (rl_refusal r) F'"
  using assms(1) unfolding release_reservation_def
  by (rule run_handler_refused [where outcome = rl_outcome and code_of = rl_refusal])
    (use assms in \<open>auto simp: release_refused_def elim: decide_release_Perform\<close>)

lemma begin_activation_refused:
  assumes "begin_activation io q F = (r, F')" "av_outcome r = Refused"
  shows "refusal_effect F (av_refusal r) F'"
  using assms(1) unfolding begin_activation_def
  by (rule run_handler_refused [where outcome = av_outcome and code_of = av_refusal])
    (use assms in \<open>auto simp: activation_refused_def elim: decide_begin_activation_Perform\<close>)

lemma commit_activation_refused:
  assumes "commit_activation io q F = (r, F')" "av_outcome r = Refused"
  shows "refusal_effect F (av_refusal r) F'"
  using assms(1) unfolding commit_activation_def
  by (rule run_handler_refused [where outcome = av_outcome and code_of = av_refusal])
    (use assms in \<open>auto simp: activation_refused_def elim: decide_commit_activation_Perform\<close>)

lemma withdraw_refused:
  assumes "withdraw io q F = (r, F')" "wr_outcome r = Refused"
  shows "refusal_effect F (wr_refusal r) F'"
  using assms(1) unfolding withdraw_def
  by (rule run_handler_refused [where outcome = wr_outcome and code_of = wr_refusal])
    (use assms in \<open>auto simp: withdrawal_refused_def elim: decide_withdraw_Perform\<close>)

lemma revalidate_refused:
  assumes "revalidate io q F = (r, F')" "rw_outcome r = Refused"
  shows "refusal_effect F (rw_refusal r) F'"
  using assms(1) unfolding revalidate_def
  by (rule run_handler_refused [where outcome = rw_outcome and code_of = rw_refusal])
    (use assms in \<open>auto simp: revalidation_refused_def elim: decide_revalidate_Perform\<close>)

lemma report_degraded_refused:
  assumes "report_degraded io q F = (r, F')" "hr_outcome r = Refused"
  shows "refusal_effect F (hr_refusal r) F'"
  using assms(1) unfolding report_degraded_def apply_health_def
  by (rule run_handler_refused [where outcome = hr_outcome and code_of = hr_refusal])
    (use assms in \<open>auto simp: health_refused_def elim: decide_health_Perform\<close>)

lemma report_failed_refused:
  assumes "report_failed io q F = (r, F')" "hr_outcome r = Refused"
  shows "refusal_effect F (hr_refusal r) F'"
  using assms(1) unfolding report_failed_def apply_health_def
  by (rule run_handler_refused [where outcome = hr_outcome and code_of = hr_refusal])
    (use assms in \<open>auto simp: health_refused_def elim: decide_health_Perform\<close>)

lemmas refused_effects = reserve_refused renew_refused release_refused_effect begin_activation_refused
  commit_activation_refused withdraw_refused revalidate_refused report_degraded_refused report_failed_refused

text \<open>Validation alone records its refusal in the object, when the evidence is what it refuses for.\<close>

interpretation object_only: commit_invariant
  "\<lambda>G. reservations G = reservations F \<and> grants G = grants F \<and> resources G = resources F \<and> evidence G = evidence F"
  "\<lambda>i G. (\<exists>r. i = AttemptItem r) \<or> (\<exists>u. i = ConnectivityItem u)" for F
  by unfold_locales (auto simp: apply_item.simps split: option.splits)

lemma validate_refused:
  assumes "validate io q F = (r, F')" "vr_outcome r = Refused"
  shows "refusal_effect F (vr_refusal r) F' \<or>
    (\<exists>rec u. map_of (objects F) (vq_connectivity q) = Some rec \<and> cr_state rec = Proposed \<and>
       \<not> healthy (assess_locked F (cr_path rec) (cr_requirements rec)) \<and>
       reload_connectivity (limits F)
         (unhealthy_record F (vq_attempt q) (assess_locked F (cr_path rec) (cr_requirements rec)) rec) = Some u \<and>
       objects F' = map_put (cr_id rec) u (objects F) \<and> reservations F' = reservations F \<and> grants F' = grants F \<and>
       resources F' = resources F \<and> evidence F' = evidence F)"
  using assms(1) unfolding validate_def
proof (cases rule: run_handler_Applied)
  case answer
  then show ?thesis by (simp add: refusal_effect_def)
next
  case (refuse code b)
  then show ?thesis by (simp add: refusal_effect_def record_attempt_same)
next
  case (failed kind items G g b)
  then show ?thesis using commit_failed by (auto simp: refusal_effect_def validation_refused_def)
next
  case (performed kind items G b)
  from performed(1) show ?thesis
  proof (cases rule: decide_validate_Perform)
    case (1 rec updated outcome code)
    let ?a = "assess_locked F (cr_path rec) (cr_requirements rec)"
    let ?attempt = "AttemptItem (attempt_of ''validate'' (vq_attempt q) (digest_validate_request q) outcome code
        (vq_connectivity q) 0 F)"
    have sick: "\<not> healthy ?a" "updated = unhealthy_record F (vq_attempt q) ?a rec"
      using 1 assms(2) by (auto split: if_splits)
    have items: "items = ConnectivityItem updated # [?attempt]" using 1 by simp
    obtain u where u: "reload_connectivity (limits G) updated = Some u" "objects F' = map_put (cr_id u) u (objects G)"
      using commit_stores_object [OF performed(2) [unfolded items]] performed(3) items by auto
    have G: "limits G = limits F" "objects G = objects F" "reservations G = reservations F" "grants G = grants F"
        "resources G = resources F" "evidence G = evidence F"
      using 1 by (auto simp: count_transition_def)
    have "cr_id u = cr_id rec"
      using u(1) sick(2)
      by (auto simp: reload_connectivity_def unhealthy_record_def Let_def split: if_splits sum.splits)
    moreover have "reservations F' = reservations F \<and> grants F' = grants F \<and> resources F' = resources F \<and> evidence F' = evidence F"
      unfolding performed(3) items by (rule object_only.commit_inv) (simp_all add: G)
    ultimately show ?thesis using 1(3,4) sick u G by auto
  qed
qed

section \<open>An applied activation\<close>

lemma decide_commit_activation_Answer:
  "decide_commit_activation F q = Answer r \<Longrightarrow> av_outcome r \<noteq> Applied"
  by (auto simp: decide_commit_activation_def Let_def replay_outcome_def split: if_splits option.splits)

lemma consume_items_quiet: "i \<in> set (consume_items F rec) \<Longrightarrow> \<not> writes_objects i"
  by (auto simp: consume_items_def split: if_splits option.splits)

lemma commit_activation_Applied:
  assumes "commit_activation io q F = (r, F')" "av_outcome r = Applied"
  obtains rec u where "\<not> closed F" "map_of (attempts F) (cmq_attempt q) = None"
    "map_of (objects F) (cmq_connectivity q) = Some rec" "cr_state rec = Activating"
    "cmq_activation_digest q = cr_activation_digest rec" "cr_activation_digest rec \<noteq> nil_digest"
    "require_authority_locked F (cmq_authority q) (object_scope_locked F rec) = RNone"
    "healthy (assess_locked F (cr_path rec) (cr_requirements rec))"
    "check_claims_locked F (path_resources rec) (pd_channel (cr_path rec)) (cr_id rec) (cr_reservation rec) = NoConflict"
    "objects F' = map_put (cr_id rec) u (objects F)" "reload_connectivity (limits F) (active_record F q rec) = Some u"
  using assms(1) unfolding commit_activation_def
proof (cases rule: run_handler_Applied)
  case answer
  then show ?thesis using decide_commit_activation_Answer assms(2) by blast
next
  case (performed kind items G b)
  from performed(1) show ?thesis
  proof (cases rule: decide_commit_activation_Perform)
    case (1 rec)
    let ?rest = "consume_items F rec @ [AttemptItem (attempt_of ''commit_activation'' (cmq_attempt q)
        (digest_commit_request q) Applied RNone (cmq_connectivity q) (cr_reservation rec) F)]"
    have items: "items = ConnectivityItem (active_record F q rec) # ?rest" using 1 by simp
    have quiet: "\<forall>i \<in> set ?rest. \<not> writes_objects i" using consume_items_quiet by auto
    obtain u where u: "reload_connectivity (limits G) (active_record F q rec) = Some u"
        "objects F' = map_put (cr_id u) u (objects G)"
      using commit_stores_object [OF performed(2) [unfolded items] quiet] performed(3) items by auto
    have "limits G = limits F" "objects G = objects F" using 1 by (simp_all add: count_transition_def)
    moreover have "cr_id u = cr_id rec"
      using u(1) by (auto simp: reload_connectivity_def active_record_def split: if_splits sum.splits)
    ultimately show ?thesis using that 1 u by simp
  qed
qed (use assms(2) in \<open>auto simp: activation_refused_def\<close>)

section \<open>Repeating an applied request\<close>

lemma apply_item_closed [simp]: "closed (snd (apply_item i F)) = closed F"
  by (cases i) (simp_all add: apply_item.simps rebuild_indices_def store_attempt_def Let_def split: option.splits)

lemma apply_decoded_closed [simp]: "closed (snd (apply_decoded items F)) = closed F"
  by (induction items arbitrary: F) (simp_all add: Let_def case_prod_beta)

lemma apply_decoded_append_Ok:
  "fst (apply_decoded (is @ js) F) = Ok \<Longrightarrow>
     fst (apply_decoded is F) = Ok \<and> apply_decoded (is @ js) F = apply_decoded js (snd (apply_decoded is F))"
  by (induction "is" arbitrary: F) (auto simp: Let_def case_prod_beta split: if_splits)

lemma apply_decoded_limits [simp]: "limits (snd (apply_decoded items F)) = limits F"
  by (induction items arbitrary: F) (simp_all add: Let_def case_prod_beta)

lemma commit_stores_attempt:
  assumes "fst (commit io kind (items @ [AttemptItem a]) F) = Ok" "logs_inv F" "valid_limits F"
  shows "map_of (attempts (snd (commit io kind (items @ [AttemptItem a]) F))) (ar_attempt a) = Some a"
    and "closed (snd (commit io kind (items @ [AttemptItem a]) F)) = closed F"
proof -
  obtain j where j: "snd (commit io kind (items @ [AttemptItem a]) F) =
      (snd (apply_decoded (items @ [AttemptItem a]) F))\<lparr>journal := j\<rparr>"
    using commit_Ok(4) [OF assms(1)] by blast
  let ?G = "snd (apply_decoded items F)"
  have ok: "apply_decoded (items @ [AttemptItem a]) F = apply_decoded [AttemptItem a] ?G"
    and "fst (apply_decoded (items @ [AttemptItem a]) F) = Ok"
    using apply_decoded_append_Ok commit_Ok(3) [OF assms(1)] by blast+
  then have applied: "snd (apply_decoded (items @ [AttemptItem a]) F) = store_attempt a ?G"
    by (auto simp: apply_item.simps reload_attempt_def split: if_splits)
  have "logs_inv ?G" using assms(2) by (rule logs.apply_decoded_inv) (simp add: all_ok_stable)
  moreover have "0 < max_attempt_history_total (limits ?G)"
    using assms(3) limits_valid_positive(2) by (simp add: valid_limits_def)
  ultimately show "map_of (attempts (snd (commit io kind (items @ [AttemptItem a]) F))) (ar_attempt a) = Some a"
    using logs_store_attempt(2) by (simp add: j applied)
  show "closed (snd (commit io kind (items @ [AttemptItem a]) F)) = closed F" by (simp add: j)
qed

lemma commit_activation_replayed:
  assumes "commit_activation io q F = (r, F')" "av_outcome r = Applied" "logs_inv F" "valid_limits F"
  shows "\<exists>r'. commit_activation io' q F' = (r', F') \<and> av_outcome r' = IdempotentReplay"
  using assms(1) [unfolded commit_activation_def]
proof (cases rule: run_handler_Applied)
  case answer
  then show ?thesis using decide_commit_activation_Answer assms(2) by blast
next
  case (performed kind items G b)
  from performed(1) show ?thesis
  proof (cases rule: decide_commit_activation_Perform)
    case (1 rec)
    let ?a = "attempt_of ''commit_activation'' (cmq_attempt q) (digest_commit_request q) Applied RNone
        (cmq_connectivity q) (cr_reservation rec) F"
    have items: "items = (ConnectivityItem (active_record F q rec) # consume_items F rec) @ [AttemptItem ?a]"
      using 1 by simp
    have "logs_inv G" "valid_limits G" "closed G = closed F"
      using assms(3,4) 1 by (simp_all add: count_transition_def logs_inv_def valid_limits_def)
    then have "map_of (attempts F') (ar_attempt ?a) = Some ?a" "\<not> closed F'"
      using commit_stores_attempt [OF performed(2) [unfolded items]] performed(3) items 1(1) by simp_all
    then have "decide_commit_activation F' q = Answer r'' \<Longrightarrow> av_outcome r'' = IdempotentReplay" for r''
      by (auto simp: decide_commit_activation_def find_attempt_locked_def attempt_of_def attempt_conflicts_def
          replay_outcome_def Let_def split: option.splits)
    moreover have "\<exists>r''. decide_commit_activation F' q = Answer r''"
      using \<open>map_of (attempts F') (ar_attempt ?a) = Some ?a\<close> \<open>\<not> closed F'\<close>
      by (simp add: decide_commit_activation_def find_attempt_locked_def attempt_of_def attempt_conflicts_def Let_def)
    ultimately show ?thesis by (auto simp: commit_activation_def run_handler_def)
  qed
qed (use assms(2) in \<open>auto simp: activation_refused_def\<close>)

section \<open>Granted authority\<close>

lemma acquire_authority_Applied:
  assumes "acquire_authority io q F = (r, F')" "au_outcome r = Applied"
  shows "\<not> closed F" "aq_holder q \<noteq> 0" "scope_kind (aq_scope q) \<noteq> ScopeNone" "aq_lease_ticks q \<noteq> 0"
    "aq_lease_ticks q \<le> max_lease_ticks F" "length (grants F) < max_authority_grants (limits F)" "epoch F + 1 \<noteq> 0"
    "au_token r = token_of (gs_view (new_grant F q))"
    "fst (commit io RkAuthorityGranted (acquire_items F q)
       (F\<lparr>grants := fence_overlapping F (aq_scope q) (epoch F + 1)\<rparr>)) = Ok"
    "F' = snd (commit io RkAuthorityGranted (acquire_items F q)
       (F\<lparr>grants := fence_overlapping F (aq_scope q) (epoch F + 1)\<rparr>))"
  using assms
  by (auto simp: acquire_authority_def authority_refused_def Let_def case_prod_beta not_le not_less split: if_splits)

lemma apply_decoded_foldl:
  "fst (apply_decoded items F) = Ok \<Longrightarrow> snd (apply_decoded items F) = foldl (\<lambda>S i. snd (apply_item i S)) F items"
  by (induction items arbitrary: F) (auto simp: Let_def case_prod_beta split: if_splits)

lemma acquire_grants_after:
  assumes "acquire_authority io q F = (r, F')" "au_outcome r = Applied"
  obtains H where "clear_of (aq_scope q) H"
    "grants F' = map_put (gv_id (gs_view (new_grant F q))) (reload_grant (new_grant F q)) (grants H)"
    "tick F' = tick F" "boot F' = boot F"
proof -
  let ?G = "F\<lparr>grants := fence_overlapping F (aq_scope q) (epoch F + 1)\<rparr>"
  let ?dead = "fence_items F (aq_scope q) (epoch F + 1)"
  let ?H = "foldl (\<lambda>S i. snd (apply_item i S)) ?G ?dead"
  note ok = acquire_authority_Applied(9,10) [OF assms]
  obtain j where "F' = (snd (apply_decoded (acquire_items F q) ?G))\<lparr>journal := j\<rparr>"
    using commit_Ok(4) [OF ok(1)] ok(2) by blast
  then have F': "F' = (foldl (\<lambda>S i. snd (apply_item i S)) ?G (acquire_items F q))\<lparr>journal := j\<rparr>"
    using apply_decoded_foldl [OF commit_Ok(3) [OF ok(1)]] by simp
  have "\<forall>i \<in> set ?dead. dead_item i" by (auto simp: fence_items_def dead_item_def)
  moreover have "clear_of (aq_scope q) ?G"
    by (auto simp: clear_of_def fence_overlapping_def supersedes_def split: if_splits)
  ultimately have "clear_of (aq_scope q) ?H" using dead_items by blast
  then show ?thesis
    by (rule that) (simp_all add: F' acquire_items_def apply_item.simps Let_def runtime_state_def split: option.splits)
qed

lemma acquired_token_current:
  assumes "acquire_authority io q F = (r, F')" "au_outcome r = Applied"
    and "reload_scope (aq_scope q) = aq_scope q" "tick F < tick F + aq_lease_ticks q"
  shows "check_authority_locked F' (au_token r) = Current"
proof -
  note ap = acquire_authority_Applied [OF assms(1,2)]
  obtain H where H: "clear_of (aq_scope q) H"
      "grants F' = map_put (gv_id (gs_view (new_grant F q))) (reload_grant (new_grant F q)) (grants H)"
      "tick F' = tick F" "boot F' = boot F"
    by (rule acquire_grants_after [OF assms(1,2)])
  have reload: "reload_grant (new_grant F q) = new_grant F q"
    using assms(3) by (simp add: reload_grant_def new_grant_def)
  have "\<not> (grant_live g \<and> overlaps (gv_scope (gs_view g)) (aq_scope q) \<and> epoch F + 1 < gv_epoch (gs_view g))"
    if "(i, g) \<in> set (grants F')" for i g
  proof -
    have "(i, g) \<in> insert (gv_id (gs_view (new_grant F q)), new_grant F q) (set (grants H))"
      using that set_map_put unfolding H(2) reload by fast
    then show ?thesis using H(1) by (auto simp: clear_of_def new_grant_def)
  qed
  then have "\<not> has_overlapping_newer_epoch F' (aq_scope q) (epoch F + 1)"
    unfolding has_overlapping_newer_epoch_def by blast
  moreover have "map_of (grants F') (gv_id (gs_view (new_grant F q))) = Some (new_grant F q)"
    by (simp add: H(2) reload)
  moreover have "gv_id (gs_view (new_grant F q)) \<noteq> 0" by (simp add: new_grant_def derive_grant_id_def)
  ultimately show ?thesis
    using ap(7) assms(4) H(3,4)
    by (simp add: check_authority_locked_def ap(8) token_of_def token_is_nil_def Let_def) (simp add: new_grant_def leD not_le)
qed

text \<open>The token is accepted exactly when the stored grant has its scope and has not expired.\<close>

lemma acquired_token_iff:
  assumes "acquire_authority io q F = (r, F')" "au_outcome r = Applied"
  shows "check_authority_locked F' (au_token r) = Current \<longleftrightarrow>
    (scope_kind (aq_scope q) = ScopeSite \<or> scope_site (aq_scope q) = 0) \<and> tick F < tick F + aq_lease_ticks q"
proof -
  have scope: "reload_scope s = s \<longleftrightarrow> scope_kind s = ScopeSite \<or> scope_site s = 0" for s
    by (cases s) (auto simp: reload_scope_def)
  obtain H where "clear_of (aq_scope q) H"
    and H: "grants F' = map_put (gv_id (gs_view (new_grant F q))) (reload_grant (new_grant F q)) (grants H)"
      "tick F' = tick F" "boot F' = boot F"
    by (rule acquire_grants_after [OF assms])
  have "reload_scope (aq_scope q) = aq_scope q \<and> tick F < tick F + aq_lease_ticks q"
    if current: "check_authority_locked F' (au_token r) = Current"
  proof -
    obtain g where g: "map_of (grants F') (tok_grant (au_token r)) = Some g" "tok_scope (au_token r) = gv_scope (gs_view g)"
        "tick F' < gv_expiry_tick (gs_view g)"
      by (rule check_authority_Current [OF current])
    then have "g = reload_grant (new_grant F q)"
      by (simp add: H acquire_authority_Applied(8) [OF assms] token_of_def)
    then show ?thesis
      using g(2,3)
      by (simp add: H acquire_authority_Applied(8) [OF assms] token_of_def reload_grant_def new_grant_def)
  qed
  then show ?thesis using acquired_token_current [OF assms] scope by blast
qed

lemma acquired_token_displaces:
  assumes "acquire_authority io q F = (r, F')" "au_outcome r = Applied"
    and "overlaps (tok_scope t) (aq_scope q)" "check_authority_locked F' t = Current"
  shows "tok_grant t = tok_grant (au_token r)"
proof -
  obtain H where H: "clear_of (aq_scope q) H"
      "grants F' = map_put (gv_id (gs_view (new_grant F q))) (reload_grant (new_grant F q)) (grants H)"
    by (rule acquire_grants_after [OF assms(1,2)])
  obtain g where g: "map_of (grants F') (tok_grant t) = Some g" "grant_live g" "tok_scope t = gv_scope (gs_view g)"
    by (rule check_authority_Current [OF assms(4)])
  show ?thesis
  proof (rule ccontr)
    assume "tok_grant t \<noteq> tok_grant (au_token r)"
    then have "map_of (grants H) (tok_grant t) = Some g"
      using g(1) by (simp add: H(2) acquire_authority_Applied(8) [OF assms(1,2)] token_of_def)
    then have "(tok_grant t, g) \<in> set (grants H)" by (rule map_of_SomeD)
    then show False using H(1) g(2,3) assms(3) by (force simp: clear_of_def)
  qed
qed

end
