(* ===== verification/Restart.thy ===== *)
theory Restart
  imports Outcomes
begin

text \<open>
  What a restart leaves behind: whatever journal the process finds, a runtime that came up open
  holds no live grant, has no activation or withdrawal in flight and no confirmed authority on a
  committed path, and runs under the next boot sequence.
\<close>

definition settled :: "ConnectivityRecord \<Rightarrow> bool" where
  "settled r \<longleftrightarrow> cr_state r \<noteq> Activating \<and> cr_state r \<noteq> Withdrawing \<and>
     (is_committed_state (cr_state r) \<longrightarrow> \<not> cr_authority_confirmed r)"

definition conservative :: "Fabric \<Rightarrow> bool" where
  "conservative F \<longleftrightarrow> (\<forall>e \<in> set (grants F). \<not> grant_live (snd e)) \<and> (\<forall>e \<in> set (objects F). settled (snd e))"

fun conservative_ok :: "CommitItem \<Rightarrow> Fabric \<Rightarrow> bool" where
  "conservative_ok (GrantItem g) F \<longleftrightarrow> \<not> grant_live g"
| "conservative_ok (ConnectivityItem r) F \<longleftrightarrow> settled r"
| "conservative_ok i F \<longleftrightarrow> True"

interpretation cautious: stable_invariant conservative conservative_ok
proof
  show "conservative (snd (apply_item i F))" if "conservative F" "conservative_ok i F" for i F
  proof (cases i)
    case (GrantItem g)
    then show ?thesis
      using that set_map_put [of "gv_id (gs_view g)" "reload_grant g" "grants F"]
      by (auto simp: apply_item.simps conservative_def Let_def)
  next
    case (ConnectivityItem r)
    show ?thesis
    proof (cases "reload_connectivity (limits F) r")
      case (Some r')
      then have "settled r'" using that ConnectivityItem by (simp add: settled_def reload_keeps)
      then show ?thesis
        using that Some ConnectivityItem set_map_put [of "cr_id r'" r' "objects F"]
        by (auto simp: apply_item.simps conservative_def)
    qed (use that ConnectivityItem in \<open>simp add: apply_item.simps\<close>)
  qed (use that in \<open>auto simp: apply_item.simps conservative_def Let_def split: option.splits\<close>)
  show "conservative_ok j (snd (apply_item i F))" if "conservative_ok j F" for i j F
    using that by (cases j) auto
qed (simp_all add: conservative_def)

lemma recovered_settled: "settled (recovered_record F r)"
  by (auto simp: settled_def recovered_record_def recovery_change_def is_committed_state_def split: RecoveryChange.splits)

lemma recovery_prepared_conservative: "conservative (recovery_prepared recovered F)"
  by (auto simp: conservative_def recovery_prepared_def recovery_grant_def recovered_settled Let_def)

lemma recovery_items_ok: "i \<in> set (recovery_items recovered F) \<Longrightarrow> conservative_ok i G"
  by (auto simp: recovery_items_def recovery_grant_items_def recovery_grant_def recovery_object_items_def
      recovered_settled Let_def split: if_splits)

lemma mark_recovery_conservatively: "conservative (snd (mark_recovery_conservative io previous F))"
  unfolding mark_recovery_conservative_def Let_def
  by (rule cautious.commit_items_inv) (auto simp: recovery_prepared_conservative recovery_items_ok)

lemma construct_conservative:
  assumes "construct io inst op opened records = Inr F" "\<not> closed F"
  shows "conservative F"
proof -
  obtain F1 where F: "F = snd (write_checkpoint io (snd (mark_recovery_conservative io (boot F1)
      (next_incarnation inst (op_host_label op) (start_counters F1)))))"
    using assms
    by (auto simp: construct_def open_and_recover_def Let_def case_prod_beta split: if_splits)
  show ?thesis
    unfolding F by (intro cautious.write_checkpoint_inv mark_recovery_conservatively)
qed

text \<open>No token survives a restart.\<close>

lemma conservative_no_authority:
  assumes "conservative F" shows "check_authority_locked F t \<noteq> Current"
proof
  assume "check_authority_locked F t = Current"
  then obtain g where "map_of (grants F) (tok_grant t) = Some g" "grant_live g"
    by (rule check_authority_Current)
  then show False using assms by (force simp: conservative_def dest: map_of_SomeD)
qed

fun boot_kept :: "u64 \<Rightarrow> CommitItem \<Rightarrow> bool" where
  "boot_kept b (RuntimeItem s) \<longleftrightarrow> rt_boot_sequence s = b"
| "boot_kept b i \<longleftrightarrow> True"

interpretation booted: stable_invariant "\<lambda>F. boot F = b" "\<lambda>i F. boot_kept b i" for b
proof
  show "boot (snd (apply_item i F)) = b" if "boot F = b" "boot_kept b i" for i F
    using that by (cases i) (simp_all add: apply_item.simps Let_def split: option.splits)
qed simp_all

lemma mark_recovery_boot: "boot (snd (mark_recovery_conservative io previous F)) = boot F"
  unfolding mark_recovery_conservative_def Let_def
  by (rule booted.commit_items_inv)
    (auto simp: recovery_prepared_def recovery_items_def recovery_epoch_def recovery_grant_items_def
      recovery_object_items_def Let_def split: if_splits)

lemma construct_boot:
  assumes "construct io inst op opened records = Inr F" "\<not> closed F"
  obtains F1 where "replay records ((initial_fabric op)\<lparr>store_open := True, journal := records\<rparr>) = (Ok, F1)"
    "boot F = boot F1 + 1"
proof -
  obtain st F1 where r: "replay records ((initial_fabric op)\<lparr>store_open := True, journal := records\<rparr>) = (st, F1)"
    by fastforce
  have st: "st = Ok" and F: "F = snd (write_checkpoint io (snd (mark_recovery_conservative io (boot F1)
      (next_incarnation inst (op_host_label op) (start_counters F1)))))"
    using assms by (auto simp: construct_def open_and_recover_def r Let_def case_prod_beta split: if_splits)
  have "boot (next_incarnation inst (op_host_label op) (start_counters F1)) = boot F1 + 1"
    by (simp add: next_incarnation_def start_counters_def)
  then have "boot F = boot F1 + 1"
    unfolding F by (intro booted.write_checkpoint_inv) (simp add: mark_recovery_boot)
  with r st that show ?thesis by blast
qed

end
