(* ===== verification/Scenario.thy ===== *)
theory Scenario
  imports Restart
begin

text \<open>
  Concrete inputs at which the properties of the library are exercised: a runtime that keeps its
  state in memory, started with the default limits; one site, one node, two ports and a span
  between them; a global grant; and an intent to connect the two ports. The states are computed
  by simplification, the derived identities stay symbolic.
\<close>

section \<open>Inputs\<close>

definition sample_io :: StoreIo where
  "sample_io = \<lparr>io_append = IoDone, io_compact = False, io_rewrite = IoDone\<rparr>"

definition sample_options :: FabricOptions where
  "sample_options = \<lparr>op_limits = default_limits, op_max_lease_ticks = 1000, op_policy = conservative_policy,
     op_memory_only = True, op_initial_tick = 1, op_host_label = ''lab''\<rparr>"

definition sample_site :: SiteRegistration where
  "sample_site = \<lparr>site_name = ''a'', site_region = '''', site_sharing = Exclusive, site_description = ''''\<rparr>"

definition sample_node :: OpticalNodeRegistration where
  "sample_node = \<lparr>node_name = ''n'', node_site = derive_resource KSite ''a'', node_role = '''',
     node_sharing = Exclusive\<rparr>"

definition sample_port :: "string \<Rightarrow> PortRegistration" where
  "sample_port n = \<lparr>port_name = n, port_node = derive_resource KOpticalNode ''n'', port_role = '''',
     port_sharing = Exclusive\<rparr>"

definition sample_span :: SpanRegistration where
  "sample_span = \<lparr>span_name = ''s'', span_endpoint_a = derive_resource KPort ''p'',
     span_endpoint_b = derive_resource KPort ''q'', span_declared_length_metres = 80000,
     span_sharing = Exclusive\<rparr>"

definition sample_authority :: AuthorityRequest where
  "sample_authority = \<lparr>aq_attempt = 7, aq_holder = 9, aq_scope = scope_global, aq_lease_ticks = 100,
     aq_reason = ''''\<rparr>"

definition sample_requirements :: IntentRequirements where
  "sample_requirements = \<lparr>require_capability_evidence = False, require_operational_evidence = False,
     require_attachment_evidence = False, additional_required_kinds = [], allow_unsupported_advisory = True\<rparr>"

definition sample_intent :: ConnectivityIntent where
  "sample_intent = \<lparr>in_name = ''c'', in_owner = ''o'', in_source_port = derive_resource KPort ''p'',
     in_destination_port = derive_resource KPort ''q'', in_channel = 0, in_direction = Forward,
     in_requirements = sample_requirements, in_reservation_ttl_ticks = 50\<rparr>"

section \<open>States\<close>

definition sample_start :: Fabric where
  "sample_start = (case construct sample_io (Digest128 1 2) sample_options Ok [] of
     Inr F \<Rightarrow> F | Inl e \<Rightarrow> initial_fabric sample_options)"

definition with_site :: Fabric where "with_site = snd (register_site sample_io sample_site sample_start)"
definition with_node :: Fabric where "with_node = snd (register_optical_node sample_io sample_node with_site)"
definition with_port :: Fabric where "with_port = snd (register_port sample_io (sample_port ''p'') with_node)"
definition with_ports :: Fabric where "with_ports = snd (register_port sample_io (sample_port ''q'') with_port)"
definition with_span :: Fabric where "with_span = snd (register_span sample_io sample_io sample_span with_ports)"

definition with_grant :: Fabric where
  "with_grant = snd (acquire_authority sample_io sample_authority with_span)"

definition with_object :: Fabric where
  "with_object = snd (submit_intent sample_io None with_grant with_grant sample_intent with_grant)"

definition sample_trace :: "Fabric list" where
  "sample_trace = [with_object, with_grant, with_span, with_ports, with_port, with_node, with_site, sample_start]"

text \<open>The states in closed form.\<close>

definition sample_state :: "(ResourceRef, ResourceState) omap \<Rightarrow> u64 \<Rightarrow> Fabric" where
  "sample_state rs g = \<lparr>limits = default_limits, max_lease_ticks = 1000, policy = conservative_policy,
      memory_only = True, store_open = True, closed = False, persistence_failed = False,
      incarnation = \<lparr>boot_sequence = 1, inc_instance = Digest128 1 2, inc_host_label = ''lab''\<rparr>, epoch = 0,
      tick = 1, generation = g, topology_generation = g, resources = rs, evidence = [], objects = [],
      reservations = [], grants = [], attempts = [], attempt_order = [], fences = [], diagnostics = [],
      diagnostics_dropped = 0, sources = [], claim_index = [], reservation_index = [],
      transitions_total = 0, journal = []\<rparr>"

definition enrolled :: "ResourceState \<Rightarrow> ResourceRef list \<Rightarrow> ResourceState" where
  "enrolled s rel = s\<lparr>rs_generation := 1, rs_registered_tick := 1, rs_related := rel\<rparr>"

abbreviation site_a :: ResourceRef where "site_a \<equiv> ResourceRef KSite (derive_resource KSite ''a'')"
abbreviation node_n :: ResourceRef where "node_n \<equiv> ResourceRef KOpticalNode (derive_resource KOpticalNode ''n'')"
abbreviation port_p :: ResourceRef where "port_p \<equiv> ResourceRef KPort (derive_resource KPort ''p'')"
abbreviation port_q :: ResourceRef where "port_q \<equiv> ResourceRef KPort (derive_resource KPort ''q'')"
abbreviation span_s :: ResourceRef where "span_s \<equiv> ResourceRef KSpan (derive_resource KSpan ''s'')"

abbreviation row_site :: ResourceState where "row_site \<equiv> enrolled (site_resource sample_site) [node_n]"
abbreviation row_node :: "ResourceRef list \<Rightarrow> ResourceState" where
  "row_node \<equiv> enrolled (node_resource sample_node)"
abbreviation row_port :: "string \<Rightarrow> ResourceRef list \<Rightarrow> ResourceState" where
  "row_port n \<equiv> enrolled (port_resource (sample_port n) (node_resource sample_node))"

definition sample_topology :: "(ResourceRef, ResourceState) omap" where
  "sample_topology =
     [(site_a, row_site), (node_n, row_node [site_a, port_p, port_q]),
      (port_p, row_port ''p'' [node_n, span_s]), (port_q, row_port ''q'' [node_n, span_s]),
      (span_s, enrolled (span_resource sample_span) [port_p, port_q])]"

definition sample_grant :: GrantState where
  "sample_grant = new_grant (sample_state sample_topology 6) sample_authority"

definition sample_path :: PathDescriptor where
  "sample_path = \<lparr>pd_segments = [PathSegment RolePort port_p 1, PathSegment RoleSpan span_s 1,
       PathSegment RolePort port_q 1],
     pd_channel = 0, pd_channel_generation = 0, pd_direction = Forward, pd_route_origin = ''declared-route''\<rparr>"

definition sample_canonical :: CanonicalPath where
  "sample_canonical = \<lparr>cp_canonical_text = canonical_text sample_path,
     cp_identity = path_digest (canonical_text sample_path), cp_segment_count = 3\<rparr>"

abbreviation sample_object :: "Fabric \<Rightarrow> ConnectivityRecord" where
  "sample_object F \<equiv> proposed_record F sample_intent sample_path sample_canonical"

section \<open>Their computation\<close>

lemma ports_ordered: "derive_resource KPort ''p'' < derive_resource KPort ''q''"
  by code_simp

lemma default_limits_select [simp]: "max_journal_records default_limits = 200000"
  by (simp add: default_limits_def)

lemmas sample_inputs = sample_site_def sample_node_def sample_port_def sample_span_def site_resource_def
  node_resource_def port_resource_def span_resource_def sample_state_def enrolled_def

lemmas run_simps = register_resource_locked_def find_resource_def names_valid_def is_name_byte_def
  is_separator_def named_resource_def blank_resource_def count_of_kind_def register_items_def
  owner_update_def ref_encodable_def apply_item.simps reload_resource_def bundle_decodable_def
  runtime_state_def default_limits_def nil_ref_def ref_is_nil_def Let_def commit_def store_append_def
  store_active_def write_checkpoint_def sample_io_def same_resource_def less_ResourceRef_def
  less_ResourceKind_def port_ref_def

lemma commit_memory:
  assumes "memory_only F" "\<not> persistence_failed F" "bundle_decodable (limits F) items"
    and "apply_decoded items F = (Ok, F')" "memory_only F'"
  shows "commit io kind items F = (Ok, F')"
  using assms
  by (cases "io_compact io") (simp_all add: commit_def store_append_def store_active_def write_checkpoint_def)

lemma sample_start_state: "sample_start = sample_state [] 1"
  by (simp add: sample_start_def construct_def sample_options_def default_limits_valid open_and_recover_def
      start_counters_def next_incarnation_def initial_fabric_def nil_incarnation_def
      mark_recovery_conservative_def recovery_of_nothing Let_def commit_def bundle_decodable_def
      store_append_def store_active_def write_checkpoint_def rebuild_indices_def committed_claims_def
      reserved_resources_def build_index_def apply_item.simps runtime_state_def sample_state_def)

lemma with_site_state: "with_site = sample_state [(site_a, enrolled (site_resource sample_site) [])] 2"
  by (simp add: with_site_def sample_start_state register_site_def sample_inputs run_simps)

lemma with_node_state: "with_node = sample_state [(site_a, row_site), (node_n, row_node [site_a])] 3"
  by (simp add: with_node_def with_site_state register_optical_node_def sample_inputs run_simps)

lemma with_port_state:
  "with_port = sample_state [(site_a, row_site), (node_n, row_node [site_a, port_p]), (port_p, row_port ''p'' [node_n])] 4"
  by (simp add: with_port_def with_node_state register_port_def sample_inputs run_simps)

lemma with_ports_state:
  "with_ports = sample_state [(site_a, row_site), (node_n, row_node [site_a, port_p, port_q]),
     (port_p, row_port ''p'' [node_n]), (port_q, row_port ''q'' [node_n])] 5"
  using ports_ordered by (simp add: with_ports_def with_port_state register_port_def sample_inputs run_simps)

lemma with_span_state: "with_span = sample_state sample_topology 6"
  using ports_ordered
  by (simp add: with_span_def with_ports_state register_span_def link_related_locked_def sample_inputs
      sample_topology_def run_simps)

lemma with_grant_state:
  "with_grant = (sample_state sample_topology 6)\<lparr>epoch := 1, generation := 7,
     grants := [(derive_grant_id 9 scope_global 1, sample_grant)],
     attempts := [(7, acquire_attempt (sample_state sample_topology 6) sample_authority)], attempt_order := [7]\<rparr>"
  by (simp add: with_grant_def with_span_state acquire_authority_def sample_state_def sample_authority_def
      acquire_items_def fence_items_def fence_overlapping_def new_grant_def sample_grant_def reload_grant_def
      reload_scope_def scope_global_def acquire_attempt_def reload_attempt_def refusal_encodable_def
      store_attempt_def scope_fields_def run_simps)

section \<open>The route and the proposal\<close>

lemma topology_rows:
  "map_of sample_topology port_p = Some (row_port ''p'' [node_n, span_s])"
  "map_of sample_topology port_q = Some (row_port ''q'' [node_n, span_s])"
  "map_of sample_topology span_s = Some (enrolled (span_resource sample_span) [port_p, port_q])"
  using ports_ordered by (simp_all add: sample_topology_def)

lemma enrolled_fields:
  "rs_generation (enrolled s r) = 1" "rs_resource (enrolled s r) = rs_resource s"
  "rs_endpoint_a (enrolled s r) = rs_endpoint_a s" "rs_endpoint_b (enrolled s r) = rs_endpoint_b s"
  "rs_sharing (enrolled s r) = rs_sharing s" "rs_site (enrolled s r) = rs_site s"
  by (simp_all add: enrolled_def)

lemma row_fields:
  "rs_resource (port_resource (sample_port n) nd) = ResourceRef KPort (derive_resource KPort n)"
  "rs_endpoint_a (span_resource sample_span) = derive_resource KPort ''p''"
  "rs_endpoint_b (span_resource sample_span) = derive_resource KPort ''q''"
  "rs_resource (span_resource sample_span) = span_s"
  "rs_site (port_resource (sample_port n) (node_resource sample_node)) = derive_resource KSite ''a''"
  by (simp_all add: port_resource_def sample_port_def named_resource_def span_resource_def sample_span_def
      node_resource_def sample_node_def)

lemma sample_adjacency:
  assumes "resources F = sample_topology"
  shows "adjacency F KSpan = [(derive_resource KPort ''p'', [derive_resource KSpan ''s'']),
      (derive_resource KPort ''q'', [derive_resource KSpan ''s''])]" "adjacency F KCrossConnect = []"
  using ports_ordered assms
  by (simp_all add: adjacency_def sample_topology_def enrolled_fields row_fields build_index_def index_push_def
      link_near_def link_far_def)

lemma intent_fields [simp]:
  "in_name sample_intent = ''c''" "in_source_port sample_intent = derive_resource KPort ''p''"
  "in_destination_port sample_intent = derive_resource KPort ''q''" "in_channel sample_intent = 0"
  "in_direction sample_intent = Forward" "in_requirements sample_intent = sample_requirements"
  by (simp_all add: sample_intent_def)

lemma sample_route:
  assumes "resources F = sample_topology" "limits F = default_limits"
  shows "resolve_declared_route_locked F sample_intent = Inr sample_path"
  using ports_ordered assms
  by (simp add: resolve_declared_route_locked_def is_registered_port_def find_resource_def port_ref_def
      topology_rows enrolled_fields row_fields search_routes.simps sample_adjacency indexed_def default_limits_def
      initial_step_def registered_generation_def far_port_def link_near_def link_far_def with_channel_def
      sample_path_def Let_def)

lemma sample_canonicalized: "canonicalize_path sample_path default_limits = Inr sample_canonical"
  using ports_ordered
  by (simp add: canonicalize_path_Inr validate_path_structure_Ok sample_canonical_def sample_path_def
      default_limits_def ref_is_nil_def)

lemma sample_object_reload: "reload_connectivity default_limits (sample_object F) = Some (sample_object F)"
proof -
  have "0 < max_attempt_history_per_object default_limits" by (simp add: default_limits_def)
  moreover have "list_all (\<lambda>s. ref_encodable (seg_resource s)) (pd_segments sample_path)"
    by (simp add: sample_path_def ref_encodable_def)
  ultimately show ?thesis
    by (simp add: reload_connectivity_def proposed_record_def refusal_encodable_def sample_canonicalized
        kEvidenceKindCount_def reload_token_def nil_token_def reload_scope_def scope_none_def sample_requirements_def)
qed

lemma sample_object_fields:
  "item_fields (ConnectivityItem (sample_object F)) \<le> 100"
  "cr_id (sample_object F) = derive_named ''connectivity'' ''c''"
  by (simp_all add: proposed_record_def sample_requirements_def sample_path_def nil_token_def scope_none_def scope_fields_def)

lemma submit_sample:
  assumes "resources F = sample_topology" "limits F = default_limits" "\<not> closed F" "\<not> persistence_failed F"
    "memory_only F" "objects F = []"
  shows "is_outcome (fst (submit_intent io None F F sample_intent F)) = IntentAccepted"
    "objects (snd (submit_intent io None F F sample_intent F)) = [(derive_named ''connectivity'' ''c'', sample_object F)]"
    "reservations (snd (submit_intent io None F F sample_intent F)) = reservations F"
proof -
  let ?items = "[ConnectivityItem (sample_object F), RuntimeItem (runtime_state F (generation F + 1) (topology_generation F))]"
  have dec: "bundle_decodable (limits F) ?items"
    using sample_object_fields(1) [of F] assms(2) by (simp add: bundle_decodable_def Let_def del: item_fields.simps(5))
  obtain F' where F': "apply_decoded ?items F = (Ok, F')" "memory_only F'"
      "objects F' = [(derive_named ''connectivity'' ''c'', sample_object F)]" "reservations F' = reservations F"
    using assms by (simp add: apply_item.simps sample_object_reload sample_object_fields rebuild_indices_def Let_def)
  have commit: "commit io RkConnectivityTransition ?items F = (Ok, F')"
    using assms dec F' by (intro commit_memory) simp_all
  have name: "names_valid ''c'' (max_name_length default_limits)" "0 < max_connectivity_objects default_limits"
    by (simp_all add: names_valid_def is_name_byte_def is_separator_def default_limits_def)
  show "is_outcome (fst (submit_intent io None F F sample_intent F)) = IntentAccepted"
    "objects (snd (submit_intent io None F F sample_intent F)) = [(derive_named ''connectivity'' ''c'', sample_object F)]"
    "reservations (snd (submit_intent io None F F sample_intent F)) = reservations F"
    using assms F' less_imp_neq [OF ports_ordered] commit name
    by (simp_all add: submit_intent_def resolve_intent_path_def sample_route sample_canonicalized admit_intent_def Let_def)
qed

lemma with_object_objects:
  "objects with_object = [(derive_named ''connectivity'' ''c'', sample_object with_grant)]"
  unfolding with_object_def
  by (rule submit_sample(2)) (simp_all add: with_grant_state sample_state_def)

lemma with_object_unreserved: "reservations with_object = []"
proof -
  have "reservations with_object = reservations with_grant"
    unfolding with_object_def by (rule submit_sample(3)) (simp_all add: with_grant_state sample_state_def)
  then show ?thesis by (simp add: with_grant_state sample_state_def)
qed

text \<open>The object is proposed and reserves nothing: it holds no resource.\<close>

lemma sample_trace_records:
  "objects (hd sample_trace) = [(derive_named ''connectivity'' ''c'', sample_object with_grant)]"
  "reservations (hd sample_trace) = []" "\<not> holds_committed_claims (sample_object F)"
  by (simp_all add: sample_trace_def with_object_objects with_object_unreserved holds_committed_claims_def
      proposed_record_def)

section \<open>The trace is reachable\<close>

lemma sample_start_fresh: "fresh_start [sample_start]"
proof -
  have "\<exists>F. construct sample_io (Digest128 1 2) sample_options Ok [] = Inr F"
    by (simp add: construct_def sample_options_def default_limits_valid Let_def case_prod_beta)
  then obtain F where F: "construct sample_io (Digest128 1 2) sample_options Ok [] = Inr F" by blast
  then have "sample_start = F" by (simp add: sample_start_def)
  with F show ?thesis unfolding fresh_start_def by blast
qed

lemma sample_operations:
  "operation sample_start with_site" "operation with_site with_node" "operation with_node with_port"
  "operation with_port with_ports" "operation with_ports with_span" "operation with_span with_grant"
  unfolding with_site_def with_node_def with_port_def with_ports_def with_span_def with_grant_def
  by (rule operation.intros)+

lemma reach_operate:
  "reach fresh_start trace_step (F # hs) \<Longrightarrow> operation F F' \<Longrightarrow> reach fresh_start trace_step (F' # F # hs)"
  by (blast intro: reach_step trace_step.operate)

lemma sample_trace_reachable: "reach fresh_start trace_step sample_trace"
proof -
  have "reach fresh_start trace_step [with_grant, with_span, with_ports, with_port, with_node, with_site, sample_start]"
    by (intro reach_operate sample_operations reach_start sample_start_fresh)
  then show ?thesis
    unfolding sample_trace_def with_object_def by (rule reach_step) (rule trace_step.submit; simp)
qed

end
