(* ===== verification/Shortest.thy ===== *)
theory Shortest
  imports Route
begin

text \<open>
  The route search against its specification. \<open>resolve_declared_route_locked\<close> says that it stops
  at the first shortest chain it finds: a chain it returns is no longer than any other, and it
  answers that there is none only if there is none. The search works level by level, so the
  argument is about the levels of a relation (\<open>within\<close>), and the hops of the topology are one.
\<close>

section \<open>Levels of a relation\<close>

definition within :: "('p \<Rightarrow> 'p \<Rightarrow> bool) \<Rightarrow> 'p \<Rightarrow> nat \<Rightarrow> 'p set" where
  "within hop source n = {p. \<exists>m \<le> n. (hop ^^ m) source p}"

text \<open>The ports one hop away from a set.\<close>

definition beyond :: "('p \<Rightarrow> 'p \<Rightarrow> bool) \<Rightarrow> 'p set \<Rightarrow> 'p set" where
  "beyond hop P = {q. \<exists>p \<in> P. hop p q}"

text \<open>A level of the search: what has been visited is what lies within \<open>n\<close> hops, and only the
  frontier leads out of it.\<close>

definition level :: "('p \<Rightarrow> 'p \<Rightarrow> bool) \<Rightarrow> 'p \<Rightarrow> nat \<Rightarrow> 'p set \<Rightarrow> 'p set \<Rightarrow> bool" where
  "level hop source n visited frontier \<longleftrightarrow>
     visited = within hop source n \<and> frontier \<subseteq> visited \<and> beyond hop (visited - frontier) \<subseteq> visited"

lemma level_start: "level hop source 0 {source} {source}"
  by (auto simp: level_def within_def beyond_def)

lemma within_Suc: "within hop source (Suc n) = within hop source n \<union> beyond hop (within hop source n)"
proof -
  have "p \<in> within hop source n \<union> beyond hop (within hop source n)" if "(hop ^^ m) source p" "m \<le> Suc n" for m p
  proof (cases m)
    case 0
    with that(1) have "(hop ^^ 0) source p" by simp
    then show ?thesis unfolding within_def by blast
  next
    case (Suc k)
    with that obtain r where "(hop ^^ k) source r" "hop r p" "k \<le> n" by auto
    then show ?thesis unfolding within_def beyond_def by blast
  qed
  moreover have "p \<in> within hop source (Suc n)" if "p \<in> beyond hop (within hop source n)" for p
  proof -
    from that obtain r m where "(hop ^^ m) source r" "hop r p" "m \<le> n" by (auto simp: within_def beyond_def)
    then have "(hop ^^ Suc m) source p" "Suc m \<le> Suc n" by auto
    then show ?thesis unfolding within_def by blast
  qed
  ultimately show ?thesis by (auto simp: within_def le_Suc_eq)
qed

lemma level_step:
  assumes "level hop source n visited frontier"
  shows "level hop source (Suc n) (visited \<union> beyond hop frontier) (beyond hop frontier - visited)"
proof -
  have "beyond hop visited \<subseteq> visited \<union> beyond hop frontier"
    using assms by (fastforce simp: level_def beyond_def)
  moreover have "beyond hop frontier \<subseteq> beyond hop visited"
    using assms by (fastforce simp: level_def beyond_def)
  ultimately show ?thesis
    using assms by (auto simp: level_def within_Suc beyond_def)
qed

lemma level_exhausted:
  assumes "level hop source n visited {}" and "(hop ^^ m) source p"
  shows "p \<in> visited"
  using assms(2)
proof (induction m arbitrary: p)
  case 0
  then show ?case using assms(1) by (auto simp: level_def within_def)
next
  case (Suc m)
  then obtain r where "r \<in> visited" "hop r p" by auto
  then show ?case using assms(1) by (auto simp: level_def beyond_def)
qed

section \<open>The hops of a topology\<close>

definition hop_by :: "Fabric \<Rightarrow> ResourceKind \<Rightarrow> u64 set \<Rightarrow> u64 \<Rightarrow> u64 set" where
  "hop_by F kind links p =
     {q. \<exists>i \<in> links. \<exists>st. find_resource F (ResourceRef kind i) = Some st \<and> q = far_port kind st p \<and>
        find_resource F (port_ref q) \<noteq> None}"

definition hop :: "Fabric \<Rightarrow> u64 \<Rightarrow> u64 \<Rightarrow> bool" where
  "hop F p q \<longleftrightarrow>
     q \<in> hop_by F KCrossConnect (set (indexed (adjacency F KCrossConnect) p)) p \<union>
         hop_by F KSpan (set (indexed (adjacency F KSpan) p)) p"

lemma hop_by_insert:
  "hop_by F kind (insert i links) p =
     hop_by F kind links p \<union>
     {q. \<exists>st. find_resource F (ResourceRef kind i) = Some st \<and> q = far_port kind st p \<and>
        find_resource F (port_ref q) \<noteq> None}"
  by (auto simp: hop_by_def)

lemma hop_by_empty [simp]: "hop_by F kind {} p = {}"
  by (simp add: hop_by_def)

text \<open>What a step adds to the queue, and what it finds.\<close>

definition adds :: "u64 list \<Rightarrow> RouteStep list \<Rightarrow> u64 set \<Rightarrow> u64 list \<Rightarrow> RouteStep list \<Rightarrow> bool" where
  "adds visited queue T v n \<longleftrightarrow>
     set v = set visited \<union> T \<and> fst ` set n = fst ` set queue \<union> (T - set visited)"

definition all_length :: "nat \<Rightarrow> RouteStep list \<Rightarrow> bool" where
  "all_length k steps \<longleftrightarrow> (\<forall>s \<in> set steps. length (snd s) = k)"

lemma adds_seen: "p \<in> set visited \<Longrightarrow> adds visited queue T v n \<Longrightarrow> adds visited queue (insert p T) v n"
  unfolding adds_def by blast

lemma adds_new:
  "p \<notin> set visited \<Longrightarrow> adds (p # visited) (queue @ [(p, segs)]) T v n \<Longrightarrow> adds visited queue (insert p T) v n"
  by (simp add: adds_def insert_Diff_if Un_insert_right) blast

lemma adds_trans:
  assumes "adds visited queue T v n" "adds v n U v' n'"
  shows "adds visited queue (T \<union> U) v' n'"
proof -
  have "Q \<union> (T - A) \<union> (U - (A \<union> T)) = Q \<union> (T \<union> U - A)" for Q A :: "u64 set" by blast
  then show ?thesis using assms by (simp add: adds_def Un_assoc)
qed

lemma follow_links_levels:
  assumes "all_length (length (snd step) + 2) queue"
  shows "case follow_links F kind dest step ls visited queue of
      Inl found \<Rightarrow> length found = length (snd step) + 2
    | Inr (v, n) \<Rightarrow> adds visited queue (hop_by F kind (set ls) (fst step)) v n \<and>
        dest \<notin> hop_by F kind (set ls) (fst step) \<and> all_length (length (snd step) + 2) n"
  using assms
proof (induction ls arbitrary: visited queue)
  case Nil
  then show ?case by (simp add: adds_def)
next
  case (Cons i ls)
  show ?case
  proof (cases "find_resource F (ResourceRef kind i)")
    case None
    then have T: "hop_by F kind (set (i # ls)) (fst step) = hop_by F kind (set ls) (fst step)"
      by (auto simp: hop_by_insert)
    show ?thesis unfolding T using Cons.IH [OF Cons.prems] None by simp
  next
    case (Some st)
    note st = Some
    let ?far = "far_port kind st (fst step)"
    show ?thesis
    proof (cases "find_resource F (port_ref ?far)")
      case None
      then have T: "hop_by F kind (set (i # ls)) (fst step) = hop_by F kind (set ls) (fst step)"
        using st by (auto simp: hop_by_insert)
      show ?thesis unfolding T using Cons.IH [OF Cons.prems] st None by simp
    next
      case (Some fs)
      have T: "hop_by F kind (set (i # ls)) (fst step) = insert ?far (hop_by F kind (set ls) (fst step))"
        using st Some by (auto simp: hop_by_insert)
      let ?segs = "snd step @ [PathSegment (role_for kind) (ResourceRef kind i) (rs_generation st),
          PathSegment RolePort (port_ref ?far) (rs_generation fs)]"
      have grown: "all_length (length (snd step) + 2) (queue @ [(?far, ?segs)])"
        using Cons.prems by (auto simp: all_length_def)
      consider "?far = dest" | "?far \<noteq> dest" "?far \<in> set visited" | "?far \<noteq> dest" "?far \<notin> set visited"
        by blast
      then show ?thesis
      proof cases
        case 1
        then show ?thesis using st Some by (simp add: Let_def)
      next
        case 2
        then show ?thesis
          unfolding T using Cons.IH [OF Cons.prems, of visited] st Some
          by (auto simp: Let_def intro: adds_seen split: sum.splits)
      next
        case 3
        then show ?thesis
          unfolding T using Cons.IH [OF grown, of "?far # visited"] st Some
          by (auto simp: Let_def intro: adds_new split: sum.splits)
      qed
    qed
  qed
qed

lemma sweep_frontier_levels:
  assumes "all_length k frontier" "all_length (k + 2) queue"
  shows "case sweep_frontier F bound dest frontier e visited queue of
      SearchExceeded \<Rightarrow> True
    | SearchFound found \<Rightarrow> length found = k + 2
    | SearchLevel e' v n \<Rightarrow> adds visited queue (beyond (hop F) (fst ` set frontier)) v n \<and>
        dest \<notin> beyond (hop F) (fst ` set frontier) \<and> all_length (k + 2) n"
  using assms
proof (induction frontier arbitrary: e visited queue)
  case Nil
  then show ?case by (simp add: adds_def beyond_def)
next
  case (Cons step frontier)
  have k: "length (snd step) = k" and frontier: "all_length k frontier"
    using Cons.prems(1) by (simp_all add: all_length_def)
  let ?xs = "indexed (adjacency F KCrossConnect) (fst step)"
  let ?ss = "indexed (adjacency F KSpan) (fst step)"
  have beyond: "beyond (hop F) (fst ` set (step # frontier)) =
      hop_by F KCrossConnect (set ?xs) (fst step) \<union> hop_by F KSpan (set ?ss) (fst step) \<union>
      beyond (hop F) (fst ` set frontier)"
    by (auto simp: beyond_def hop_def)
  note xc = follow_links_levels [where step = step and queue = queue and F = F and kind = KCrossConnect
      and dest = dest and ls = ?xs and visited = visited, unfolded k, OF Cons.prems(2)]
  show ?case
  proof (cases "follow_links F KCrossConnect dest step ?xs visited queue")
    case (Inl found)
    then show ?thesis using xc by simp
  next
    case (Inr vn)
    obtain v1 n1 where vn: "vn = (v1, n1)" by fastforce
    have step1: "adds visited queue (hop_by F KCrossConnect (set ?xs) (fst step)) v1 n1"
        "dest \<notin> hop_by F KCrossConnect (set ?xs) (fst step)" "all_length (k + 2) n1"
      using xc by (simp_all add: Inr vn)
    note sp = follow_links_levels [where step = step and queue = n1 and F = F and kind = KSpan
        and dest = dest and ls = ?ss and visited = v1, unfolded k, OF step1(3)]
    show ?thesis
    proof (cases "follow_links F KSpan dest step ?ss v1 n1")
      case found: (Inl found)
      then show ?thesis using sp Inr vn by simp
    next
      case level: (Inr vn2)
      obtain v2 n2 where vn2: "vn2 = (v2, n2)" by fastforce
      have step2: "adds v1 n1 (hop_by F KSpan (set ?ss) (fst step)) v2 n2"
          "dest \<notin> hop_by F KSpan (set ?ss) (fst step)" "all_length (k + 2) n2"
        using sp by (simp_all add: level vn2)
      note both = adds_trans [OF adds_trans [OF step1(1) step2(1)]]
      show ?thesis
        unfolding beyond using Cons.IH [OF frontier step2(3), of v2 "e + 1"] step1(2) step2(2) level Inr vn vn2
        by (auto intro: both split: RouteSearch.splits)
    qed
  qed
qed

section \<open>Shortest and complete\<close>

lemma search_routes_levels:
  assumes "level (hop F) source n (set visited) (fst ` set frontier)" "all_length (2 * n + 1) frontier"
    and "dest \<notin> set visited"
  shows "case search_routes F bound dest frontier e visited of
      Inr found \<Rightarrow> (\<forall>m. (hop F ^^ m) source dest \<longrightarrow> length found \<le> 2 * m + 1)
    | Inl x \<Rightarrow> x = CapacityExceeded \<or> x = NotFound \<and> (\<forall>m. \<not> (hop F ^^ m) source dest)"
  using assms
proof (induction F bound dest frontier e visited arbitrary: n rule: search_routes.induct)
  case (1 F bound dest frontier e visited)
  show ?case
  proof (cases "frontier = []")
    case True
    then show ?thesis
      using level_exhausted 1(2,4) by (fastforce simp: search_routes.simps)
  next
    case False
    have queue: "all_length (2 * n + 1 + 2) []" by (simp add: all_length_def)
    note sweep = sweep_frontier_levels [OF 1(3) queue, where F = F and bound = bound and dest = dest and e = e
        and visited = visited]
    show ?thesis
    proof (cases "sweep_frontier F bound dest frontier e visited []")
      case SearchExceeded
      then show ?thesis using False by (simp add: search_routes.simps)
    next
      case (SearchFound found)
      have "2 * n + 3 \<le> 2 * m + 1" if "(hop F ^^ m) source dest" for m
      proof -
        have "\<not> m \<le> n" using that 1(2,4) by (auto simp: level_def within_def)
        then show ?thesis by simp
      qed
      then show ?thesis using SearchFound False sweep by (simp add: search_routes.simps)
    next
      case (SearchLevel e' v q)
      let ?B = "beyond (hop F) (fst ` set frontier)"
      have v: "set v = set visited \<union> ?B" "fst ` set q = ?B - set visited" "dest \<notin> ?B" "all_length (2 * Suc n + 1) q"
        using sweep SearchLevel by (auto simp: adds_def)
      have "level (hop F) source (Suc n) (set v) (fst ` set q)"
        using level_step [OF 1(2)] v(1,2) by simp
      moreover have "dest \<notin> set v" using v(1,3) 1(4) by simp
      ultimately show ?thesis
        using 1(1) [OF False SearchLevel _ v(4)] False SearchLevel search_routes.simps [of F bound dest frontier e visited] by simp
    qed
  qed
qed

lemma joins_hop:
  assumes "joins F p l q" "port_segment F q"
  shows "hop F (ref_id (seg_resource p)) (ref_id (seg_resource q))"
proof -
  obtain kind i where l: "seg_resource l = ResourceRef kind i" by (cases "seg_resource l")
  obtain st where kind: "kind \<in> {KCrossConnect, KSpan}" and st: "find_resource F (ResourceRef kind i) = Some st"
    and ends: "{link_near kind st, link_far kind st} = {ref_id (seg_resource p), ref_id (seg_resource q)}"
    using assms(1) by (auto simp: joins_def l Let_def split: option.splits)
  have far: "far_port kind st (ref_id (seg_resource p)) = ref_id (seg_resource q)"
    using ends by (auto simp: far_port_def doubleton_eq_iff)
  have "(ResourceRef kind i, st) \<in> set (resources F)"
    using st by (auto simp: find_resource_def dest: map_of_SomeD)
  then have "i \<in> set (indexed (adjacency F kind) (ref_id (seg_resource p)))"
    using ends by (force simp: adjacency_def indexed_build doubleton_eq_iff)
  moreover have "find_resource F (port_ref (ref_id (seg_resource q))) \<noteq> None"
    using assms(2) by (cases "seg_resource q") (auto simp: port_segment_def current_segment_def port_ref_def)
  ultimately have "ref_id (seg_resource q) \<in>
      hop_by F kind (set (indexed (adjacency F kind) (ref_id (seg_resource p)))) (ref_id (seg_resource p))"
    unfolding hop_by_def using st far [symmetric] by blast
  then show ?thesis using kind by (auto simp: hop_def)
qed

lemma declared_chain_head: "declared_chain F segs \<Longrightarrow> port_segment F (hd segs)"
  by (induction F segs rule: declared_chain.induct) auto

lemma declared_chain_hops:
  "declared_chain F segs \<Longrightarrow>
     \<exists>m. length segs = 2 * m + 1 \<and> (hop F ^^ m) (ref_id (seg_resource (hd segs))) (ref_id (seg_resource (last segs)))"
proof (induction F segs rule: declared_chain.induct)
  case (2 F p l q rest)
  then obtain m where m: "length (q # rest) = 2 * m + 1"
      "(hop F ^^ m) (ref_id (seg_resource q)) (ref_id (seg_resource (last (q # rest))))"
    by auto
  have "port_segment F q" using 2(2) declared_chain_head [of F "q # rest"] by simp
  then have "hop F (ref_id (seg_resource p)) (ref_id (seg_resource q))" using 2(2) joins_hop by auto
  then have "(hop F ^^ Suc m) (ref_id (seg_resource p)) (ref_id (seg_resource (last (q # rest))))"
    using m(2) by (meson relpowp_Suc_I2)
  moreover have "length (p # l # q # rest) = 2 * Suc m + 1" using m(1) by simp
  ultimately show ?case by (intro exI [of _ "Suc m"]) simp
qed (auto intro: exI [of _ 0])

lemma chain_to_hops:
  assumes "chain_to F source dest segs"
  obtains m where "length segs = 2 * m + 1" "(hop F ^^ m) source dest"
proof -
  have "declared_chain F segs" "ref_id (seg_resource (hd segs)) = source" "ref_id (seg_resource (last segs)) = dest"
    using assms by (simp_all add: chain_to_def port_ref_def)
  then show ?thesis using declared_chain_hops [of F segs] that by blast
qed

lemma search_from_start:
  assumes "source \<noteq> dest"
  shows "case search_routes F bound dest [initial_step F source] 0 [source] of
      Inr found \<Rightarrow> \<forall>segs. chain_to F source dest segs \<longrightarrow> length found \<le> length segs
    | Inl x \<Rightarrow> x = CapacityExceeded \<or> x = NotFound \<and> (\<forall>segs. \<not> chain_to F source dest segs)"
proof -
  have "level (hop F) source 0 (set [source]) (fst ` set [initial_step F source])"
    using level_start by (simp add: initial_step_def)
  from search_routes_levels [OF this, of dest bound 0] assms show ?thesis
    by (auto simp: all_length_def initial_step_def split: sum.splits elim!: chain_to_hops)
qed

lemma resolve_declared_route_shortest:
  assumes "resolve_declared_route_locked F it = Inr path"
    and "chain_to F (in_source_port it) (in_destination_port it) segs"
  shows "length (pd_segments path) \<le> length segs"
proof -
  obtain found base where found: "search_routes F (max_path_segments (limits F) * 64) (in_destination_port it)
        [initial_step F (in_source_port it)] 0 [in_source_port it] = Inr found"
    and base: "with_channel F (in_channel it) \<lparr>pd_segments = found, pd_channel = 0, pd_channel_generation = 0,
        pd_direction = Forward, pd_route_origin = ''declared-route''\<rparr> = Inr base"
    and path: "path = (if in_direction it = Reverse then reversed_path base else base)"
    and distinct: "in_source_port it \<noteq> in_destination_port it"
    using assms(1) by (auto simp: resolve_declared_route_locked_def split: if_splits sum.splits)
  have "length (pd_segments path) = length found"
    using with_channel_keeps [OF base] by (simp add: path reversed_path_def)
  then show ?thesis
    using search_from_start [OF distinct, of F "max_path_segments (limits F) * 64"] found assms(2) by simp
qed

definition registered_channel :: "Fabric \<Rightarrow> u64 \<Rightarrow> bool" where
  "registered_channel F c \<longleftrightarrow>
     (case find_resource F (ResourceRef KChannel c) of None \<Rightarrow> False | Some st \<Rightarrow> ref_kind (rs_resource st) = KChannel)"

lemma resolve_declared_route_complete:
  assumes "is_registered_port F (in_source_port it)" "is_registered_port F (in_destination_port it)"
    and "chain_to F (in_source_port it) (in_destination_port it) segs"
    and "in_source_port it \<noteq> in_destination_port it"
  shows "(\<exists>path. resolve_declared_route_locked F it = Inr path) \<or>
    resolve_declared_route_locked F it = Inl CapacityExceeded \<or>
    resolve_declared_route_locked F it = Inl NotFound \<and> in_channel it \<noteq> 0 \<and> \<not> registered_channel F (in_channel it)"
proof -
  have "with_channel F c p = Inl e \<Longrightarrow> e = NotFound \<and> c \<noteq> 0 \<and> \<not> registered_channel F c" for c p e
    by (auto simp: with_channel_def registered_channel_def split: if_splits option.splits)
  then show ?thesis
    using search_from_start [OF assms(4), of F "max_path_segments (limits F) * 64"] assms
    by (auto simp: resolve_declared_route_locked_def split: sum.splits)
qed

end
