(* ===== verification/Trials.thy ===== *)
theory Trials
  imports Scenario Shortest
begin

text \<open>
  Operations exercised on the states of the scenario: a pending activation that is committed, a
  grant that displaces nothing, and a restart over a journal that still holds a live grant.
\<close>

section \<open>A pending activation\<close>

definition sample_token :: AuthorityToken where "sample_token = token_of (gs_view sample_grant)"

definition pending_object :: ConnectivityRecord where
  "pending_object = (sample_object with_grant)\<lparr>cr_state := Activating, cr_activation_digest := Digest128 5 6\<rparr>"

definition sample_pending :: Fabric where
  "sample_pending = with_grant\<lparr>objects := [(derive_named ''connectivity'' ''c'', pending_object)]\<rparr>"

definition sample_commit :: CommitRequest where
  "sample_commit = \<lparr>cmq_attempt = 13, cmq_connectivity = derive_named ''connectivity'' ''c'',
     cmq_authority = sample_token, cmq_activation_digest = Digest128 5 6\<rparr>"

lemma sample_token_fields:
  "tok_scope sample_token = scope_global" "tok_grant sample_token = derive_grant_id 9 scope_global 1"
  "tok_holder sample_token = 9" "tok_epoch sample_token = 1" "boot_sequence (tok_incarnation sample_token) = 1"
  by (simp_all add: sample_token_def token_of_def sample_grant_def new_grant_def sample_authority_def sample_state_def)

lemma pending_state:
  "tick sample_pending = 1" "limits sample_pending = default_limits" "\<not> closed sample_pending"
  "boot_sequence (incarnation sample_pending) = 1" "resources sample_pending = sample_topology"
  "grants sample_pending = [(derive_grant_id 9 scope_global 1, sample_grant)]" "claim_index sample_pending = []"
  "reservation_index sample_pending = []" "memory_only sample_pending" "\<not> persistence_failed sample_pending"
  "map_of (attempts sample_pending) 13 = None"
  "objects sample_pending = [(derive_named ''connectivity'' ''c'', pending_object)]"
  by (simp_all add: sample_pending_def with_grant_state sample_state_def)

lemma grant_id_nonzero [simp]: "derive_grant_id h s e \<noteq> 0"
  by (simp add: derive_grant_id_def)

lemma sample_authorised: "require_authority_locked sample_pending sample_token s = RNone"
proof -
  have "\<not> has_overlapping_newer_epoch sample_pending scope_global 1"
    by (simp add: has_overlapping_newer_epoch_def pending_state sample_grant_def new_grant_def sample_state_def)
  moreover have "\<not> (101 :: u64) \<le> 1" by code_simp
  ultimately have "check_authority_locked sample_pending sample_token = Current"
    by (simp add: check_authority_locked_def pending_state sample_token_fields token_is_nil_def sample_grant_def
        new_grant_def sample_authority_def sample_state_def Let_def)
  then show ?thesis by (simp add: require_authority_RNone sample_token_fields covers_def scope_global_def)
qed

text \<open>Where the requirements of a path come from.\<close>

lemma add_requirement_set:
  "snd ` set (add_requirement r kb m) \<subseteq>
     insert \<lparr>rq_subject = r, rq_kind = fst kb, rq_blocking = snd kb\<rparr> (snd ` set m)"
  using set_map_put by (fastforce simp: add_requirement_def split: option.splits)

lemma add_requirements_set:
  "snd ` set (foldl (\<lambda>m kb. add_requirement r kb m) m kbs) \<subseteq>
     snd ` set m \<union> (\<lambda>kb. \<lparr>rq_subject = r, rq_kind = fst kb, rq_blocking = snd kb\<rparr>) ` set kbs"
proof (induction kbs arbitrary: m)
  case (Cons kb kbs)
  show ?case using Cons.IH [of "add_requirement r kb m"] add_requirement_set [of r kb m] by auto
qed simp

lemma segment_requirements_set:
  "snd ` set (foldl (\<lambda>m s. foldl (\<lambda>m kb. add_requirement (seg_resource s) kb m) m (segment_requirements F q s)) m segs)
   \<subseteq> snd ` set m \<union> (\<Union>s \<in> set segs. (\<lambda>kb. \<lparr>rq_subject = seg_resource s, rq_kind = fst kb, rq_blocking = snd kb\<rparr>) `
       set (segment_requirements F q s))"
proof (induction segs arbitrary: m)
  case (Cons s segs)
  show ?case
    using Cons.IH [of "foldl (\<lambda>m kb. add_requirement (seg_resource s) kb m) m (segment_requirements F q s)"]
      add_requirements_set [of "seg_resource s" m "segment_requirements F q s"]
    by (auto simp del: foldl_Cons simp add: foldl_Cons [where xs = segs])
qed simp

lemma requirements_for_origin:
  assumes "rq \<in> set (requirements_for F path q)" "pd_channel path = 0"
  obtains s where "s \<in> set (pd_segments path)" "rq_subject rq = seg_resource s"
    "(rq_kind rq, rq_blocking rq) \<in> set (segment_requirements F q s)"
  using assms segment_requirements_set [of F q "[]" "pd_segments path"]
  by (fastforce simp: requirements_for_def Let_def)

lemma sample_healthy: "healthy (assess_locked sample_pending sample_path sample_requirements)"
proof -
  have found: "\<exists>st. find_resource sample_pending (seg_resource s) = Some st \<and> rs_generation st = seg_generation s"
    if "s \<in> set (pd_segments sample_path)" for s
    using that by (auto simp: find_resource_def pending_state topology_rows enrolled_fields sample_path_def)
  have "ee_state (evaluate_requirement_locked sample_pending rq) = Known"
    if rq: "rq \<in> set (requirements_for sample_pending sample_path sample_requirements)" "rq_blocking rq" for rq
  proof -
    obtain s where s: "s \<in> set (pd_segments sample_path)" "rq_subject rq = seg_resource s"
        "(rq_kind rq, rq_blocking rq) \<in> set (segment_requirements sample_pending sample_requirements s)"
      using requirements_for_origin [OF rq(1)] by (auto simp: sample_path_def)
    from s(3) rq(2) have "rq_kind rq = TopologyPresence"
      by (auto simp: segment_requirements_def sample_requirements_def Let_def split: if_splits)
    then show ?thesis using found [OF s(1)] s(2) by (auto simp: evaluate_requirement_locked_def)
  qed
  then show ?thesis using found by (auto simp: healthy_iff sample_path_def)
qed

lemma sample_unclaimed: "check_claims_locked sample_pending rs channel self own = NoConflict"
  by (simp add: check_claims_NoConflict pending_state indexed_def)

lemma pending_fields:
  "cr_id pending_object = derive_named ''connectivity'' ''c''" "cr_state pending_object = Activating"
  "cr_activation_digest pending_object = Digest128 5 6" "cr_path pending_object = sample_path"
  "cr_requirements pending_object = sample_requirements" "\<not> cr_has_reservation pending_object"
  by (simp_all add: pending_object_def proposed_record_def)

lemma sample_token_reload: "reload_token sample_token = sample_token"
  by (simp add: reload_token_def sample_token_fields reload_scope_def scope_global_def)

lemma active_reload:
  "reload_connectivity default_limits (active_record sample_pending sample_commit pending_object) =
     Some (active_record sample_pending sample_commit pending_object)"
proof -
  have bound: "Suc 0 < max_attempt_history_per_object default_limits" by (simp add: default_limits_def)
  have segs: "list_all (\<lambda>s. ref_encodable (seg_resource s)) (pd_segments sample_path)"
    by (simp add: sample_path_def ref_encodable_def)
  show ?thesis
    using bound segs sample_token_reload
    by (simp add: reload_connectivity_def active_record_def move_object_def push_transition_locked_def push_bounded_def
        transition_of_def pending_object_def proposed_record_def refusal_encodable_def sample_canonicalized Let_def
        kEvidenceKindCount_def sample_requirements_def pending_state sample_commit_def)
qed

lemma sample_commit_applied: "av_outcome (fst (commit_activation sample_io sample_commit sample_pending)) = Applied"
proof -
  let ?a = "attempt_of ''commit_activation'' 13 (digest_commit_request sample_commit) Applied RNone
      (derive_named ''connectivity'' ''c'') (cr_reservation pending_object) sample_pending"
  let ?items = "[ConnectivityItem (active_record sample_pending sample_commit pending_object), AttemptItem ?a]"
  let ?F = "count_transition sample_pending"
  have dec: "bundle_decodable (limits ?F) ?items"
    by (simp add: bundle_decodable_def count_transition_def pending_state default_limits_def active_record_def
        move_object_def push_transition_locked_def push_bounded_def Let_def pending_object_def proposed_record_def
        sample_requirements_def sample_path_def sample_commit_def sample_token_fields scope_global_def scope_fields_def)
  obtain F' where "apply_decoded ?items ?F = (Ok, F')" "memory_only F'"
    by (simp add: apply_item.simps count_transition_def pending_state active_reload attempt_of_def
        reload_attempt_def refusal_encodable_def store_attempt_def rebuild_indices_def Let_def)
  then have "commit sample_io RkConnectivityTransition ?items ?F = (Ok, F')"
    using dec by (intro commit_memory) (simp_all add: count_transition_def pending_state)
  moreover have "healthy (assess_locked sample_pending (cr_path pending_object) (cr_requirements pending_object))"
    by (simp add: pending_fields sample_healthy)
  ultimately show ?thesis
    by (simp add: commit_activation_def decide_commit_activation_def run_handler_def find_attempt_locked_def
        copy_object_locked_def pending_state sample_commit_def pending_fields sample_authorised sample_unclaimed
        nil_digest_def consume_items_def Let_def case_prod_beta)
qed

lemma pending_logs: "logs_inv sample_pending"
  by (simp add: sample_pending_def with_grant_state sample_state_def logs_inv_def ordered_keys_def default_limits_def)

lemma pending_limits: "valid_limits sample_pending"
  by (simp add: valid_limits_def pending_state default_limits_valid)

section \<open>A grant\<close>

lemma sample_acquired:
  "au_outcome (fst (acquire_authority sample_io sample_authority with_span)) = Applied"
  "fst (acquire_authority sample_io sample_authority with_span) =
     (fst (acquire_authority sample_io sample_authority with_span))\<lparr>au_token := sample_token\<rparr>"
  by (simp_all add: with_span_state acquire_authority_def sample_state_def sample_authority_def
      acquire_items_def fence_items_def fence_overlapping_def new_grant_def sample_grant_def reload_grant_def
      reload_scope_def scope_global_def acquire_attempt_def reload_attempt_def refusal_encodable_def
      store_attempt_def scope_fields_def sample_token_def run_simps)

section \<open>A restart\<close>

text \<open>What the previous process left in the store: its grant, still live, and its runtime state.\<close>

definition sample_journal :: "(RecordKind \<times> CommitItem list) list" where
  "sample_journal = [(RkAuthorityGranted, [GrantItem sample_grant,
     RuntimeItem (runtime_state (sample_state [] 1) 7 6)])]"

definition disk_options :: FabricOptions where
  "disk_options = sample_options\<lparr>op_memory_only := False\<rparr>"

definition sample_restart :: "Fabric result" where
  "sample_restart = construct sample_io (Digest128 3 4) disk_options Ok sample_journal"

lemma commit_disk:
  assumes "store_active F" "\<not> persistence_failed F" "bundle_decodable (limits F) items"
    and "apply_decoded items (F\<lparr>journal := journal F @ [(kind, items)]\<rparr>) = (Ok, F')"
  shows "commit sample_io kind items F = (Ok, F')"
  using assms by (simp add: commit_def store_append_def sample_io_def)

lemma sample_recovery:
  assumes "grants F = [(i, sample_grant)]" "objects F = []" "limits F = default_limits" "store_active F"
    "\<not> persistence_failed F" "\<not> closed F"
  shows "\<exists>F'. mark_recovery_conservative sample_io 1 F = (Ok, F') \<and> \<not> closed F'"
proof -
  let ?items = "recovery_items True F" and ?P = "recovery_prepared True F"
  have live: "grant_live sample_grant"
    by (simp add: sample_grant_def new_grant_def grant_live_def)
  have prepared: "store_active ?P" "\<not> persistence_failed ?P" "limits ?P = default_limits" "\<not> closed ?P"
    using assms by (simp_all add: recovery_prepared_def recovery_epoch_def store_active_def rebuild_indices_def Let_def)
  obtain g f r where items: "?items = [GrantItem g, FenceItem f, RuntimeItem r]"
    using assms live
    by (simp add: recovery_items_def recovery_epoch_def recovery_grant_items_def recovery_object_items_def Let_def)
  have "bundle_decodable (limits ?P) ?items"
    by (simp add: prepared items bundle_decodable_def fence_fields_def scope_fields_def default_limits_def)
  moreover obtain F' where "apply_decoded ?items (?P\<lparr>journal := journal ?P @ [(RkRuntimeState, ?items)]\<rparr>) = (Ok, F')"
      "\<not> closed F'"
    using prepared by (simp add: items apply_item.simps Let_def)
  ultimately show ?thesis
    using prepared commit_disk by (simp add: mark_recovery_conservative_def)
qed

lemma sample_restarted: "\<exists>F. sample_restart = Inr F \<and> \<not> closed F"
proof -
  let ?F0 = "(initial_fabric disk_options)\<lparr>store_open := True, journal := sample_journal\<rparr>"
  obtain F1 where F1: "replay sample_journal ?F0 = (Ok, F1)" "objects F1 = []"
      "grants F1 = [(derive_grant_id 9 scope_global 1, sample_grant)]" "limits F1 = default_limits" "boot F1 = 1"
      "store_active F1" "\<not> persistence_failed F1" "\<not> closed F1" "store_open F1"
    by (simp add: sample_journal_def disk_options_def sample_options_def initial_fabric_def bundle_decodable_def
        default_limits_def apply_item.simps sample_grant_def new_grant_def sample_authority_def sample_state_def
        reload_grant_def reload_scope_def scope_global_def scope_fields_def runtime_state_def store_active_def Let_def)
  let ?F2 = "next_incarnation (Digest128 3 4) ''lab'' (start_counters F1)"
  have F2: "grants ?F2 = [(derive_grant_id 9 scope_global 1, sample_grant)]" "objects ?F2 = []"
      "limits ?F2 = default_limits" "store_active ?F2" "\<not> persistence_failed ?F2" "\<not> closed ?F2"
    using F1 by (simp_all add: next_incarnation_def start_counters_def store_active_def)
  obtain F3 where F3: "mark_recovery_conservative sample_io 1 ?F2 = (Ok, F3)" "\<not> closed F3"
    using sample_recovery [OF F2] by blast
  have "fst (write_checkpoint sample_io F3) = Ok" "\<not> closed (snd (write_checkpoint sample_io F3))"
    using F3(2) by (simp_all add: write_checkpoint_def sample_io_def Let_def)
  then show ?thesis
    using F1 F3
    by (simp add: sample_restart_def construct_def disk_options_def sample_options_def default_limits_valid
      open_and_recover_def Let_def case_prod_beta)
qed

section \<open>An observation\<close>

text \<open>What a producer saw of the span at tick 10, valid until tick 30.\<close>

definition sample_observation :: EvidenceRecord where
  "sample_observation = \<lparr>ev_id = 3, ev_subject = span_s, ev_kind = SpanOperationalState, ev_state = Known,
     ev_provenance = \<lparr>source_runtime = ''r'', source_instance = ''i'', source_id = 2, source_sequence = 1,
       source_epoch = 1, ingested_incarnation = \<lparr>boot_sequence = 1, inc_instance = Digest128 1 2, inc_host_label = ''lab''\<rparr>,
       observed_generation = 1, observed_tick = 10, valid_until_tick = 30, content_digest = Digest128 7 8\<rparr>,
     ev_detail = [], ev_advisory = False\<rparr>"

end
