(* ===== verification/StoreFile.thy ===== *)
theory StoreFile
  imports State
begin

text \<open>
  The store file (\<open>store.cpp\<close>): a header and then one frame per record, each with its length and a
  checksum. Opening reads the intact records and decides what to do with the bytes after them;
  appending writes one frame; rewriting replaces the file by a single record.

  The file is its bytes and the position where the next write goes. What the operating system
  answers to each call is an argument (\<open>StoreEnv\<close>), so every failure path is a branch; file positions are
  natural numbers.
\<close>

section \<open>Integers in bytes\<close>

type_synonym u16 = "16 word"
type_synonym bytes = "u8 list"

definition write_u16 :: "u16 \<Rightarrow> bytes" where
  "write_u16 v = [ucast v, ucast (drop_bit 8 v)]"

definition write_u32 :: "u32 \<Rightarrow> bytes" where
  "write_u32 v = map (\<lambda>i. ucast (drop_bit (8 * i) v)) [0..<4]"

definition write_u64 :: "u64 \<Rightarrow> bytes" where
  "write_u64 v = map (\<lambda>i. ucast (drop_bit (8 * i) v)) [0..<8]"

definition read_u16 :: "bytes \<Rightarrow> u16" where
  "read_u16 b = ucast (b ! 0) OR push_bit 8 (ucast (b ! 1))"

definition read_u32 :: "bytes \<Rightarrow> u32" where
  "read_u32 b = foldl (\<lambda>v i. v OR push_bit (8 * i) (ucast (b ! i))) 0 [0..<4]"

definition read_u64 :: "bytes \<Rightarrow> u64" where
  "read_u64 b = foldl (\<lambda>v i. v OR push_bit (8 * i) (ucast (b ! i))) 0 [0..<8]"

section \<open>Frames\<close>

definition kHeaderBytes :: nat where "kHeaderBytes = 24"
definition kRecordHeaderBytes :: nat where "kRecordHeaderBytes = 16"
definition kStoreMagic :: u32 where "kStoreMagic = 0x4241464F"
definition kRecordMagic :: u32 where "kRecordMagic = 0x4352464F"
definition kStateFormatVersion :: u32 where "kStateFormatVersion = 1"

text \<open>The numbers of the record kinds.\<close>

fun record_kind_code :: "RecordKind \<Rightarrow> u8" where
  "record_kind_code RkUnknown = 0"
| "record_kind_code RkCheckpoint = 1"
| "record_kind_code RkRuntimeState = 2"
| "record_kind_code RkTopologyRegistered = 3"
| "record_kind_code RkEvidenceIngested = 4"
| "record_kind_code RkConnectivityTransition = 5"
| "record_kind_code RkReservationChanged = 6"
| "record_kind_code RkAuthorityGranted = 7"
| "record_kind_code RkAuthorityFenced = 8"
| "record_kind_code RkAuthorityReleased = 9"
| "record_kind_code RkAttemptRecorded = 10"

text \<open>The checksum runs over the kind, two zero bytes, the length and the payload.\<close>

definition frame_crc :: "u16 \<Rightarrow> u32 \<Rightarrow> bytes \<Rightarrow> u32" where
  "frame_crc kind payload_length payload =
     (let header = [ucast kind, ucast (drop_bit 8 kind), 0, 0] @
            map (\<lambda>i. ucast (drop_bit (8 * i) payload_length)) [0..<4];
          state = crc_update 0xFFFFFFFF header;
          state = (if payload \<noteq> [] then crc_update state payload else state)
      in state XOR 0xFFFFFFFF)"

definition build_header :: "u64 \<Rightarrow> bytes" where
  "build_header created_boot =
     (let front = write_u32 kStoreMagic @ write_u32 kStateFormatVersion @ write_u32 0
      in front @ write_u32 (crc32c front) @ write_u64 created_boot)"

text \<open>A record as the store keeps it: the kind is the number read from the file.\<close>

record StoreRecord =
  sr_kind :: u8
  sr_payload :: bytes

definition build_record :: "u8 \<Rightarrow> bytes \<Rightarrow> bytes" where
  "build_record kind payload =
     write_u32 kRecordMagic @ write_u16 (ucast kind) @ write_u16 0 @ write_u32 (of_nat (length payload)) @
     write_u32 (frame_crc (ucast kind) (of_nat (length payload)) payload) @ payload"

definition looks_like_record_magic :: "bytes \<Rightarrow> nat \<Rightarrow> bool" where
  "looks_like_record_magic b offset \<longleftrightarrow>
     \<not> offset + 4 > length b \<and> read_u32 (drop offset b) = kRecordMagic"

section \<open>The scan\<close>

datatype ScanEnd = ScanClean | ScanTail | ScanRefused ErrorCode

text \<open>The loop of \<open>Store::open\<close> over the frames from an offset on. \<open>ok\<close> says at which offsets the file can be
  read; the offset in the result is where the last intact record ends.\<close>

function scan_records ::
  "Limits \<Rightarrow> (nat \<Rightarrow> bool) \<Rightarrow> bytes \<Rightarrow> nat \<Rightarrow> StoreRecord list \<Rightarrow> ScanEnd \<times> StoreRecord list \<times> nat" where
  "scan_records lim ok file offset records =
     (if \<not> offset < length file then (ScanClean, records, offset)
      else let remaining = length file - offset; h = take kRecordHeaderBytes (drop offset file) in
      if remaining < kRecordHeaderBytes then (ScanTail, records, offset)
      else if \<not> ok offset then (ScanRefused StoreIo, records, offset)
      else if read_u32 h \<noteq> kRecordMagic then (ScanTail, records, offset)
      else let kind = (ucast (read_u16 (drop 4 h)) :: u8); payload_length = read_u32 (drop 8 h);
               stored_crc = read_u32 (drop 12 h); next_offset = offset + kRecordHeaderBytes + unat payload_length in
      if unat payload_length > max_record_payload_bytes lim then (ScanRefused StoreCorrupt, records, offset)
      else if remaining < kRecordHeaderBytes + unat payload_length then (ScanTail, records, offset)
      else if payload_length \<noteq> 0 \<and> \<not> ok (offset + kRecordHeaderBytes) then (ScanRefused StoreIo, records, offset)
      else let payload = take (unat payload_length) (drop (offset + kRecordHeaderBytes) file) in
      if frame_crc (ucast kind) payload_length payload \<noteq> stored_crc then
        (if next_offset < length file \<and> ok next_offset \<and>
             looks_like_record_magic (take (min (length file - next_offset) 4) (drop next_offset file)) 0
         then (ScanRefused StoreCorrupt, records, offset)
         else (ScanTail, records, offset))
      else scan_records lim ok file next_offset (records @ [\<lparr>sr_kind = kind, sr_payload = payload\<rparr>]))"
  by pat_completeness auto

termination
  by (relation "measure (\<lambda>(lim, ok, file, offset, records). length file - offset)") (auto simp: kRecordHeaderBytes_def)

declare scan_records.simps [simp del]

section \<open>The store and its environment\<close>

datatype SalvagePolicy = SalvageReject | DiscardTail

datatype RecoveryStatus = RsMemoryOnly | RsCreated | RsClean | RsTailDiscarded | RsRejected

record StoreReport =
  rp_status :: RecoveryStatus
  rp_file_bytes :: nat
  rp_discarded_bytes :: nat
  rp_records_read :: nat
  rp_records_discarded :: nat

record Store =
  st_file :: "bytes option"
  st_position :: nat
  st_handle :: bool
  st_locked :: bool
  st_records :: "StoreRecord list"
  st_valid_bytes :: nat
  st_appended_bytes :: nat
  st_appended_records :: nat
  st_memory_only :: bool
  st_open :: bool
  st_durable_writes :: bool
  st_exclusive_lock :: bool
  st_salvage :: SalvagePolicy
  st_limits :: Limits

text \<open>The answers of the operating system: which calls succeed, and how many bytes writes accept in all.\<close>

record StoreEnv =
  se_stat :: bool
  se_lock :: Status
  se_open :: bool
  se_size :: bool
  se_read :: "nat \<Rightarrow> bool"
  se_write :: nat
  se_seek :: bool
  se_truncate :: bool
  se_sync :: bool
  se_compact_create :: bool
  se_compact_write :: bool
  se_rename :: bool

definition close_lock :: "Store \<Rightarrow> Store" where
  "close_lock s = s\<lparr>st_locked := False\<rparr>"

definition close_file :: "Store \<Rightarrow> Store" where
  "close_file s = s\<lparr>st_handle := False\<rparr>"

definition acquire_lock :: "StoreEnv \<Rightarrow> Store \<Rightarrow> Status \<times> Store" where
  "acquire_lock env s =
     (if \<not> st_exclusive_lock s then (Ok, s)
      else if se_lock env \<noteq> Ok then (se_lock env, s)
      else (Ok, s\<lparr>st_locked := True\<rparr>))"

text \<open>Opening for writing creates a missing file; the position is its beginning.\<close>

definition open_file :: "StoreEnv \<Rightarrow> Store \<Rightarrow> Status \<times> Store" where
  "open_file env s =
     (if \<not> se_open env then (StoreIo, s)
      else (Ok, s\<lparr>st_file := Some (case st_file s of None \<Rightarrow> [] | Some b \<Rightarrow> b), st_position := 0, st_handle := True\<rparr>))"

definition file_bytes :: "Store \<Rightarrow> bytes" where
  "file_bytes s = (case st_file s of None \<Rightarrow> [] | Some b \<Rightarrow> b)"

text \<open>What is in the file after bytes were written at a position; a gap reads as zeros.\<close>

definition overwrite :: "nat \<Rightarrow> bytes \<Rightarrow> bytes \<Rightarrow> bytes" where
  "overwrite position data file =
     take position file @ replicate (position - length file) 0 @ data @ drop (position + length data) file"

definition write_all :: "StoreEnv \<Rightarrow> bytes \<Rightarrow> Store \<Rightarrow> Status \<times> Store" where
  "write_all env data s =
     (if data = [] then (Ok, s)
      else if \<not> st_handle s then (StoreIo, s)
      else let accepted = take (se_write env) data in
        (if length data \<le> se_write env then Ok else StoreIo,
         s\<lparr>st_file := Some (overwrite (st_position s) accepted (file_bytes s)),
           st_position := st_position s + length accepted\<rparr>))"

definition sync_file :: "StoreEnv \<Rightarrow> Store \<Rightarrow> Status" where
  "sync_file env s = (if st_handle s \<and> se_sync env then Ok else StoreIo)"

definition seek_to :: "StoreEnv \<Rightarrow> nat \<Rightarrow> Store \<Rightarrow> Status \<times> Store" where
  "seek_to env offset s =
     (if st_handle s \<and> se_seek env then (Ok, s\<lparr>st_position := offset\<rparr>) else (StoreIo, s))"

definition truncate_to :: "StoreEnv \<Rightarrow> nat \<Rightarrow> Store \<Rightarrow> Status \<times> Store" where
  "truncate_to env len s =
     (if \<not> (st_handle s \<and> se_truncate env) then (StoreIo, s)
      else seek_to env len (s\<lparr>st_file := Some (take len (file_bytes s) @ replicate (len - length (file_bytes s)) 0)\<rparr>))"

definition new_store :: "bytes option \<Rightarrow> bool \<Rightarrow> SalvagePolicy \<Rightarrow> bool \<Rightarrow> bool \<Rightarrow> Limits \<Rightarrow> Store" where
  "new_store file in_memory salvage durable_writes exclusive_lock lim =
     \<lparr>st_file = file, st_position = 0, st_handle = False, st_locked = False, st_records = [], st_valid_bytes = 0,
      st_appended_bytes = 0, st_appended_records = 0, st_memory_only = in_memory, st_open = False,
      st_durable_writes = durable_writes, st_exclusive_lock = exclusive_lock, st_salvage = salvage, st_limits = lim\<rparr>"

section \<open>Opening\<close>

definition initial_report :: StoreReport where
  "initial_report = \<lparr>rp_status = RsMemoryOnly, rp_file_bytes = 0, rp_discarded_bytes = 0, rp_records_read = 0,
     rp_records_discarded = 0\<rparr>"

text \<open>Every failure after the file was opened releases the handle and the lock.\<close>

definition open_fail :: "ErrorCode \<Rightarrow> StoreReport \<Rightarrow> Store \<Rightarrow> Status \<times> StoreReport \<times> Store" where
  "open_fail e rp s =
     (e, rp\<lparr>rp_status := RsRejected\<rparr>, (close_lock (close_file s))\<lparr>st_open := False\<rparr>)"

text \<open>A new header, after a torn one was cut away or in an empty file.\<close>

definition start_file :: "StoreEnv \<Rightarrow> Store \<Rightarrow> Status \<times> Store" where
  "start_file env s =
     (let (written, s1) = write_all env (build_header 1) s in
      if written \<noteq> Ok then (written, s1)
      else let (positioned, s2) = seek_to env kHeaderBytes s1 in
        if positioned \<noteq> Ok then (positioned, s2)
        else (Ok, s2\<lparr>st_valid_bytes := kHeaderBytes, st_appended_bytes := 0, st_appended_records := 0\<rparr>))"

definition open_created :: "StoreEnv \<Rightarrow> StoreReport \<Rightarrow> Store \<Rightarrow> Status \<times> StoreReport \<times> Store" where
  "open_created env rp s =
     (let (started, s1) = start_file env s in
      if started \<noteq> Ok then open_fail started rp s1
      else let rp = rp\<lparr>rp_status := RsCreated, rp_records_read := 0\<rparr> in
        if st_durable_writes s1 \<and> sync_file env s1 \<noteq> Ok then open_fail (sync_file env s1) rp s1
        else (Ok, rp, s1))"

definition open_torn_header :: "StoreEnv \<Rightarrow> nat \<Rightarrow> StoreReport \<Rightarrow> Store \<Rightarrow> Status \<times> StoreReport \<times> Store" where
  "open_torn_header env extent rp s =
     (if st_salvage s = SalvageReject then open_fail StoreCorrupt rp s
      else let (truncated, s1) = truncate_to env 0 s in
        if truncated \<noteq> Ok then open_fail truncated rp s1
        else let (started, s2) = start_file env s1 in
          if started \<noteq> Ok then open_fail started rp s2
          else (Ok, rp\<lparr>rp_status := RsTailDiscarded, rp_discarded_bytes := extent\<rparr>, s2))"

text \<open>What follows the scan: a tail is refused or cut away, and the next write goes behind the last intact
  record.\<close>

definition open_scanned ::
  "StoreEnv \<Rightarrow> nat \<Rightarrow> bool \<Rightarrow> nat \<Rightarrow> StoreReport \<Rightarrow> Store \<Rightarrow> Status \<times> StoreReport \<times> Store" where
  "open_scanned env extent tail_problem last_good rp s =
     (let rp = rp\<lparr>rp_records_read := length (st_records s)\<rparr> in
      if tail_problem \<and> st_salvage s = SalvageReject then open_fail StoreCorrupt rp s
      else let (truncated, s1) = (if tail_problem then truncate_to env last_good s else (Ok, s)) in
        if truncated \<noteq> Ok then open_fail truncated rp s1
        else let rp = (if tail_problem
               then rp\<lparr>rp_status := RsTailDiscarded, rp_discarded_bytes := extent - last_good, rp_records_discarded := 1\<rparr>
               else rp\<lparr>rp_status := RsClean\<rparr>);
             (positioned, s2) = seek_to env last_good s1 in
          if positioned \<noteq> Ok then open_fail positioned rp s2
          else let s3 = s2\<lparr>st_valid_bytes := last_good, st_appended_bytes := 0, st_appended_records := 0\<rparr> in
            if st_durable_writes s3 \<and> sync_file env s3 \<noteq> Ok then open_fail (sync_file env s3) rp s3
            else (Ok, rp, s3))"

definition open_existing :: "StoreEnv \<Rightarrow> StoreReport \<Rightarrow> Store \<Rightarrow> Status \<times> StoreReport \<times> Store" where
  "open_existing env rp s =
     (let file = file_bytes s; header = take kHeaderBytes file in
      if \<not> se_read env 0 then open_fail StoreIo rp s
      else if read_u32 header \<noteq> kStoreMagic then open_fail StoreCorrupt rp s
      else if read_u32 (drop 4 header) \<noteq> kStateFormatVersion then open_fail StoreVersionUnsupported rp s
      else if read_u32 (drop 12 header) \<noteq> crc32c (take 12 header) then open_fail StoreCorrupt rp s
      else let (ended, records, last_good) = scan_records (st_limits s) (se_read env) file kHeaderBytes (st_records s);
               s1 = s\<lparr>st_records := records\<rparr> in
        case ended of
          ScanRefused e \<Rightarrow> open_fail e rp s1
        | ScanTail \<Rightarrow> open_scanned env (length file) True last_good rp s1
        | ScanClean \<Rightarrow> open_scanned env (length file) False last_good rp s1)"

definition store_open_file :: "StoreEnv \<Rightarrow> Store \<Rightarrow> Status \<times> StoreReport \<times> Store" where
  "store_open_file env s =
     (if st_memory_only s then (Ok, initial_report, s)
      else let s0 = s\<lparr>st_handle := False, st_locked := False\<rparr>; existed = (st_file s0 \<noteq> None);
               rejected = initial_report\<lparr>rp_status := RsRejected\<rparr> in
        if \<not> se_stat env then (StoreIo, rejected, s0)
        else let (locked, s1) = acquire_lock env s0 in
          if locked \<noteq> Ok then (locked, rejected, s1)
          else let (opened, s2) = open_file env s1 in
            if opened \<noteq> Ok then (opened, rejected, close_lock s2)
            else let s3 = s2\<lparr>st_open := True\<rparr>; extent = length (file_bytes s3) in
              if \<not> se_size env then open_fail StoreIo initial_report s3
              else let rp = initial_report\<lparr>rp_file_bytes := extent\<rparr> in
                if \<not> existed \<or> extent = 0 then open_created env rp s3
                else if extent < kHeaderBytes then open_torn_header env extent rp s3
                else open_existing env rp s3)"

section \<open>Appending and rewriting\<close>

definition append_record :: "StoreEnv \<Rightarrow> u8 \<Rightarrow> bytes \<Rightarrow> Store \<Rightarrow> Status \<times> Store" where
  "append_record env kind payload s =
     (if st_memory_only s \<or> \<not> st_open s then (Ok, s)
      else if length payload > max_record_payload_bytes (st_limits s) then (CapacityExceeded, s)
      else let frame = build_record kind payload; (written, s1) = write_all env frame s in
        if written \<noteq> Ok then (written, s1)
        else let s2 = s1\<lparr>st_appended_bytes := st_appended_bytes s1 + length frame,
                          st_appended_records := st_appended_records s1 + 1\<rparr> in
          (if st_durable_writes s2 then sync_file env s2 else Ok, s2))"

text \<open>The replacement is written to a file of its own and renamed over the store.\<close>

definition rewrite_store :: "StoreEnv \<Rightarrow> u8 \<Rightarrow> bytes \<Rightarrow> Store \<Rightarrow> Status \<times> Store" where
  "rewrite_store env kind payload s =
     (if st_memory_only s \<or> \<not> st_open s then (Ok, s)
      else if length payload > max_record_payload_bytes (st_limits s) then (CapacityExceeded, s)
      else let contents = build_header 1 @ build_record kind payload in
        if \<not> se_compact_create env then (StoreIo, s)
        else if \<not> se_compact_write env then (StoreIo, s)
        else let s1 = close_file s in
          if \<not> se_rename env then (StoreIo, s1)
          else let (reopened, s2) = open_file env (s1\<lparr>st_file := Some contents\<rparr>) in
            if reopened \<noteq> Ok then (reopened, (close_lock s2)\<lparr>st_open := False\<rparr>)
            else let (positioned, s3) = seek_to env (length contents) s2 in
              if positioned \<noteq> Ok then (positioned, (close_lock (close_file s3))\<lparr>st_open := False\<rparr>)
              else let s4 = s3\<lparr>st_records := [\<lparr>sr_kind = kind, sr_payload = payload\<rparr>],
                     st_valid_bytes := length contents, st_appended_bytes := 0, st_appended_records := 0\<rparr> in
                (if st_durable_writes s4 then sync_file env s4 else Ok, s4))"

definition store_flush :: "StoreEnv \<Rightarrow> Store \<Rightarrow> Status" where
  "store_flush env s = (if st_memory_only s \<or> \<not> st_open s then Ok else sync_file env s)"

definition store_close :: "Store \<Rightarrow> Store" where
  "store_close s =
     (if st_memory_only s then s
      else (close_lock (if st_open s then close_file s else s))\<lparr>st_open := False\<rparr>)"

text \<open>Growth since the last checkpoint decides when to compact.\<close>

definition should_compact :: "Store \<Rightarrow> bool" where
  "should_compact s \<longleftrightarrow>
     st_appended_bytes s \<ge> max_journal_bytes (st_limits s) \<or> st_appended_records s \<ge> max_journal_records (st_limits s)"

end
