(* ===== verification/StoreLaws.thy ===== *)
theory StoreLaws
  imports StoreFile
begin

text \<open>
  What the scan finds in a store file: the image of a list of records is read back, a frame that was
  not written completely is recognised and left out, and what follows a damaged frame is lost or
  refused depending on the damage.
\<close>

section \<open>Reading what was written\<close>

lemma bits_of_bytes:
  "bit (foldl (\<lambda>v i. v OR push_bit (8 * i) (ucast (f i :: u8))) (w :: 'a::len word) is) n \<longleftrightarrow>
     bit w n \<or> n < LENGTH('a) \<and> (\<exists>i \<in> set is. 8 * i \<le> n \<and> n - 8 * i < 8 \<and> bit (f i) (n - 8 * i))"
proof (induction "is" arbitrary: w)
  case (Cons i "is")
  have "bit (push_bit (8 * i) (ucast (f i) :: 'a word)) n \<longleftrightarrow>
      n < LENGTH('a) \<and> 8 * i \<le> n \<and> n - 8 * i < 8 \<and> bit (f i) (n - 8 * i)"
    by (auto simp: bit_simps dest: bit_imp_le_length)
  then show ?case using Cons by (auto simp: bit_or_iff)
qed simp

lemma byte_bits: "bit (ucast (drop_bit k (v :: 'a::len word)) :: u8) m \<longleftrightarrow> m < 8 \<and> bit v (k + m)"
  by (auto simp: bit_simps dest: bit_imp_le_length)

lemma read_write_u32 [simp]: "read_u32 (write_u32 v @ r) = v"
proof (rule bit_word_eqI)
  fix n assume n: "n < LENGTH(32)"
  have byte: "(write_u32 v @ r) ! i = ucast (drop_bit (8 * i) v)" if "i < 4" for i
    using that by (simp add: write_u32_def nth_append)
  have "bit (read_u32 (write_u32 v @ r)) n \<longleftrightarrow>
      (\<exists>i < 4. 8 * i \<le> n \<and> n - 8 * i < 8 \<and> bit ((write_u32 v @ r) ! i) (n - 8 * i))"
    unfolding read_u32_def bits_of_bytes using n by (auto simp: Bex_def atLeast0LessThan)
  also have "\<dots> \<longleftrightarrow> (\<exists>i < 4. 8 * i \<le> n \<and> n - 8 * i < 8 \<and> bit v n)"
    by (rule ex_cong1) (auto simp: byte byte_bits)
  also have "\<dots> \<longleftrightarrow> bit v n"
    using n by (auto intro!: exI [of _ "n div 8"])
  finally show "bit (read_u32 (write_u32 v @ r)) n = bit v n" .
qed

lemma read_write_u64 [simp]: "read_u64 (write_u64 v @ r) = v"
proof (rule bit_word_eqI)
  fix n assume n: "n < LENGTH(64)"
  have byte: "(write_u64 v @ r) ! i = ucast (drop_bit (8 * i) v)" if "i < 8" for i
    using that by (simp add: write_u64_def nth_append)
  have "bit (read_u64 (write_u64 v @ r)) n \<longleftrightarrow>
      (\<exists>i < 8. 8 * i \<le> n \<and> n - 8 * i < 8 \<and> bit ((write_u64 v @ r) ! i) (n - 8 * i))"
    unfolding read_u64_def bits_of_bytes using n by (auto simp: Bex_def atLeast0LessThan)
  also have "\<dots> \<longleftrightarrow> (\<exists>i < 8. 8 * i \<le> n \<and> n - 8 * i < 8 \<and> bit v n)"
    by (rule ex_cong1) (auto simp: byte byte_bits)
  also have "\<dots> \<longleftrightarrow> bit v n"
    using n by (auto intro!: exI [of _ "n div 8"])
  finally show "bit (read_u64 (write_u64 v @ r)) n = bit v n" .
qed

lemma read_write_u16 [simp]: "read_u16 (write_u16 v @ r) = v"
  by (rule bit_word_eqI) (auto simp: read_u16_def write_u16_def bit_simps dest: bit_imp_le_length)

lemma length_writes [simp]: "length (write_u16 v) = 2" "length (write_u32 w) = 4" "length (write_u64 x) = 8"
  by (simp_all add: write_u16_def write_u32_def write_u64_def)

text \<open>The bytes of a payload as the text they spell.\<close>

definition bytes_text :: "bytes \<Rightarrow> string" where
  "bytes_text b = map (char_of \<circ> unat) b"

lemma char_byte: "char_of (unat (of_char c :: u8)) = c"
proof -
  have "(of_char c :: u8) = of_nat (of_char c)" by (simp only: of_nat_of_char)
  moreover have "(of_char c :: nat) < 256" using of_char_of [of "of_char c :: nat"] mod_less_divisor [of 256 "of_char c"] by simp
  ultimately have "unat (of_char c :: u8) = (of_char c :: nat)" by (simp only: unat_of_nat) (simp add: take_bit_nat_eq_self)
  then show ?thesis by simp
qed

lemma bytes_text_bytes [simp]: "bytes_text (text_bytes s) = s"
  by (simp add: bytes_text_def text_bytes_def comp_def char_byte)

section \<open>Frames\<close>

definition record_frame :: "StoreRecord \<Rightarrow> bytes" where
  "record_frame r = build_record (sr_kind r) (sr_payload r)"

definition frame_header :: "StoreRecord \<Rightarrow> bytes" where
  "frame_header r =
     write_u32 kRecordMagic @ write_u16 (ucast (sr_kind r)) @ write_u16 0 @ write_u32 (of_nat (length (sr_payload r))) @
     write_u32 (frame_crc (ucast (sr_kind r)) (of_nat (length (sr_payload r))) (sr_payload r))"

lemma record_frame_split: "record_frame r = frame_header r @ sr_payload r"
  by (simp add: record_frame_def build_record_def frame_header_def)

lemma length_frame_header [simp]: "length (frame_header r) = kRecordHeaderBytes"
  by (simp add: frame_header_def kRecordHeaderBytes_def)

lemma header_positive: "0 < kRecordHeaderBytes"
  by (simp add: kRecordHeaderBytes_def)

lemma length_record_frame: "length (record_frame r) = kRecordHeaderBytes + length (sr_payload r)"
  by (simp add: record_frame_split)

lemma frame_header_reads:
  "read_u32 (frame_header r) = kRecordMagic" "read_u16 (drop 4 (frame_header r)) = ucast (sr_kind r)"
  "read_u32 (drop 8 (frame_header r)) = of_nat (length (sr_payload r))"
  "read_u32 (drop 12 (frame_header r)) = frame_crc (ucast (sr_kind r)) (of_nat (length (sr_payload r))) (sr_payload r)"
  using read_write_u32 [of "frame_crc (ucast (sr_kind r)) (of_nat (length (sr_payload r))) (sr_payload r)" "[]"]
  by (simp_all add: frame_header_def del: read_write_u32 [of _ "[]"])

text \<open>A record that \<open>append\<close> accepts: its length fits the bound and 32 bits.\<close>

definition fits :: "Limits \<Rightarrow> StoreRecord \<Rightarrow> bool" where
  "fits lim r \<longleftrightarrow> length (sr_payload r) \<le> max_record_payload_bytes lim \<and> length (sr_payload r) < 2 ^ 32"

lemma fits_length: "fits lim r \<Longrightarrow> unat (of_nat (length (sr_payload r)) :: u32) = length (sr_payload r)"
  by (simp add: fits_def unat_of_nat take_bit_nat_eq_self)

lemma kind_narrows: "(ucast (ucast (k :: u8) :: u16) :: u8) = k"
  by (rule bit_word_eqI) (auto simp: bit_simps)

lemma scan_record:
  assumes "fits lim r" "\<And>i. ok i"
  shows "scan_records lim ok (pre @ record_frame r @ rest) (length pre) rs =
    scan_records lim ok (pre @ record_frame r @ rest) (length pre + length (record_frame r)) (rs @ [r])"
proof -
  let ?file = "pre @ record_frame r @ rest"
  have head: "take kRecordHeaderBytes (drop (length pre) ?file) = frame_header r"
    and payload: "take (length (sr_payload r)) (drop (length pre + kRecordHeaderBytes) ?file) = sr_payload r"
    by (simp_all add: record_frame_split)
  have size: "length ?file - length pre = kRecordHeaderBytes + length (sr_payload r) + length rest"
    by (simp add: length_record_frame)
  have eta: "\<lparr>sr_kind = sr_kind r, sr_payload = sr_payload r\<rparr> = r" by simp
  show ?thesis
    using assms
    by (subst scan_records.simps, unfold Let_def head frame_header_reads fits_length [OF assms(1)] payload kind_narrows size eta)
      (simp add: fits_def length_record_frame add.assoc header_positive)
qed

text \<open>A frame of which only a part was written ends the scan before it.\<close>

lemma scan_torn:
  assumes "fits lim r" "\<And>i. ok i" "n < length (record_frame r)"
  shows "scan_records lim ok (pre @ take n (record_frame r)) (length pre) rs =
    (if n = 0 then ScanClean else ScanTail, rs, length pre)"
proof (cases "n < kRecordHeaderBytes")
  case True
  then show ?thesis by (subst scan_records.simps) (simp add: length_record_frame)
next
  case False
  then have head: "take kRecordHeaderBytes (drop (length pre) (pre @ take n (record_frame r))) = frame_header r"
    by (simp add: record_frame_split min_absorb1)
  have "length (pre @ take n (record_frame r)) - length pre = n" using assms(3) by simp
  then show ?thesis
    using False assms
    by (subst scan_records.simps, unfold Let_def head frame_header_reads fits_length [OF assms(1)])
      (simp add: fits_def length_record_frame)
qed

lemma scan_end: "scan_records lim ok file (length file) rs = (ScanClean, rs, length file)"
  by (subst scan_records.simps) simp

definition frames :: "StoreRecord list \<Rightarrow> bytes" where
  "frames rs = concat (map record_frame rs)"

lemma scan_frames:
  assumes "list_all (fits lim) rs" "\<And>i. ok i"
  shows "scan_records lim ok (pre @ frames rs @ rest) (length pre) before =
    scan_records lim ok (pre @ frames rs @ rest) (length pre + length (frames rs)) (before @ rs)"
  using assms(1)
proof (induction rs arbitrary: pre before)
  case (Cons r rs)
  have "scan_records lim ok (pre @ record_frame r @ frames rs @ rest) (length pre) before =
      scan_records lim ok ((pre @ record_frame r) @ frames rs @ rest) (length (pre @ record_frame r)) (before @ [r])"
    using scan_record [of lim r ok pre "frames rs @ rest" before] Cons.prems assms(2) by simp
  then show ?case using Cons.IH [of "pre @ record_frame r" "before @ [r]"] Cons.prems by (simp add: frames_def add.assoc)
qed (simp add: frames_def)

text \<open>Every frame takes at least its header, so the scan is bounded by the size of the file.\<close>

lemma scan_bounded:
  "scan_records lim ok fb offset rs = (ended, rs', good) \<Longrightarrow> offset \<le> length fb \<Longrightarrow>
     good \<le> length fb \<and> offset + kRecordHeaderBytes * length rs' \<le> good + kRecordHeaderBytes * length rs"
proof (induction "length fb - offset" arbitrary: offset rs rule: less_induct)
  case less
  let ?next = "offset + kRecordHeaderBytes + unat (read_u32 (drop 8 (take kRecordHeaderBytes (drop offset fb))))"
  have IH: "good \<le> length fb \<and> offset + kRecordHeaderBytes * length rs' \<le> good + kRecordHeaderBytes * length rs"
    if "scan_records lim ok fb ?next (rs @ [r]) = (ended, rs', good)" "offset < length fb"
      "\<not> length fb - offset < kRecordHeaderBytes + unat (read_u32 (drop 8 (take kRecordHeaderBytes (drop offset fb))))" for r
  proof -
    have "length fb - ?next < length fb - offset" "?next \<le> length fb" using that(2,3) header_positive by linarith+
    then show ?thesis using less.hyps [OF _ that(1)] by simp
  qed
  show ?case
    using less.prems IH unfolding scan_records.simps [of lim ok fb offset rs] Let_def by (auto split: if_splits)
qed

section \<open>Files\<close>

definition store_image :: "StoreRecord list \<Rightarrow> bytes" where
  "store_image rs = build_header 1 @ frames rs"

lemma length_build_header [simp]: "length (build_header b) = kHeaderBytes"
  by (simp add: build_header_def Let_def kHeaderBytes_def)

lemma store_image_snoc: "store_image (rs @ [r]) = store_image rs @ record_frame r"
  by (simp add: store_image_def frames_def)

text \<open>The records of a file and what is left of an interrupted append: the records are found, and the rest
  is a tail.\<close>

lemma scan_image:
  assumes "list_all (fits lim) rs" "fits lim r" "\<And>i. ok i" "n < length (record_frame r)"
  shows "scan_records lim ok (store_image rs @ take n (record_frame r)) kHeaderBytes [] =
    (if n = 0 then ScanClean else ScanTail, rs, length (store_image rs))"
  using scan_frames [OF assms(1), where ok = ok and pre = "build_header 1" and rest = "take n (record_frame r)" and before = "[]"]
    scan_torn [OF assms(2), where ok = ok and pre = "build_header 1 @ frames rs" and rs = rs and n = n] assms(3,4)
  by (simp add: store_image_def)

lemma header_accepted:
  assumes "take kHeaderBytes file = build_header b"
  shows "read_u32 (take kHeaderBytes file) = kStoreMagic" "read_u32 (drop 4 (take kHeaderBytes file)) = kStateFormatVersion"
    "read_u32 (drop 12 (take kHeaderBytes file)) = crc32c (take 12 (take kHeaderBytes file))"
  unfolding assms by (simp_all add: build_header_def Let_def)

section \<open>Opening a file\<close>

text \<open>An environment in which every call succeeds.\<close>

definition calm :: StoreEnv where
  "calm = \<lparr>se_stat = True, se_lock = Ok, se_open = True, se_size = True, se_read = (\<lambda>_. True), se_write = kHeaderBytes,
     se_seek = True, se_truncate = True, se_sync = True, se_compact_create = True, se_compact_write = True,
     se_rename = True\<rparr>"

text \<open>A process that starts on a file and salvages its tail: the records it finds.\<close>

definition reopen :: "Limits \<Rightarrow> bytes option \<Rightarrow> Status \<times> StoreReport \<times> Store" where
  "reopen lim f = store_open_file calm (new_store f False DiscardTail True True lim)"

definition recovered :: "Limits \<Rightarrow> bytes option \<Rightarrow> StoreRecord list option" where
  "recovered lim f = (case reopen lim f of (status, _, s) \<Rightarrow> if status = Ok then Some (st_records s) else None)"

text \<open>An open store whose file holds exactly some records, and whose next write goes behind them.\<close>

definition holds :: "StoreRecord list \<Rightarrow> Store \<Rightarrow> bool" where
  "holds rs s \<longleftrightarrow> st_open s \<and> st_handle s \<and> \<not> st_memory_only s \<and> st_file s = Some (store_image rs) \<and>
     st_position s = length (store_image rs)"

lemma store_image_length: "kHeaderBytes \<le> length (store_image rs)"
  by (simp add: store_image_def)

definition opened_store :: "Limits \<Rightarrow> StoreRecord list \<Rightarrow> Store" where
  "opened_store lim rs = (new_store (Some (store_image rs)) False DiscardTail True True lim)
     \<lparr>st_position := length (store_image rs), st_handle := True, st_locked := True, st_records := rs,
      st_valid_bytes := length (store_image rs), st_open := True\<rparr>"

lemma opened_store_holds: "holds rs (opened_store lim rs)" "st_records (opened_store lim rs) = rs"
  by (simp_all add: holds_def opened_store_def new_store_def)

text \<open>What follows the last intact record is cut away.\<close>

lemma reopen_tail:
  assumes "scan_records lim (\<lambda>_. True) (store_image rs @ tail) kHeaderBytes [] =
    (if tail = [] then ScanClean else ScanTail, rs, length (store_image rs))"
  shows "reopen lim (Some (store_image rs @ tail)) =
    (Ok, \<lparr>rp_status = (if tail = [] then RsClean else RsTailDiscarded),
          rp_file_bytes = length (store_image rs) + length tail, rp_discarded_bytes = length tail,
          rp_records_read = length rs, rp_records_discarded = (if tail = [] then 0 else 1)\<rparr>,
     opened_store lim rs)"
proof -
  have head: "take kHeaderBytes (store_image rs @ tail) = build_header 1" by (simp add: store_image_def)
  have size: "store_image rs \<noteq> []" "\<not> length (store_image rs @ tail) < kHeaderBytes"
    using store_image_length [of rs] by (auto simp: kHeaderBytes_def)
  note accepted = header_accepted [OF head]
  note defs = reopen_def store_open_file_def open_existing_def Let_def new_store_def calm_def acquire_lock_def
    open_file_def file_bytes_def open_scanned_def seek_to_def sync_file_def initial_report_def opened_store_def
  show ?thesis
  proof (cases "tail = []")
    case True
    then show ?thesis using size accepted assms by (simp add: defs)
  next
    case False
    then show ?thesis using size accepted assms by (simp add: defs truncate_to_def)
  qed
qed

lemma reopen_torn:
  assumes "list_all (fits lim) rs" "fits lim r" "n < length (record_frame r)"
  shows "reopen lim (Some (store_image rs @ take n (record_frame r))) =
    (Ok, \<lparr>rp_status = (if n = 0 then RsClean else RsTailDiscarded), rp_file_bytes = length (store_image rs) + n,
          rp_discarded_bytes = n, rp_records_read = length rs, rp_records_discarded = (if n = 0 then 0 else 1)\<rparr>,
     opened_store lim rs)"
proof -
  have "take n (record_frame r) = [] \<longleftrightarrow> n = 0" "length (take n (record_frame r)) = n" using assms(3) by auto
  then show ?thesis
    using reopen_tail [of lim rs "take n (record_frame r)"] scan_image [OF assms(1,2) _ assms(3), of "\<lambda>_. True"] by simp
qed

lemma reopen_image:
  assumes "list_all (fits lim) rs"
  shows "reopen lim (Some (store_image rs)) =
    (Ok, \<lparr>rp_status = RsClean, rp_file_bytes = length (store_image rs), rp_discarded_bytes = 0,
          rp_records_read = length rs, rp_records_discarded = 0\<rparr>, opened_store lim rs)"
  using reopen_torn [OF assms, of "\<lparr>sr_kind = 0, sr_payload = []\<rparr>" 0]
  by (simp add: fits_def length_record_frame header_positive)

lemma recovered_torn:
  "list_all (fits lim) rs \<Longrightarrow> fits lim r \<Longrightarrow> n < length (record_frame r) \<Longrightarrow>
     recovered lim (Some (store_image rs @ take n (record_frame r))) = Some rs"
  by (simp add: recovered_def reopen_torn opened_store_holds)

lemma recovered_image: "list_all (fits lim) rs \<Longrightarrow> recovered lim (Some (store_image rs)) = Some rs"
  by (simp add: recovered_def reopen_image opened_store_holds)

section \<open>Appending\<close>

lemma overwrite_end: "overwrite (length file) data file = file @ data"
  by (simp add: overwrite_def)

lemma append_spec:
  assumes "holds rs s" "fits (st_limits s) r" "append_record env (sr_kind r) (sr_payload r) s = (status, s')"
  shows "st_file s' = Some (store_image rs @ take (se_write env) (record_frame r))"
    "st_limits s' = st_limits s"
    "length (record_frame r) \<le> se_write env \<Longrightarrow> holds (rs @ [r]) s'"
    "status = Ok \<longleftrightarrow> length (record_frame r) \<le> se_write env \<and> (st_durable_writes s \<longrightarrow> se_sync env)"
proof -
  have ne: "record_frame r \<noteq> []" using length_record_frame [of r] header_positive by auto
  note defs = append_record_def Let_def write_all_def holds_def file_bytes_def sync_file_def overwrite_end
    record_frame_def [symmetric] fits_def store_image_snoc
  show "st_file s' = Some (store_image rs @ take (se_write env) (record_frame r))"
    using assms ne by (auto simp: defs split: if_splits)
  show "st_limits s' = st_limits s" using assms ne by (auto simp: defs split: if_splits)
  show "holds (rs @ [r]) s'" if "length (record_frame r) \<le> se_write env"
    using assms ne that by (auto simp: defs split: if_splits)
  show "status = Ok \<longleftrightarrow> length (record_frame r) \<le> se_write env \<and> (st_durable_writes s \<longrightarrow> se_sync env)"
    using assms ne by (auto simp: defs split: if_splits)
qed

text \<open>An append that is cut off at any point, then a restart: the records before it are found, and the new
  one exactly if all of it was written.\<close>

lemma append_recovered:
  assumes "holds rs s" "list_all (fits (st_limits s)) rs" "fits (st_limits s) r"
    "append_record env (sr_kind r) (sr_payload r) s = (status, s')"
  shows "recovered (st_limits s) (st_file s') =
    Some (if length (record_frame r) \<le> se_write env then rs @ [r] else rs)"
proof -
  note spec = append_spec [OF assms(1,3,4)]
  show ?thesis
  proof (cases "length (record_frame r) \<le> se_write env")
    case True
    then have "st_file s' = Some (store_image (rs @ [r]))" using spec(1) by (simp add: store_image_snoc)
    then show ?thesis using True assms(2,3) recovered_image [of "st_limits s" "rs @ [r]"] by simp
  next
    case False
    then show ?thesis using spec(1) recovered_torn [OF assms(2,3), of "se_write env"] by simp
  qed
qed

section \<open>Rewriting\<close>

lemma rewrite_spec:
  assumes "holds rs s" "fits (st_limits s) r" "rewrite_store env (sr_kind r) (sr_payload r) s = (status, s')"
  shows "st_file s' = Some (store_image rs) \<or> st_file s' = Some (store_image [r])"
    "status = Ok \<Longrightarrow> holds [r] s' \<and> st_records s' = [r]"
    "st_limits s' = st_limits s"
proof -
  have one: "build_header 1 @ build_record (sr_kind r) (sr_payload r) = store_image [r]"
    by (simp add: store_image_def frames_def record_frame_def)
  note defs = rewrite_store_def Let_def holds_def one close_file_def close_lock_def open_file_def seek_to_def fits_def
  show "st_file s' = Some (store_image rs) \<or> st_file s' = Some (store_image [r])"
    using assms by (auto simp: defs split: if_splits)
  show "holds [r] s' \<and> st_records s' = [r]" if "status = Ok"
    using assms that by (auto simp: defs split: if_splits)
  show "st_limits s' = st_limits s" using assms by (auto simp: defs split: if_splits)
qed

lemma rewrite_recovered:
  assumes "holds rs s" "list_all (fits (st_limits s)) rs" "fits (st_limits s) r"
    "rewrite_store env (sr_kind r) (sr_payload r) s = (status, s')"
  shows "recovered (st_limits s) (st_file s') \<in> {Some rs, Some [r]}"
    "status = Ok \<Longrightarrow> recovered (st_limits s) (st_file s') = Some [r]"
  using rewrite_spec [OF assms(1,3,4)] recovered_image [OF assms(2)] recovered_image [of "st_limits s" "[r]"] assms(3)
  by (auto simp: holds_def)

section \<open>Damage\<close>

lemma low_byte: "(ucast (read_u32 b) :: u8) = b ! 0"
proof (rule bit_word_eqI)
  fix n assume n: "n < LENGTH(8)"
  have "bit (read_u32 b) n \<longleftrightarrow> (\<exists>i < 4. 8 * i \<le> n \<and> n - 8 * i < 8 \<and> bit (b ! i) (n - 8 * i))"
    unfolding read_u32_def bits_of_bytes using n by (auto simp: Bex_def atLeast0LessThan)
  also have "\<dots> \<longleftrightarrow> bit (b ! 0) n"
  proof -
    have first: "8 * i \<le> n \<longleftrightarrow> i = 0" for i using n by auto
    show ?thesis unfolding first using n by auto
  qed
  finally show "bit (ucast (read_u32 b) :: u8) n = bit (b ! 0) n" using n by (simp add: bit_simps)
qed

lemma frame_first: "hd (record_frame r) = ucast kRecordMagic"
  by (simp add: record_frame_split frame_header_def write_u32_def upt_rec)

text \<open>A frame whose first byte is damaged hides every record behind it.\<close>

lemma scan_damaged_magic:
  assumes "list_all (fits lim) rs" "x \<noteq> hd (record_frame r)"
  shows "scan_records lim (\<lambda>_. True) (store_image rs @ x # tl (record_frame r) @ rest) kHeaderBytes [] =
    (ScanTail, rs, length (store_image rs))"
proof -
  let ?tail = "x # tl (record_frame r) @ rest"
  have long: "kRecordHeaderBytes \<le> length ?tail" using length_record_frame [of r] by simp
  have "take kRecordHeaderBytes (drop (length (store_image rs)) (store_image rs @ ?tail)) ! 0 = x"
    by (simp add: kRecordHeaderBytes_def)
  then have "read_u32 (take kRecordHeaderBytes (drop (length (store_image rs)) (store_image rs @ ?tail))) \<noteq> kRecordMagic"
    using low_byte [of "take kRecordHeaderBytes (drop (length (store_image rs)) (store_image rs @ ?tail))"] assms(2) frame_first
    by metis
  then have "scan_records lim (\<lambda>_. True) (store_image rs @ ?tail) (length (store_image rs)) rs =
      (ScanTail, rs, length (store_image rs))"
    using long by (subst scan_records.simps) (simp add: Let_def)
  then show ?thesis
    using scan_frames [OF assms(1), where ok = "\<lambda>_. True" and pre = "build_header 1" and rest = ?tail and before = "[]"]
    by (simp add: store_image_def)
qed

lemma recovered_damaged_magic:
  assumes "list_all (fits lim) rs" "x \<noteq> hd (record_frame r)"
  shows "recovered lim (Some (store_image rs @ x # tl (record_frame r) @ rest)) = Some rs"
  using reopen_tail [of lim rs "x # tl (record_frame r) @ rest"] scan_damaged_magic [OF assms, of rest]
  by (simp add: recovered_def opened_store_holds)

text \<open>A frame whose payload does not match its checksum is refused when another frame follows.\<close>

lemma recovered_damaged_payload:
  assumes "list_all (fits lim) rs" "fits lim r" "length payload = length (sr_payload r)"
    "frame_crc (ucast (sr_kind r)) (of_nat (length payload)) payload \<noteq>
     frame_crc (ucast (sr_kind r)) (of_nat (length payload)) (sr_payload r)"
  shows "recovered lim (Some (store_image rs @ frame_header r @ payload @ record_frame next @ rest)) = None"
proof -
  let ?bad = "frame_header r @ payload"
  let ?file = "store_image rs @ ?bad @ record_frame next @ rest"
  have head: "take kRecordHeaderBytes (drop (length (store_image rs)) ?file) = frame_header r"
    and body: "take (length (sr_payload r)) (drop (length (store_image rs) + kRecordHeaderBytes) ?file) = payload"
    using assms(3) by simp_all
  have follows: "looks_like_record_magic (take (min (length ?file - (length (store_image rs) + kRecordHeaderBytes + length (sr_payload r))) 4)
      (drop (length (store_image rs) + kRecordHeaderBytes + length (sr_payload r)) ?file)) 0"
  proof -
    have "drop (length (store_image rs) + kRecordHeaderBytes + length (sr_payload r)) ?file = record_frame next @ rest"
      using assms(3) by simp
    moreover have "take 4 (record_frame next @ rest) = write_u32 kRecordMagic" "4 \<le> length (record_frame next)"
      by (simp_all add: record_frame_split frame_header_def kRecordHeaderBytes_def)
    ultimately show ?thesis
      using assms(3) read_write_u32 [of kRecordMagic "[]"] by (simp add: looks_like_record_magic_def min_def)
  qed
  have size: "length ?file - length (store_image rs) = kRecordHeaderBytes + length (sr_payload r) + (length (record_frame next) + length rest)"
    "length (store_image rs) + kRecordHeaderBytes + length (sr_payload r) < length ?file"
    using assms(3) header_positive by (simp_all add: length_record_frame)
  have "scan_records lim (\<lambda>_. True) ?file (length (store_image rs)) rs = (ScanRefused StoreCorrupt, rs, length (store_image rs))"
    using assms(2-4) size follows header_positive
    by (subst scan_records.simps, unfold Let_def head frame_header_reads fits_length [OF assms(2)] body kind_narrows size(1))
      (simp add: fits_def)
  then have scan: "scan_records lim (\<lambda>_. True) ?file kHeaderBytes [] = (ScanRefused StoreCorrupt, rs, length (store_image rs))"
    using scan_frames [OF assms(1), where ok = "\<lambda>_. True" and pre = "build_header 1" and rest = "?bad @ record_frame next @ rest"
        and before = "[]"]
    by (simp add: store_image_def)
  have "take kHeaderBytes ?file = build_header 1" "kHeaderBytes \<le> length (store_image rs)"
    by (simp_all add: store_image_def)
  then show ?thesis
    using scan header_accepted [of ?file 1] kHeaderBytes_def
    by (auto simp: recovered_def reopen_def store_open_file_def open_existing_def Let_def new_store_def calm_def
        acquire_lock_def open_file_def file_bytes_def open_fail_def close_lock_def close_file_def)
qed

end
