(* ===== verification/TextCodec.thy ===== *)
theory TextCodec
  imports Errors
begin

text \<open>
  The text format of the store and of the control protocol (\<open>text_codec.cpp\<close>): a token line and
  then one line \<open>key=value\<close> per field, values escaped. The writer appends lines, the reader is strict:
  it refuses repeated keys, unreadable escapes and, when a decoder is finished, keys that nobody asked
  for. Which key a refusal names is left out.
\<close>

section \<open>Escaping\<close>

abbreviation newline :: char where "newline \<equiv> CHR 0x0A"
abbreviation carriage_return :: char where "carriage_return \<equiv> CHR 0x0D"
abbreviation backslash :: char where "backslash \<equiv> CHR 0x5C"

fun escape_value :: "string \<Rightarrow> string" where
  "escape_value [] = []"
| "escape_value (c # cs) =
     (if c = backslash then [backslash, backslash]
      else if c = newline then [backslash, CHR ''n'']
      else if c = carriage_return then [backslash, CHR ''r''] else [c]) @ escape_value cs"

fun unescape_value :: "string \<Rightarrow> string option" where
  "unescape_value [] = Some []"
| "unescape_value (c # cs) =
     (if c \<noteq> backslash then map_option (Cons c) (unescape_value cs)
      else case cs of
        [] \<Rightarrow> None
      | e # rest \<Rightarrow>
          if e = backslash then map_option (Cons backslash) (unescape_value rest)
          else if e = CHR ''n'' then map_option (Cons newline) (unescape_value rest)
          else if e = CHR ''r'' then map_option (Cons carriage_return) (unescape_value rest)
          else None)"

lemma unescape_escape [simp]: "unescape_value (escape_value v) = Some v"
  by (induction v) auto

lemma escape_plain: "newline \<notin> set (escape_value v)"
  by (induction v) auto

section \<open>Decimal numbers\<close>

definition is_digit :: "char \<Rightarrow> bool" where
  "is_digit c \<longleftrightarrow> 48 \<le> (of_char c :: nat) \<and> (of_char c :: nat) \<le> 57"

text \<open>The loop of \<open>parse_u64\<close>, on words: the overflow check compares with the value before the step.\<close>

fun parse_digits :: "u64 \<Rightarrow> string \<Rightarrow> u64 option" where
  "parse_digits v [] = Some v"
| "parse_digits v (c # cs) =
     (if \<not> is_digit c then None
      else let v' = v * 10 + of_nat (of_char c - 48) in
           if v' < v then None else parse_digits v' cs)"

definition parse_u64 :: "string \<Rightarrow> u64 option" where
  "parse_u64 s = (if s = [] \<or> length s > 20 then None else parse_digits 0 s)"

text \<open>\<open>parse_i64\<close>: the signed value as an integer between the bounds of 64 bits.\<close>

definition parse_i64 :: "string \<Rightarrow> int option" where
  "parse_i64 s =
     (if s = [] then None
      else let negative = (hd s = CHR ''-'');
               digits = (if negative \<or> hd s = CHR ''+'' then tl s else s)
           in case parse_u64 digits of
                None \<Rightarrow> None
              | Some magnitude \<Rightarrow>
                  if negative then (if unat magnitude > 2 ^ 63 then None else Some (- int (unat magnitude)))
                  else if unat magnitude > 2 ^ 63 - 1 then None else Some (int (unat magnitude)))"

lemma decimal_grows: "m \<le> foldl (\<lambda>v c. v * 10 + (of_char c - 48)) m s" for m :: nat
proof (induction s arbitrary: m)
  case (Cons c s)
  have "m \<le> m * 10 + (of_char c - 48)" by simp
  also have "\<dots> \<le> foldl (\<lambda>v c. v * 10 + (of_char c - 48)) (m * 10 + (of_char c - 48)) s" by (rule Cons.IH)
  finally show ?case by simp
qed simp

lemma parse_digits_value:
  assumes "\<forall>c \<in> set s. is_digit c" "foldl (\<lambda>v c. v * 10 + (of_char c - 48)) n s < 2 ^ 64"
  shows "parse_digits (of_nat n) s = Some (of_nat (foldl (\<lambda>v c. v * 10 + (of_char c - 48)) n s))"
  using assms
proof (induction s arbitrary: n)
  case (Cons c s)
  let ?m = "n * 10 + (of_char c - 48)"
  have m: "?m < 2 ^ 64" "n < 2 ^ 64" using Cons.prems(2) decimal_grows [of ?m s] by simp_all
  have "of_nat n * 10 + of_nat (of_char c - 48) = (of_nat ?m :: u64)" by simp
  moreover have "\<not> (of_nat ?m :: u64) < of_nat n"
  proof -
    have "unat (of_nat k :: u64) = k" if "k < 2 ^ 64" for k
      using that by (simp add: unat_of_nat take_bit_nat_eq_self)
    then show ?thesis using m by (simp only: word_less_nat_alt)
  qed
  ultimately show ?case using Cons.IH [of ?m] Cons.prems by (simp add: Let_def)
qed simp

lemma parse_u64_value:
  assumes "s \<noteq> []" "length s \<le> 20" "\<forall>c \<in> set s. is_digit c" "dec_value s < 2 ^ 64"
  shows "parse_u64 s = Some (of_nat (dec_value s))"
  using parse_digits_value [of s 0] assms by (simp add: parse_u64_def dec_value_def)

lemma length_dec_digits: "n < 10 ^ k \<Longrightarrow> 0 < k \<Longrightarrow> length (dec_digits n) \<le> k"
proof (induction n arbitrary: k rule: dec_digits.induct)
  case (1 n)
  show ?case
  proof (cases "n < 10")
    case True
    then show ?thesis using 1(3) by (simp add: dec_digits.simps)
  next
    case False
    then obtain j where k: "k = Suc j" "0 < j" using 1(2,3) by (cases k; cases "k = 1") auto
    have "n div 10 < 10 ^ j" using 1(2) by (simp add: k less_mult_imp_div_less mult.commute)
    then show ?thesis using 1(1) [OF False] k by (simp add: dec_digits.simps [of n] False)
  qed
qed

lemma dec_digits_nonempty [simp]: "dec_digits n \<noteq> []"
  by (subst dec_digits.simps) simp

lemma u64_bound: "unat (w :: u64) < 2 ^ 64"
  using unsigned_less [of w] by simp

lemma parse_u64_to_decimal [simp]: "parse_u64 (to_decimal w) = Some w"
proof -
  have "unat w < 10 ^ 20" using u64_bound [of w] by simp
  then have "length (dec_digits (unat w)) \<le> 20" by (rule length_dec_digits) simp
  moreover have "\<forall>c \<in> set (dec_digits (unat w)). is_digit c"
    by (simp add: is_digit_def dec_digits_chars)
  ultimately show ?thesis
    using parse_u64_value [of "dec_digits (unat w)"] u64_bound [of w] by (simp add: to_decimal_def)
qed

section \<open>Writer\<close>

type_synonym field = "string \<times> string"

record TextWriter =
  tw_text :: string
  tw_prefixes :: "string list"

definition new_writer :: TextWriter where "new_writer = \<lparr>tw_text = [], tw_prefixes = []\<rparr>"

definition push_prefix :: "string \<Rightarrow> TextWriter \<Rightarrow> TextWriter" where
  "push_prefix prefix w = w\<lparr>tw_prefixes := tw_prefixes w @ [prefix]\<rparr>"

definition pop_prefix :: "TextWriter \<Rightarrow> TextWriter" where
  "pop_prefix w = w\<lparr>tw_prefixes := butlast (tw_prefixes w)\<rparr>"

definition write_token :: "string \<Rightarrow> TextWriter \<Rightarrow> TextWriter" where
  "write_token v w = w\<lparr>tw_text := tw_text w @ v @ [newline]\<rparr>"

definition compose_prefixes :: "string list \<Rightarrow> string \<Rightarrow> string" where
  "compose_prefixes prefixes key = concat prefixes @ key"

definition field_line :: "string \<Rightarrow> string \<Rightarrow> string" where
  "field_line key val = key @ ''='' @ escape_value val @ [newline]"

definition write_field :: "string \<Rightarrow> string \<Rightarrow> TextWriter \<Rightarrow> TextWriter" where
  "write_field key val w =
     w\<lparr>tw_text := tw_text w @ field_line (compose_prefixes (tw_prefixes w) key) val\<rparr>"

text \<open>The calls of \<open>add\<close> that an encoder makes, in their order.\<close>

definition write_fields :: "field list \<Rightarrow> TextWriter \<Rightarrow> TextWriter" where
  "write_fields fs w = foldl (\<lambda>w (k, v). write_field k v w) w fs"

text \<open>The first line of a text and what follows its line break, if there is one.\<close>

definition cut_line :: "string \<Rightarrow> (string \<times> string) option" where
  "cut_line s = (if newline \<in> set s then Some (takeWhile (\<lambda>c. c \<noteq> newline) s, tl (dropWhile (\<lambda>c. c \<noteq> newline) s))
     else None)"

lemma cut_line_shorter: "cut_line s = Some (l, r) \<Longrightarrow> length r < length s"
proof -
  assume "cut_line s = Some (l, r)"
  then have "newline \<in> set s" "r = tl (dropWhile (\<lambda>c. c \<noteq> newline) s)" by (auto simp: cut_line_def split: if_splits)
  then have "dropWhile (\<lambda>c. c \<noteq> newline) s \<noteq> []" by (auto simp: dropWhile_eq_Nil_conv)
  then show ?thesis
    using \<open>r = _\<close> length_dropWhile_le [of "\<lambda>c. c \<noteq> newline" s] by (cases "dropWhile (\<lambda>c. c \<noteq> newline) s") auto
qed

function block_lines :: "string \<Rightarrow> string \<Rightarrow> string" where
  "block_lines prefix block =
     (if block = [] then []
      else case cut_line block of
        None \<Rightarrow> prefix @ block @ [newline]
      | Some (line, rest) \<Rightarrow>
          (if line = [] then [] else prefix @ line @ [newline]) @ block_lines prefix rest)"
  by pat_completeness auto

termination
  by (relation "measure (length \<circ> snd)") (auto dest: cut_line_shorter)

declare block_lines.simps [simp del]

definition append_block :: "string \<Rightarrow> string \<Rightarrow> TextWriter \<Rightarrow> TextWriter" where
  "append_block prefix block w = w\<lparr>tw_text := tw_text w @ block_lines prefix block\<rparr>"

text \<open>An index is the position of an element of a vector, so its text is the decimal text of a number.\<close>

definition indexed_key :: "string \<Rightarrow> nat \<Rightarrow> string \<Rightarrow> string" where
  "indexed_key prefix index field =
     prefix @ ''.'' @ dec_digits index @ (if field = [] then [] else ''.'' @ field)"

section \<open>Reader\<close>

record TextReader =
  rd_token :: string
  rd_fields :: "field list"
  rd_consumed :: "bool list"
  rd_prefixes :: "string list"

definition new_reader :: "string \<Rightarrow> field list \<Rightarrow> TextReader" where
  "new_reader token fs =
     \<lparr>rd_token = token, rd_fields = fs, rd_consumed = replicate (length fs) False, rd_prefixes = []\<rparr>"

text \<open>A line after the token line: the key before the first separator and the unescaped value.\<close>

definition parse_field :: "string \<Rightarrow> field option" where
  "parse_field line =
     (if CHR ''='' \<notin> set line \<or> hd line = CHR ''='' then None
      else case unescape_value (tl (dropWhile (\<lambda>c. c \<noteq> CHR ''='') line)) of
        None \<Rightarrow> None
      | Some v \<Rightarrow> Some (takeWhile (\<lambda>c. c \<noteq> CHR ''='') line, v))"

definition kMaxFields :: nat where "kMaxFields = 200000"

function parse_lines :: "string \<Rightarrow> field list \<Rightarrow> field list result" where
  "parse_lines s fs =
     (if s = [] then Inr fs
      else case cut_line s of
        None \<Rightarrow> Inl InvalidArgument
      | Some (line, rest) \<Rightarrow>
          if line = [] then parse_lines rest fs
          else if length fs \<ge> kMaxFields then Inl CapacityExceeded
          else case parse_field line of
            None \<Rightarrow> Inl InvalidArgument
          | Some (k, v) \<Rightarrow>
              if k \<in> fst ` set fs then Inl InvalidArgument else parse_lines rest (fs @ [(k, v)]))"
  by pat_completeness auto

termination
  by (relation "measure (length \<circ> fst)") (auto dest: cut_line_shorter)

declare parse_lines.simps [simp del]

text \<open>\<open>TextReader::parse\<close>: the first line is the token.\<close>

definition reader_parse :: "string \<Rightarrow> Limits \<Rightarrow> TextReader result" where
  "reader_parse s limits =
     (if s = [] then Inl InvalidArgument
      else case cut_line s of
        None \<Rightarrow> Inl InvalidArgument
      | Some (token, rest) \<Rightarrow>
          if token = [] \<or> CHR ''='' \<in> set token then Inl InvalidArgument
          else case parse_lines rest [] of
            Inl e \<Rightarrow> Inl e
          | Inr fs \<Rightarrow>
              if length fs > max_journal_records limits then Inl CapacityExceeded
              else Inr (new_reader token fs))"

definition push_prefix_scope :: "string \<Rightarrow> TextReader \<Rightarrow> TextReader" where
  "push_prefix_scope prefix rd = rd\<lparr>rd_prefixes := rd_prefixes rd @ [prefix]\<rparr>"

definition pop_prefix_scope :: "TextReader \<Rightarrow> TextReader" where
  "pop_prefix_scope rd = rd\<lparr>rd_prefixes := butlast (rd_prefixes rd)\<rparr>"

definition compose_key :: "TextReader \<Rightarrow> string \<Rightarrow> string" where
  "compose_key rd key = compose_prefixes (rd_prefixes rd) key"

definition has_field :: "string \<Rightarrow> TextReader \<Rightarrow> bool" where
  "has_field key rd \<longleftrightarrow> compose_key rd key \<in> fst ` set (rd_fields rd)"

text \<open>The search for a key: the value of the first field that has it, and the marks with that field
  consumed.\<close>

fun take_field :: "string \<Rightarrow> field list \<Rightarrow> bool list \<Rightarrow> (string \<times> bool list) option" where
  "take_field key ((k, v) # fs) (c # cs) =
     (if k = key then Some (v, True # cs)
      else map_option (apsnd (Cons c)) (take_field key fs cs))"
| "take_field key _ _ = None"

type_synonym 'a reader = "TextReader \<Rightarrow> ('a \<times> TextReader) result"

definition require_string :: "string \<Rightarrow> string reader" where
  "require_string key rd =
     (case take_field (compose_key rd key) (rd_fields rd) (rd_consumed rd) of
        None \<Rightarrow> Inl InvalidArgument
      | Some (v, consumed) \<Rightarrow> Inr (v, rd\<lparr>rd_consumed := consumed\<rparr>))"

text \<open>A step of a decoder that may fail, and what is done with its value.\<close>

definition read_then :: "'a reader \<Rightarrow> ('a \<Rightarrow> 'b reader) \<Rightarrow> 'b reader" where
  "read_then d f rd = (case d rd of Inl e \<Rightarrow> Inl e | Inr (x, rd') \<Rightarrow> f x rd')"

definition read_done :: "'a \<Rightarrow> 'a reader" where
  "read_done x rd = Inr (x, rd)"

definition read_fail :: "ErrorCode \<Rightarrow> 'a reader" where
  "read_fail e rd = Inl e"

text \<open>A value that is parsed from a required field; what does not parse is refused.\<close>

definition require_parsed :: "(string \<Rightarrow> 'a option) \<Rightarrow> string \<Rightarrow> 'a reader" where
  "require_parsed p key =
     read_then (require_string key) (\<lambda>s. case p s of None \<Rightarrow> read_fail InvalidArgument | Some x \<Rightarrow> read_done x)"

definition require_u64 :: "string \<Rightarrow> u64 reader" where
  "require_u64 key = require_parsed parse_u64 key"

definition require_i64 :: "string \<Rightarrow> int reader" where
  "require_i64 key = require_parsed parse_i64 key"

definition require_bool :: "string \<Rightarrow> bool reader" where
  "require_bool key =
     read_then (require_u64 key) (\<lambda>v. if v > 1 then read_fail InvalidArgument else read_done (v = 1))"

definition optional_string :: "string \<Rightarrow> string \<Rightarrow> string reader" where
  "optional_string key fallback rd =
     (if has_field key rd then require_string key rd else Inr (fallback, rd))"

definition optional_u64 :: "string \<Rightarrow> u64 \<Rightarrow> u64 reader" where
  "optional_u64 key fallback rd =
     (if has_field key rd then require_u64 key rd else Inr (fallback, rd))"

definition group_count :: "string \<Rightarrow> u64 reader" where
  "group_count prefix = require_u64 (prefix @ ''.count'')"

definition in_group :: "string \<Rightarrow> string \<Rightarrow> bool" where
  "in_group prefix key \<longleftrightarrow> length key > length prefix \<and> take (length prefix) key = prefix"

text \<open>\<open>TextReader::group\<close>: a reader for the fields under a prefix, which are marked consumed here.\<close>

definition read_group :: "string \<Rightarrow> nat \<Rightarrow> TextReader reader" where
  "read_group prefix index rd =
     (let p = compose_key rd prefix @ ''.'' @ dec_digits index @ ''.'';
          sub = map (apfst (drop (length p))) (filter (\<lambda>f. in_group p (fst f)) (rd_fields rd))
      in if sub = [] then Inl InvalidArgument
         else Inr (new_reader prefix sub,
                   rd\<lparr>rd_consumed := map2 (\<lambda>f c. c \<or> in_group p (fst f)) (rd_fields rd) (rd_consumed rd)\<rparr>))"

text \<open>The loop of a decoder over the indices below a count.\<close>

fun read_range :: "nat list \<Rightarrow> (nat \<Rightarrow> 'a reader) \<Rightarrow> 'a list reader" where
  "read_range [] d = read_done []"
| "read_range (i # is) d =
     read_then (d i) (\<lambda>x. read_then (read_range is d) (\<lambda>xs. read_done (x # xs)))"

definition read_loop :: "u64 \<Rightarrow> (nat \<Rightarrow> 'a reader) \<Rightarrow> 'a list reader" where
  "read_loop n d = read_range [0..<unat n] d"

text \<open>A decoder that runs under a prefix scope.\<close>

definition read_scoped :: "string \<Rightarrow> 'a reader \<Rightarrow> 'a reader" where
  "read_scoped prefix d rd =
     (case d (push_prefix_scope prefix rd) of
        Inl e \<Rightarrow> Inl e | Inr (x, rd') \<Rightarrow> Inr (x, pop_prefix_scope rd'))"

definition consumed_count :: "TextReader \<Rightarrow> nat" where
  "consumed_count rd = length (filter id (rd_consumed rd))"

definition consume_remaining :: "TextReader \<Rightarrow> TextReader" where
  "consume_remaining rd = rd\<lparr>rd_consumed := map (\<lambda>c. True) (rd_consumed rd)\<rparr>"

definition take_remaining :: "TextReader \<Rightarrow> field list \<times> TextReader" where
  "take_remaining rd =
     (map fst (filter (\<lambda>(f, c). \<not> c) (zip (rd_fields rd) (rd_consumed rd))), consume_remaining rd)"

definition reader_finish :: "TextReader \<Rightarrow> Status" where
  "reader_finish rd =
     (if length (rd_consumed rd) \<noteq> length (rd_fields rd) then Internal
      else if \<forall>c \<in> set (rd_consumed rd). c then Ok else InvalidArgument)"

section \<open>What is written is read\<close>

definition plain_key :: "string \<Rightarrow> bool" where
  "plain_key k \<longleftrightarrow> k \<noteq> [] \<and> CHR ''='' \<notin> set k \<and> newline \<notin> set k"

definition render :: "field list \<Rightarrow> string" where
  "render fs = concat (map (\<lambda>(k, v). field_line k v) fs)"

definition prefixed :: "string \<Rightarrow> field list \<Rightarrow> field list" where
  "prefixed p fs = map (apfst (append p)) fs"

lemma render_simps [simp]:
  "render [] = []" "render ((k, v) # fs) = field_line k v @ render fs" "render (fs @ gs) = render fs @ render gs"
  by (simp_all add: render_def)

lemma prefixed_simps [simp]:
  "prefixed p [] = []" "prefixed p (f # fs) = (p @ fst f, snd f) # prefixed p fs"
  "prefixed p (fs @ gs) = prefixed p fs @ prefixed p gs" "length (prefixed p fs) = length fs"
  "prefixed [] fs = fs"
  by (simp_all add: prefixed_def apfst_def map_prod_def case_prod_beta)

lemma write_fields_text:
  "write_fields fs w = w\<lparr>tw_text := tw_text w @ render (prefixed (concat (tw_prefixes w)) fs)\<rparr>"
  by (induction fs arbitrary: w)
    (auto simp: write_fields_def write_field_def compose_prefixes_def case_prod_beta)

lemma cut_at:
  assumes "c \<notin> set l"
  shows "takeWhile (\<lambda>d. d \<noteq> c) (l @ c # r) = l" "dropWhile (\<lambda>d. d \<noteq> c) (l @ c # r) = c # r"
  using assms by (induction l) auto

lemma cut_line_append: "newline \<notin> set l \<Longrightarrow> cut_line (l @ newline # r) = Some (l, r)"
  by (simp add: cut_line_def cut_at)

lemma field_line_cut:
  assumes "plain_key k"
  shows "cut_line (field_line k v @ rest) = Some (k @ ''='' @ escape_value v, rest)"
  using assms escape_plain [of v] cut_line_append [of "k @ ''='' @ escape_value v" rest]
  by (simp add: field_line_def plain_key_def)

lemma parse_field_line:
  assumes "plain_key k" shows "parse_field (k @ ''='' @ escape_value v) = Some (k, v)"
proof -
  have "hd k \<noteq> CHR ''=''" using assms by (cases k) (auto simp: plain_key_def)
  then show ?thesis
    using assms cut_at [of "CHR ''=''" k "escape_value v"] by (auto simp: parse_field_def plain_key_def hd_append)
qed

lemma parse_lines_render:
  assumes "\<forall>f \<in> set gs. plain_key (fst f)" "distinct (map fst (fs @ gs))" "length fs \<le> kMaxFields"
  shows "parse_lines (render gs) fs =
    (if length fs + length gs \<le> kMaxFields then Inr (fs @ gs) else Inl CapacityExceeded)"
  using assms
proof (induction gs arbitrary: fs)
  case Nil
  then show ?case by (simp add: parse_lines.simps)
next
  case (Cons g gs)
  obtain k v where g: "g = (k, v)" by fastforce
  have k: "plain_key k" "k \<notin> fst ` set fs" using Cons.prems g by auto
  have cut: "cut_line (render (g # gs)) = Some (k @ ''='' @ escape_value v, render gs)"
    using field_line_cut [OF k(1)] by (simp add: g)
  have ne: "render (g # gs) \<noteq> []" by (simp add: g field_line_def)
  have "parse_lines (render (g # gs)) fs =
      (if length fs \<ge> kMaxFields then Inl CapacityExceeded else parse_lines (render gs) (fs @ [(k, v)]))"
    using ne k(2) parse_field_line [OF k(1), of v] by (subst parse_lines.simps) (simp add: cut)
  then show ?case using Cons.IH [of "fs @ [(k, v)]"] Cons.prems by (auto simp: g)
qed

lemma reader_parse_render:
  assumes "plain_key token" "\<forall>f \<in> set fs. plain_key (fst f)" "distinct (map fst fs)"
  shows "reader_parse (token @ newline # render fs) lim =
    (if length fs > kMaxFields \<or> length fs > max_journal_records lim then Inl CapacityExceeded
     else Inr (new_reader token fs))"
  using assms parse_lines_render [of fs "[]"]
  by (auto simp: reader_parse_def plain_key_def cut_line_append)

lemma block_lines_render:
  assumes "\<forall>f \<in> set fs. plain_key (fst f)"
  shows "block_lines p (render fs) = render (prefixed p fs)"
  using assms
proof (induction fs)
  case Nil
  then show ?case by (simp add: block_lines.simps)
next
  case (Cons f fs)
  obtain k v where f: "f = (k, v)" by fastforce
  have k: "plain_key k" using Cons.prems f by simp
  have cut: "cut_line (render (f # fs)) = Some (k @ ''='' @ escape_value v, render fs)"
    using field_line_cut [OF k] by (simp add: f)
  have ne: "render (f # fs) \<noteq> []" by (simp add: f field_line_def)
  have "block_lines p (render (f # fs)) = p @ k @ ''='' @ escape_value v @ [newline] @ block_lines p (render fs)"
    using ne k by (subst block_lines.simps) (simp add: cut plain_key_def)
  then show ?case using Cons by (simp add: f field_line_def)
qed

text \<open>What the parser accepts, whatever the text: keys are not empty, hold no separator and do not repeat, and
  there are no more fields than the bounds allow.\<close>

definition well_formed_fields :: "field list \<Rightarrow> bool" where
  "well_formed_fields fs \<longleftrightarrow> (\<forall>f \<in> set fs. plain_key (fst f)) \<and> distinct (map fst fs) \<and> length fs \<le> kMaxFields"

lemma cut_line_plain: "cut_line s = Some (l, r) \<Longrightarrow> newline \<notin> set l"
  by (auto simp: cut_line_def dest: set_takeWhileD split: if_splits)

lemma parse_field_key: "parse_field l = Some (k, v) \<Longrightarrow> newline \<notin> set l \<Longrightarrow> plain_key k"
proof -
  assume parsed: "parse_field l = Some (k, v)" and plain: "newline \<notin> set l"
  then have "CHR ''='' \<in> set l" "hd l \<noteq> CHR ''=''" and k: "k = takeWhile (\<lambda>c. c \<noteq> CHR ''='') l"
    by (auto simp: parse_field_def split: if_splits option.splits)
  then have "k \<noteq> []" by (cases l) auto
  moreover have "c \<noteq> CHR ''='' \<and> c \<noteq> newline" if "c \<in> set k" for c
    using that k plain by (auto dest: set_takeWhileD)
  ultimately show ?thesis unfolding plain_key_def by blast
qed

lemma parse_lines_fields: "parse_lines s fs = Inr gs \<Longrightarrow> well_formed_fields fs \<Longrightarrow> well_formed_fields gs"
proof (induction s fs rule: parse_lines.induct)
  case (1 s fs)
  show ?case
  proof (cases "s = []")
    case True
    then show ?thesis using 1 by (simp add: parse_lines.simps)
  next
    case False
    then obtain line rest where cut: "cut_line s = Some (line, rest)"
      using 1(3) by (auto simp: parse_lines.simps split: option.splits)
    note step = 1(3) [unfolded parse_lines.simps [of s fs] if_not_P [OF False] cut option.case prod.case]
    show ?thesis
    proof (cases "line = []")
      case True
      then show ?thesis using 1(1) [OF False cut refl True] step 1(4) by simp
    next
      case line: False
      then obtain k v where f: "parse_field line = Some (k, v)" and room: "\<not> length fs \<ge> kMaxFields" and fresh: "k \<notin> fst ` set fs"
        using step by (auto split: if_splits option.splits)
      have "plain_key k" using parse_field_key [OF f] cut_line_plain [OF cut] .
      then have "well_formed_fields (fs @ [(k, v)])" using 1(4) room fresh by (auto simp: well_formed_fields_def)
      then show ?thesis using 1(2) [OF False cut refl line room f refl fresh] step line room f fresh by simp
    qed
  qed
qed

lemma reader_parse_well_formed:
  assumes "reader_parse s lim = Inr rd"
  shows "well_formed_fields (rd_fields rd) \<and> length (rd_fields rd) \<le> max_journal_records lim \<and>
    rd_consumed rd = replicate (length (rd_fields rd)) False \<and> rd_prefixes rd = [] \<and> plain_key (rd_token rd)"
proof -
  obtain token rest fs where cut: "cut_line s = Some (token, rest)" and token: "token \<noteq> []" "CHR ''='' \<notin> set token"
    and fs: "parse_lines rest [] = Inr fs" "length fs \<le> max_journal_records lim" and rd: "rd = new_reader token fs"
    using assms by (auto simp: reader_parse_def split: if_splits option.splits sum.splits)
  have "well_formed_fields fs" using parse_lines_fields [OF fs(1)] by (simp add: well_formed_fields_def)
  then show ?thesis using token cut_line_plain [OF cut] fs(2) by (simp add: rd new_reader_def plain_key_def)
qed

end
