(* ===== verification/Readers.thy ===== *)
theory Readers
  imports TextCodec
begin

text \<open>
  Laws of the strict reader. A decoder is a chain of typed reads; the rules here say what a chain
  returns on given fields and which keys it asks for, so that a decoder is verified by applying
  them in the order of its code. Then: the fields of vectors, whose keys carry an index.
\<close>

section \<open>What a decoder reads\<close>

text \<open>
  A decoder sees the fields, a prefix, and the marks. \<open>reads fs p d r K\<close>: on the fields \<open>fs\<close> under the prefix
  \<open>p\<close>, whatever is already marked, \<open>d\<close> fails if \<open>r\<close> is none; otherwise it returns the value, changes nothing
  but marks, keeps every mark and marks at least the keys in \<open>K\<close>.
\<close>

definition reads :: "field list \<Rightarrow> string \<Rightarrow> 'a reader \<Rightarrow> 'a option \<Rightarrow> string set \<Rightarrow> bool" where
  "reads fs p d r K \<longleftrightarrow>
     (\<forall>rd. rd_fields rd = fs \<longrightarrow> concat (rd_prefixes rd) = p \<longrightarrow> length (rd_consumed rd) = length fs \<longrightarrow>
        (case r of
           None \<Rightarrow> \<exists>e. d rd = Inl e
         | Some x \<Rightarrow> \<exists>cs. d rd = Inr (x, rd\<lparr>rd_consumed := cs\<rparr>) \<and> length cs = length fs \<and>
             (\<forall>i < length fs. rd_consumed rd ! i \<or> fst (fs ! i) \<in> K \<longrightarrow> cs ! i)))"

named_theorems reads_rules

lemma readsD:
  assumes "reads fs p d (Some x) K" "rd_fields rd = fs" "concat (rd_prefixes rd) = p" "length (rd_consumed rd) = length fs"
  obtains cs where "d rd = Inr (x, rd\<lparr>rd_consumed := cs\<rparr>)" "length cs = length fs"
    "\<And>i. i < length fs \<Longrightarrow> rd_consumed rd ! i \<or> fst (fs ! i) \<in> K \<Longrightarrow> cs ! i"
  using assms unfolding reads_def by fastforce

lemma readsD_None:
  assumes "reads fs p d None K" "rd_fields rd = fs" "concat (rd_prefixes rd) = p" "length (rd_consumed rd) = length fs"
  obtains e where "d rd = Inl e"
  using assms unfolding reads_def by auto

lemma reads_conseq:
  assumes "reads fs p d r' K'" "r' = r" "r \<noteq> None \<Longrightarrow> K \<subseteq> K'"
  shows "reads fs p d r K"
  using assms unfolding reads_def by (fastforce split: option.splits)

lemma take_field_spec:
  assumes "distinct (map fst fs)" "length cs = length fs"
  shows "case map_of fs k of
      None \<Rightarrow> take_field k fs cs = None
    | Some v \<Rightarrow> \<exists>cs'. take_field k fs cs = Some (v, cs') \<and> length cs' = length fs \<and>
        (\<forall>i < length fs. cs ! i \<or> fst (fs ! i) = k \<longrightarrow> cs' ! i)"
  using assms
proof (induction k fs cs rule: take_field.induct)
  case (1 key k v fs c cs)
  show ?case
  proof (cases "k = key")
    case True
    have "fst (fs ! j) \<noteq> key" if "j < length fs" for j
      using nth_mem [OF that] 1(2) True by force
    then show ?thesis using True 1(3) by (auto simp: nth_Cons split: nat.splits)
  next
    case False
    note IH = 1(1) [OF False]
    show ?thesis
    proof (cases "map_of fs key")
      case None
      then show ?thesis using IH 1(2,3) False by simp
    next
      case (Some x)
      then obtain cs' where "take_field key fs cs = Some (x, cs')" "length cs' = length fs"
          "\<forall>i < length fs. cs ! i \<or> fst (fs ! i) = key \<longrightarrow> cs' ! i"
        using IH 1(2,3) by auto
      then show ?thesis using False Some by (auto simp: nth_Cons split: nat.splits)
    qed
  qed
qed auto

lemma reads_string [reads_rules]:
  assumes "distinct (map fst fs)"
  shows "reads fs p (require_string k) (map_of fs (p @ k)) {p @ k}"
proof -
  have "case map_of fs (p @ k) of
      None \<Rightarrow> \<exists>e. require_string k rd = Inl e
    | Some x \<Rightarrow> \<exists>cs. require_string k rd = Inr (x, rd\<lparr>rd_consumed := cs\<rparr>) \<and> length cs = length fs \<and>
        (\<forall>i < length fs. rd_consumed rd ! i \<or> fst (fs ! i) \<in> {p @ k} \<longrightarrow> cs ! i)"
    if "rd_fields rd = fs" "concat (rd_prefixes rd) = p" "length (rd_consumed rd) = length fs" for rd
    using take_field_spec [OF assms that(3), of "p @ k"] that
    by (auto simp: require_string_def compose_key_def compose_prefixes_def split: option.splits)
  then show ?thesis unfolding reads_def by blast
qed

lemma reads_done [reads_rules]: "reads fs p (read_done x) (Some x) {}"
proof -
  have "\<exists>cs. rd = rd\<lparr>rd_consumed := cs\<rparr> \<and> length cs = length (rd_consumed rd) \<and>
      (\<forall>i. rd_consumed rd ! i \<longrightarrow> cs ! i)" for rd :: TextReader
    by (rule exI [of _ "rd_consumed rd"]) simp
  then show ?thesis by (fastforce simp: reads_def read_done_def)
qed

lemma reads_fail [reads_rules]: "reads fs p (read_fail e) None {}"
  by (simp add: reads_def read_fail_def)

lemma reads_then [reads_rules]:
  assumes "reads fs p d r1 K1" "\<And>x. r1 = Some x \<Longrightarrow> reads fs p (f x) (r2 x) (K2 x)"
  shows "reads fs p (read_then d f) (Option.bind r1 r2) (K1 \<union> (case r1 of None \<Rightarrow> {} | Some x \<Rightarrow> K2 x))"
proof (cases r1)
  case None
  then show ?thesis using assms(1) by (fastforce simp: reads_def read_then_def)
next
  case (Some x)
  have first: "reads fs p d (Some x) K1" and second: "reads fs p (f x) (r2 x) (K2 x)" using assms Some by auto
  show ?thesis
    unfolding reads_def
  proof (intro allI impI)
    fix rd :: TextReader
    assume rd: "rd_fields rd = fs" "concat (rd_prefixes rd) = p" "length (rd_consumed rd) = length fs"
    obtain cs where cs: "d rd = Inr (x, rd\<lparr>rd_consumed := cs\<rparr>)" "length cs = length fs"
        "\<And>i. i < length fs \<Longrightarrow> rd_consumed rd ! i \<or> fst (fs ! i) \<in> K1 \<Longrightarrow> cs ! i"
      by (rule readsD [OF first rd]) blast
    let ?rd = "rd\<lparr>rd_consumed := cs\<rparr>"
    have rd': "rd_fields ?rd = fs" "concat (rd_prefixes ?rd) = p" "length (rd_consumed ?rd) = length fs"
      using rd cs by simp_all
    show "case Option.bind r1 r2 of
        None \<Rightarrow> \<exists>e. read_then d f rd = Inl e
      | Some y \<Rightarrow> \<exists>cs. read_then d f rd = Inr (y, rd\<lparr>rd_consumed := cs\<rparr>) \<and> length cs = length fs \<and>
          (\<forall>i < length fs. rd_consumed rd ! i \<or>
             fst (fs ! i) \<in> K1 \<union> (case r1 of None \<Rightarrow> {} | Some x \<Rightarrow> K2 x) \<longrightarrow> cs ! i)"
    proof (cases "r2 x")
      case None
      then obtain e where "f x ?rd = Inl e" using readsD_None [OF second [unfolded None] rd'] by blast
      then show ?thesis using None Some cs(1) by (simp add: read_then_def)
    next
      case y: (Some y)
      obtain cs' where cs': "f x ?rd = Inr (y, ?rd\<lparr>rd_consumed := cs'\<rparr>)" "length cs' = length fs"
          "\<And>i. i < length fs \<Longrightarrow> cs ! i \<or> fst (fs ! i) \<in> K2 x \<Longrightarrow> cs' ! i"
        using readsD [OF second [unfolded y] rd'] by auto
      then show ?thesis using Some y cs by (auto simp: read_then_def intro: exI [of _ cs'])
    qed
  qed
qed

lemma reads_case_option [reads_rules]:
  assumes "x = None \<Longrightarrow> reads fs p d r1 K1" "\<And>y. x = Some y \<Longrightarrow> reads fs p (f y) (r2 y) (K2 y)"
  shows "reads fs p (case x of None \<Rightarrow> d | Some y \<Rightarrow> f y) (case x of None \<Rightarrow> r1 | Some y \<Rightarrow> r2 y)
    (case x of None \<Rightarrow> K1 | Some y \<Rightarrow> K2 y)"
  using assms by (cases x) auto

lemma reads_case_sum [reads_rules]:
  assumes "\<And>e. x = Inl e \<Longrightarrow> reads fs p (d e) (r1 e) (K1 e)" "\<And>y. x = Inr y \<Longrightarrow> reads fs p (f y) (r2 y) (K2 y)"
  shows "reads fs p (case x of Inl e \<Rightarrow> d e | Inr y \<Rightarrow> f y) (case x of Inl e \<Rightarrow> r1 e | Inr y \<Rightarrow> r2 y)
    (case x of Inl e \<Rightarrow> K1 e | Inr y \<Rightarrow> K2 y)"
  using assms by (cases x) auto

lemma reads_if [reads_rules]:
  assumes "b \<Longrightarrow> reads fs p d r1 K1" "\<not> b \<Longrightarrow> reads fs p f r2 K2"
  shows "reads fs p (if b then d else f) (if b then r1 else r2) (if b then K1 else K2)"
  using assms by simp

lemma reads_parsed [reads_rules]:
  assumes "distinct (map fst fs)"
  shows "reads fs p (require_parsed f k) (Option.bind (map_of fs (p @ k)) f) {p @ k}"
  unfolding require_parsed_def
  by (rule reads_conseq, (rule reads_rules assms)+) (auto split: option.splits bind_splits)

lemma reads_u64 [reads_rules]:
  assumes "distinct (map fst fs)"
  shows "reads fs p (require_u64 k) (Option.bind (map_of fs (p @ k)) parse_u64) {p @ k}"
  unfolding require_u64_def by (rule reads_parsed [OF assms])

definition parse_flag :: "string \<Rightarrow> bool option" where
  "parse_flag s = (case parse_u64 s of None \<Rightarrow> None | Some v \<Rightarrow> if v > 1 then None else Some (v = 1))"

lemma reads_bool [reads_rules]:
  assumes "distinct (map fst fs)"
  shows "reads fs p (require_bool k) (Option.bind (map_of fs (p @ k)) parse_flag) {p @ k}"
  unfolding require_bool_def
  by (rule reads_conseq, (rule reads_rules assms)+)
    (auto simp: parse_flag_def split: option.splits bind_splits)

lemma reads_group_count [reads_rules]:
  assumes "distinct (map fst fs)"
  shows "reads fs p (group_count k) (Option.bind (map_of fs (p @ k @ ''.count'')) parse_u64) {p @ k @ ''.count''}"
  unfolding group_count_def using reads_u64 [OF assms, of p "k @ ''.count''"] by simp

text \<open>An optional field that is there is read; one that is missing marks nothing.\<close>

lemma reads_optional [reads_rules]:
  assumes "distinct (map fst fs)"
  shows "reads fs p (optional_string k fallback) (Some (case map_of fs (p @ k) of None \<Rightarrow> fallback | Some v \<Rightarrow> v))
    (case map_of fs (p @ k) of None \<Rightarrow> {} | Some v \<Rightarrow> {p @ k})"
proof (cases "map_of fs (p @ k)")
  case None
  then have "p @ k \<notin> fst ` set fs" by (simp add: map_of_eq_None_iff)
  then have "optional_string k fallback rd = read_done fallback rd"
    if "rd_fields rd = fs" "concat (rd_prefixes rd) = p" for rd
    using that by (simp add: optional_string_def has_field_def compose_key_def compose_prefixes_def read_done_def)
  then show ?thesis using reads_done [of fs p fallback] None by (simp add: reads_def)
next
  case (Some v)
  then have "p @ k \<in> fst ` set fs" by (force dest: map_of_SomeD)
  then have "optional_string k fallback rd = require_string k rd"
    if "rd_fields rd = fs" "concat (rd_prefixes rd) = p" for rd
    using that by (simp add: optional_string_def has_field_def compose_key_def compose_prefixes_def)
  then show ?thesis using reads_string [OF assms, of p k] Some by (simp add: reads_def)
qed

lemma reads_range [reads_rules]:
  assumes "\<And>i. i \<in> set is \<Longrightarrow> reads fs p (d i) (r i) (K i)"
  shows "reads fs p (read_range is d) (those (map r is)) (\<Union>i \<in> set is. K i)"
  using assms
proof (induction "is")
  case Nil
  then show ?case using reads_done [of fs p "[]"] by simp
next
  case (Cons i "is")
  show ?case
    unfolding read_range.simps
    by (rule reads_conseq, rule reads_then [OF _ reads_then], (rule Cons reads_done | simp)+)
      (auto split: option.splits bind_splits)
qed

lemma reads_loop [reads_rules]:
  assumes "\<And>i. i < unat n \<Longrightarrow> reads fs p (d i) (r i) (K i)"
  shows "reads fs p (read_loop n d) (those (map r [0..<unat n])) (\<Union>i < unat n. K i)"
  using reads_range [of "[0..<unat n]" fs p d r K] assms by (simp add: read_loop_def atLeast0LessThan)

lemma reads_scoped [reads_rules]:
  assumes "reads fs (p @ prefix) d r K"
  shows "reads fs p (read_scoped prefix d) r K"
  unfolding reads_def
proof (intro allI impI)
  fix rd :: TextReader
  assume rd: "rd_fields rd = fs" "concat (rd_prefixes rd) = p" "length (rd_consumed rd) = length fs"
  let ?rd = "push_prefix_scope prefix rd"
  have rd': "rd_fields ?rd = fs" "concat (rd_prefixes ?rd) = p @ prefix" "length (rd_consumed ?rd) = length fs"
    using rd by (simp_all add: push_prefix_scope_def)
  show "case r of
      None \<Rightarrow> \<exists>e. read_scoped prefix d rd = Inl e
    | Some x \<Rightarrow> \<exists>cs. read_scoped prefix d rd = Inr (x, rd\<lparr>rd_consumed := cs\<rparr>) \<and> length cs = length fs \<and>
        (\<forall>i < length fs. rd_consumed rd ! i \<or> fst (fs ! i) \<in> K \<longrightarrow> cs ! i)"
  proof (cases r)
    case None
    then show ?thesis using readsD_None [OF assms [unfolded None] rd'] by (fastforce simp: read_scoped_def)
  next
    case (Some x)
    obtain cs where "d ?rd = Inr (x, ?rd\<lparr>rd_consumed := cs\<rparr>)" "length cs = length fs"
        "\<And>i. i < length fs \<Longrightarrow> rd_consumed ?rd ! i \<or> fst (fs ! i) \<in> K \<Longrightarrow> cs ! i"
      by (rule readsD [OF assms [unfolded Some] rd']) blast
    then show ?thesis
      using Some by (auto simp: read_scoped_def push_prefix_scope_def pop_prefix_scope_def intro!: exI [of _ cs])
  qed
qed

text \<open>A decoder that finishes on a reader of its own: it must ask for every field.\<close>

definition read_whole :: "'a reader \<Rightarrow> TextReader \<Rightarrow> 'a result" where
  "read_whole d rd =
     (case d rd of
        Inl e \<Rightarrow> Inl e
      | Inr (x, rd') \<Rightarrow> if reader_finish rd' = Ok then Inr x else Inl (reader_finish rd'))"

lemma read_whole_reads:
  assumes "reads fs [] d r K" "r \<noteq> None \<Longrightarrow> fst ` set fs \<subseteq> K"
  shows "case r of None \<Rightarrow> \<exists>e. read_whole d (new_reader t fs) = Inl e | Some x \<Rightarrow> read_whole d (new_reader t fs) = Inr x"
proof -
  let ?rd = "new_reader t fs"
  have rd: "rd_fields ?rd = fs" "concat (rd_prefixes ?rd) = []" "length (rd_consumed ?rd) = length fs"
    by (simp_all add: new_reader_def)
  show ?thesis
  proof (cases r)
    case None
    then show ?thesis using readsD_None [OF assms(1) [unfolded None] rd] by (fastforce simp: read_whole_def)
  next
    case (Some x)
    obtain cs where cs: "d ?rd = Inr (x, ?rd\<lparr>rd_consumed := cs\<rparr>)" "length cs = length fs"
        "\<And>i. i < length fs \<Longrightarrow> rd_consumed ?rd ! i \<or> fst (fs ! i) \<in> K \<Longrightarrow> cs ! i"
      by (rule readsD [OF assms(1) [unfolded Some] rd]) blast
    have "cs ! i" if "i < length fs" for i
      using cs(3) [OF that] nth_mem [OF that] assms(2) Some by blast
    then have "\<forall>c \<in> set cs. c" using cs(2) by (auto simp: in_set_conv_nth)
    then have "reader_finish (?rd\<lparr>rd_consumed := cs\<rparr>) = Ok"
      using cs(2) by (auto simp: reader_finish_def rd)
    then show ?thesis using Some cs(1) by (simp add: read_whole_def)
  qed
qed

section \<open>Groups\<close>

lemma reads_group [reads_rules]:
  fixes p pre :: string and i :: nat and fs :: "field list"
  defines "P \<equiv> (p @ pre) @ ''.'' @ dec_digits i @ ''.''"
  defines "sub \<equiv> map (apfst (drop (length P))) (filter (\<lambda>f. in_group P (fst f)) fs)"
  shows "reads fs p (read_group pre i) (if sub = [] then None else Some (new_reader pre sub)) {k. in_group P k}"
  unfolding reads_def
proof (intro allI impI)
  fix rd :: TextReader
  assume rd: "rd_fields rd = fs" "concat (rd_prefixes rd) = p" "length (rd_consumed rd) = length fs"
  let ?cs = "map2 (\<lambda>f c. c \<or> in_group P (fst f)) fs (rd_consumed rd)"
  have "read_group pre i rd = (if sub = [] then Inl InvalidArgument else Inr (new_reader pre sub, rd\<lparr>rd_consumed := ?cs\<rparr>))"
    using rd by (simp add: read_group_def Let_def compose_key_def compose_prefixes_def sub_def P_def)
  then show "case if sub = [] then None else Some (new_reader pre sub) of
      None \<Rightarrow> \<exists>e. read_group pre i rd = Inl e
    | Some x \<Rightarrow> \<exists>cs. read_group pre i rd = Inr (x, rd\<lparr>rd_consumed := cs\<rparr>) \<and> length cs = length fs \<and>
        (\<forall>i < length fs. rd_consumed rd ! i \<or> fst (fs ! i) \<in> {k. in_group P k} \<longrightarrow> cs ! i)"
    using rd(3) by (auto intro!: exI [of _ ?cs])
qed

text \<open>A nested decoder on the reader of a group.\<close>

definition read_sub :: "'a reader \<Rightarrow> TextReader \<Rightarrow> 'a reader" where
  "read_sub d sub rd = (case read_whole d sub of Inl e \<Rightarrow> Inl e | Inr x \<Rightarrow> Inr (x, rd))"

lemma reads_sub [reads_rules]:
  "reads fs p (read_sub d sub) (case read_whole d sub of Inl e \<Rightarrow> None | Inr x \<Rightarrow> Some x) {}"
proof (cases "read_whole d sub")
  case (Inl e)
  then show ?thesis by (simp add: reads_def read_sub_def)
next
  case (Inr x)
  then show ?thesis using reads_done [of fs p x] by (simp add: reads_def read_sub_def read_done_def)
qed

section \<open>Vectors\<close>

text \<open>The fields of a vector: those of each element under \<open>prefix.index\<close>. The keys of an element are empty
  or begin with a dot.\<close>

definition indexed_fields :: "string \<Rightarrow> ('a \<Rightarrow> field list) \<Rightarrow> 'a list \<Rightarrow> field list" where
  "indexed_fields pre f xs =
     concat (map (\<lambda>(i, x). prefixed (pre @ ''.'' @ dec_digits i) (f x)) (enumerate 0 xs))"

definition dotted :: "('a \<Rightarrow> field list) \<Rightarrow> bool" where
  "dotted f \<longleftrightarrow> (\<forall>x k. k \<in> fst ` set (f x) \<longrightarrow> k = [] \<or> hd k = CHR ''.'')"

definition head_of :: "string \<Rightarrow> string" where
  "head_of k = takeWhile (\<lambda>c. c \<noteq> CHR ''.'') k"

lemma dec_digits_no_dot: "CHR ''.'' \<notin> set (dec_digits n)"
  using dec_digits_chars by fastforce

lemma fst_prefixed: "fst ` set (prefixed p fs) = append p ` (fst ` set fs)"
  by (force simp: prefixed_def)

lemma in_indexed:
  "(k, v) \<in> set (indexed_fields pre f xs) \<longleftrightarrow>
     (\<exists>i l. i < length xs \<and> (l, v) \<in> set (f (xs ! i)) \<and> k = pre @ ''.'' @ dec_digits i @ l)"
  by (force simp: indexed_fields_def prefixed_def in_set_enumerate_eq)

lemma keys_indexed:
  "k \<in> fst ` set (indexed_fields pre f xs) \<longleftrightarrow>
     (\<exists>i l. i < length xs \<and> l \<in> fst ` set (f (xs ! i)) \<and> k = pre @ ''.'' @ dec_digits i @ l)"
proof -
  have "k \<in> fst ` set (indexed_fields pre f xs) \<longleftrightarrow> (\<exists>v. (k, v) \<in> set (indexed_fields pre f xs))" by force
  then show ?thesis unfolding in_indexed by force
qed

lemma head_indexed:
  assumes "k \<in> fst ` set (indexed_fields pre f xs)" "CHR ''.'' \<notin> set pre"
  shows "head_of k = pre"
  using assms unfolding keys_indexed by (auto simp: head_of_def cut_at)

lemma index_cut:
  assumes "dec_digits i @ k = dec_digits j @ l" "k = [] \<or> hd k = CHR ''.''" "l = [] \<or> hd l = CHR ''.''"
  shows "i = j \<and> k = l"
proof -
  have cut: "takeWhile (\<lambda>c. c \<noteq> CHR ''.'') (dec_digits n @ m) = dec_digits n" if "m = [] \<or> hd m = CHR ''.''" for n m
    using that dec_digits_no_dot [of n] cut_at [of "CHR ''.''" "dec_digits n"] by (cases m) auto
  have "dec_digits i = dec_digits j" using cut [OF assms(2), of i] cut [OF assms(3), of j] assms(1) by simp
  then show ?thesis using assms(1) by (simp add: dec_digits_inj)
qed

lemma distinct_indexed:
  assumes "dotted f" "\<And>x. x \<in> set xs \<Longrightarrow> distinct (map fst (f x))"
  shows "distinct (map fst (indexed_fields pre f xs))"
  using assms(2)
proof (induction xs rule: rev_induct)
  case Nil
  then show ?case by (simp add: indexed_fields_def)
next
  case (snoc x xs)
  have split: "indexed_fields pre f (xs @ [x]) =
      indexed_fields pre f xs @ prefixed (pre @ ''.'' @ dec_digits (length xs)) (f x)"
    by (simp add: indexed_fields_def enumerate_append_eq)
  have "distinct (map fst (prefixed (pre @ ''.'' @ dec_digits (length xs)) (f x)))"
    using snoc.prems [of x] by (simp add: prefixed_def comp_def) (simp add: distinct_map inj_on_def)
  moreover have "k \<notin> fst ` set (prefixed (pre @ ''.'' @ dec_digits (length xs)) (f x))"
    if key: "k \<in> fst ` set (indexed_fields pre f xs)" for k
  proof
    assume "k \<in> fst ` set (prefixed (pre @ ''.'' @ dec_digits (length xs)) (f x))"
    then obtain l where l: "l \<in> fst ` set (f x)" "k = pre @ ''.'' @ dec_digits (length xs) @ l"
      by (auto simp: fst_prefixed)
    obtain i m where m: "i < length xs" "m \<in> fst ` set (f (xs ! i))" "k = pre @ ''.'' @ dec_digits i @ m"
      using key unfolding keys_indexed by blast
    have "dec_digits i @ m = dec_digits (length xs) @ l" using l(2) m(3) by simp
    moreover have "m = [] \<or> hd m = CHR ''.''" "l = [] \<or> hd l = CHR ''.''"
      using assms(1) l(1) m(2) unfolding dotted_def by blast+
    ultimately have "i = length xs" using index_cut by blast
    then show False using m(1) by simp
  qed
  ultimately show ?case using snoc by (auto simp: split)
qed

lemma map_of_indexed_other:
  assumes "head_of k \<noteq> pre" "CHR ''.'' \<notin> set pre"
  shows "map_of (indexed_fields pre f xs) k = None"
  using head_indexed [OF _ assms(2)] assms(1) by (auto simp: map_of_eq_None_iff)

lemma lookup_indexed:
  assumes "distinct (map fst fs)" "set (indexed_fields pre f xs) \<subseteq> set fs" "i < length xs" "(k, v) \<in> set (f (xs ! i))"
  shows "map_of fs (pre @ ''.'' @ dec_digits i @ k) = Some v"
proof -
  have "(pre @ ''.'' @ dec_digits i @ k, v) \<in> set (indexed_fields pre f xs)"
    using assms(3,4) unfolding in_indexed by blast
  then show ?thesis using assms(1,2) by (intro map_of_is_SomeI) auto
qed

text \<open>The loop over a vector whose fields are among those read.\<close>

lemma reads_vector:
  assumes "unat n = length xs" "\<And>i. i < length xs \<Longrightarrow> reads fs p (d i) (h (xs ! i)) (K i)"
  shows "reads fs p (read_loop n d) (those (map h xs)) (\<Union>i < length xs. K i)"
proof -
  have "those (map (\<lambda>i. h (xs ! i)) [0..<length xs]) = those (map h xs)"
    by (metis (no_types, lifting) map_map map_nth comp_apply map_eq_conv)
  then show ?thesis using reads_loop [of n fs p d "\<lambda>i. h (xs ! i)" K] assms by simp
qed

lemma those_if: "those (map (\<lambda>x. if ok x then Some (g x) else None) xs) = (if list_all ok xs then Some (map g xs) else None)"
  by (induction xs) auto

lemma those_Some [simp]: "those (map (\<lambda>x. Some (g x)) xs) = Some (map g xs)"
  by (induction xs) auto

lemma digits_not_letter [simp]:
  "dec_digits i @ ys = CHR ''c'' # xs \<longleftrightarrow> False" "CHR ''c'' # xs = dec_digits i @ ys \<longleftrightarrow> False"
  using dec_digits_chars [of "hd (dec_digits i)" i] dec_digits_nonempty [of i]
  by (cases "dec_digits i"; auto)+

end
