(* ===== verification/StateCodec.thy ===== *)
theory StateCodec
  imports State Readers
begin

text \<open>
  The records of the store as fields of the text format (\<open>state_codec.cpp\<close>): per record the fields its
  encoder writes, in order, and the decoder that reads them. Messages are no part of the records of
  the model; where an encoder writes one, its text is an argument, and the decoder reads and drops it.

  \<open>Reload\<close> proves that decoding an encoded record is the \<open>reload_\<close> function of \<open>State\<close>.
\<close>

section \<open>Values\<close>

definition read_digest :: "string \<Rightarrow> Digest128 reader" where
  "read_digest key = require_parsed digest_parse key"

definition read_resource :: "string \<Rightarrow> ResourceRef reader" where
  "read_resource key = require_parsed ref_parse key"

definition read_id :: "string \<Rightarrow> u64 reader" where
  "read_id key = require_parsed parse_hex_u64 key"

definition persisted_refusals :: "RefusalCode list" where
  "persisted_refusals = [RNone, RInvalidArgument, UnknownResource, RNameInvalid, RIdentityCollision,
     UnsupportedCapability, UnsupportedEvidenceKind, RMissingEvidence, RStaleEvidence,
     RConflictingEvidence, InvalidEvidence, RStaleGeneration, RStaleEpoch, RStaleIncarnation,
     StaleReservation, RReservationExpired, RReservationNotHeld, ReservationConflict,
     RConflictingClaim, DuplicateClaim, RIllegalTransition, ObjectRetired, ObjectActive,
     ObjectNotActive, RNotAuthoritative, RAttemptConflict, PlannerUnavailable,
     RouteUnresolved, RCapacityExceeded, RInvariantViolation, PersistenceFailure]"

definition refusal_from_string :: "string \<Rightarrow> RefusalCode option" where
  "refusal_from_string = token_search refusal_to_string persisted_refusals"

definition read_refusal :: "string \<Rightarrow> RefusalCode reader" where
  "read_refusal key = require_parsed refusal_from_string key"

definition outcome_from_string :: "string \<Rightarrow> OutcomeCode option" where
  "outcome_from_string = token_search outcome_to_string [Applied, IdempotentReplay, AlreadySatisfied, Refused]"

definition read_outcome :: "string \<Rightarrow> OutcomeCode reader" where
  "read_outcome key = require_parsed outcome_from_string key"

definition read_state :: "string \<Rightarrow> ConnectivityState reader" where
  "read_state key = require_parsed connectivity_state_from_string key"

definition sharing_from_string :: "string \<Rightarrow> SharingMode option" where
  "sharing_from_string = token_search sharing_to_string [Exclusive, Channelized]"

definition read_sharing :: "string \<Rightarrow> SharingMode reader" where
  "read_sharing key = require_parsed sharing_from_string key"

fun fence_reason_to_string :: "FenceReason \<Rightarrow> string" where
  "fence_reason_to_string ExplicitOperatorFence = ''explicit_operator_fence''"
| "fence_reason_to_string SupersededByNewerEpoch = ''superseded_by_newer_epoch''"
| "fence_reason_to_string SupersededByNewerIncarnation = ''superseded_by_newer_incarnation''"
| "fence_reason_to_string StoreTakeover = ''store_takeover''"
| "fence_reason_to_string AuthorityReleased = ''authority_released''"
| "fence_reason_to_string ScopeRevoked = ''scope_revoked''"

definition fence_reason_from_string :: "string \<Rightarrow> FenceReason option" where
  "fence_reason_from_string = token_search fence_reason_to_string
     [ExplicitOperatorFence, SupersededByNewerEpoch, SupersededByNewerIncarnation, StoreTakeover,
      AuthorityReleased, ScopeRevoked]"

definition flag_text :: "bool \<Rightarrow> string" where "flag_text b = (if b then ''1'' else ''0'')"

definition count_text :: "'a list \<Rightarrow> string" where "count_text xs = to_decimal (of_nat (length xs))"

section \<open>Incarnations and scopes\<close>

definition write_incarnation :: "string \<Rightarrow> Incarnation \<Rightarrow> field list" where
  "write_incarnation prefix i =
     [(prefix @ ''boot'', to_decimal (boot_sequence i)), (prefix @ ''instance'', digest_to_string (inc_instance i)),
      (prefix @ ''host'', inc_host_label i)]"

definition read_incarnation :: "string \<Rightarrow> Incarnation reader" where
  "read_incarnation prefix =
     read_then (require_u64 (prefix @ ''boot'')) (\<lambda>boot.
     read_then (read_digest (prefix @ ''instance'')) (\<lambda>inst.
     read_then (optional_string (prefix @ ''host'') []) (\<lambda>host.
     read_done \<lparr>boot_sequence = boot, inc_instance = inst, inc_host_label = host\<rparr>)))"

definition write_scope :: "string \<Rightarrow> AuthorityScope \<Rightarrow> field list" where
  "write_scope prefix s =
     (case scope_kind s of
        ScopeNone \<Rightarrow> [(prefix @ ''kind'', ''none'')]
      | ScopeGlobal \<Rightarrow> [(prefix @ ''kind'', ''global'')]
      | ScopeSite \<Rightarrow> [(prefix @ ''kind'', ''site''), (prefix @ ''site'', hex_encode (scope_site s))])"

text \<open>A site that accompanies another kind of scope is asked for and dropped.\<close>

definition read_scope :: "string \<Rightarrow> AuthorityScope reader" where
  "read_scope prefix =
     read_then (require_string (prefix @ ''kind'')) (\<lambda>kind.
       if kind = ''site'' then
         read_then (read_id (prefix @ ''site'')) (\<lambda>site. read_done (AuthorityScope ScopeSite site))
       else if kind = ''none'' \<or> kind = ''global'' then
         read_then (optional_string (prefix @ ''site'') []) (\<lambda>ignored.
           read_done (AuthorityScope (if kind = ''none'' then ScopeNone else ScopeGlobal) 0))
       else read_fail InvalidArgument)"

section \<open>Resources\<close>

definition encode_resource :: "ResourceState \<Rightarrow> field list" where
  "encode_resource s =
     [(''resource'', ref_to_string (rs_resource s)), (''name'', rs_name s), (''sharing'', sharing_to_string (rs_sharing s)),
      (''generation'', to_decimal (rs_generation s)), (''registered_tick'', to_decimal (rs_registered_tick s)),
      (''role'', rs_role s), (''region'', rs_region s), (''description'', rs_description s), (''band'', rs_band s),
      (''channel_index'', to_decimal (ucast (rs_channel_index s))),
      (''nominal_frequency_ghz'', to_decimal (rs_nominal_frequency_ghz s)),
      (''declared_length_metres'', to_decimal (rs_declared_length_metres s)),
      (''site'', hex_encode (rs_site s)), (''node'', hex_encode (rs_node s)),
      (''endpoint_a'', hex_encode (rs_endpoint_a s)), (''endpoint_b'', hex_encode (rs_endpoint_b s)),
      (''ingress'', hex_encode (rs_ingress s)), (''egress'', hex_encode (rs_egress s)),
      (''related.count'', count_text (rs_related s))] @
     indexed_fields ''related'' (\<lambda>r. [([], ref_to_string r)]) (rs_related s) @
     [(''attributes.count'', count_text (rs_attributes s))] @
     indexed_fields ''attributes'' (\<lambda>a. [([], a)]) (rs_attributes s) @
     [(''spans.count'', count_text (rs_spans s))] @
     indexed_fields ''spans'' (\<lambda>i. [([], hex_encode i)]) (rs_spans s) @
     [(''endpoints.count'', count_text (rs_endpoints s))] @
     indexed_fields ''endpoints'' (\<lambda>i. [([], hex_encode i)]) (rs_endpoints s)"

definition decode_resource :: "ResourceState reader" where
  "decode_resource =
     read_then (read_resource ''resource'') (\<lambda>resource.
     read_then (require_string ''name'') (\<lambda>name.
     read_then (read_sharing ''sharing'') (\<lambda>sharing.
     read_then (require_u64 ''generation'') (\<lambda>generation.
     read_then (require_u64 ''registered_tick'') (\<lambda>registered.
     read_then (require_string ''role'') (\<lambda>role.
     read_then (require_string ''region'') (\<lambda>region.
     read_then (require_string ''description'') (\<lambda>description.
     read_then (require_string ''band'') (\<lambda>band.
     read_then (require_u64 ''channel_index'') (\<lambda>channel_index.
     read_then (require_u64 ''nominal_frequency_ghz'') (\<lambda>frequency.
     read_then (require_u64 ''declared_length_metres'') (\<lambda>len.
     read_then (read_id ''site'') (\<lambda>site.
     read_then (read_id ''node'') (\<lambda>node.
     read_then (read_id ''endpoint_a'') (\<lambda>endpoint_a.
     read_then (read_id ''endpoint_b'') (\<lambda>endpoint_b.
     read_then (read_id ''ingress'') (\<lambda>ingress.
     read_then (read_id ''egress'') (\<lambda>egress.
     read_then (group_count ''related'') (\<lambda>n1.
     read_then (read_loop n1 (\<lambda>i. read_resource (indexed_key ''related'' i []))) (\<lambda>related.
     read_then (group_count ''attributes'') (\<lambda>n2.
     read_then (read_loop n2 (\<lambda>i. require_string (indexed_key ''attributes'' i []))) (\<lambda>attributes.
     read_then (group_count ''spans'') (\<lambda>n3.
     read_then (read_loop n3 (\<lambda>i. read_id (indexed_key ''spans'' i []))) (\<lambda>spans.
     read_then (group_count ''endpoints'') (\<lambda>n4.
     read_then (read_loop n4 (\<lambda>i. read_id (indexed_key ''endpoints'' i []))) (\<lambda>endpoints.
     read_done \<lparr>rs_resource = resource, rs_name = name, rs_sharing = sharing, rs_generation = generation,
       rs_registered_tick = registered, rs_related = related, rs_attributes = attributes, rs_site = site,
       rs_node = node, rs_endpoint_a = endpoint_a, rs_endpoint_b = endpoint_b, rs_ingress = ingress,
       rs_egress = egress, rs_spans = spans, rs_endpoints = endpoints, rs_role = role, rs_region = region,
       rs_description = description, rs_band = band, rs_channel_index = ucast channel_index,
       rs_nominal_frequency_ghz = frequency, rs_declared_length_metres = len\<rparr>))))))))))))))))))))))))))"

section \<open>Tokens, paths and transitions\<close>

definition encode_authority :: "AuthorityToken \<Rightarrow> field list" where
  "encode_authority t =
     [(''grant'', hex_encode (tok_grant t)), (''holder'', hex_encode (tok_holder t)),
      (''epoch'', to_decimal (tok_epoch t)), (''generation'', to_decimal (tok_generation t))] @
     write_scope ''scope_'' (tok_scope t) @ write_incarnation ''incarnation_'' (tok_incarnation t)"

definition decode_authority :: "AuthorityToken reader" where
  "decode_authority =
     read_then (read_id ''grant'') (\<lambda>grant.
     read_then (read_id ''holder'') (\<lambda>holder.
     read_then (require_u64 ''epoch'') (\<lambda>epoch.
     read_then (require_u64 ''generation'') (\<lambda>generation.
     read_then (read_scope ''scope_'') (\<lambda>scope.
     read_then (read_incarnation ''incarnation_'') (\<lambda>inc.
     read_done \<lparr>tok_grant = grant, tok_holder = holder, tok_epoch = epoch, tok_incarnation = inc,
       tok_scope = scope, tok_generation = generation\<rparr>))))))"

definition segment_fields :: "PathSegment \<Rightarrow> field list" where
  "segment_fields s =
     [(''.role'', role_to_string (seg_role s)), (''.resource'', ref_to_string (seg_resource s)),
      (''.generation'', to_decimal (seg_generation s))]"

definition encode_path :: "PathDescriptor \<Rightarrow> field list" where
  "encode_path p =
     [(''seg.count'', count_text (pd_segments p))] @ indexed_fields ''seg'' segment_fields (pd_segments p) @
     [(''channel'', hex_encode (pd_channel p)), (''channel_generation'', to_decimal (pd_channel_generation p)),
      (''direction'', direction_to_string (pd_direction p)), (''route_origin'', pd_route_origin p)]"

definition decode_segment :: "nat \<Rightarrow> PathSegment reader" where
  "decode_segment i =
     read_then (require_parsed segment_role_from_string (indexed_key ''seg'' i ''role'')) (\<lambda>role.
     read_then (read_resource (indexed_key ''seg'' i ''resource'')) (\<lambda>resource.
     read_then (require_u64 (indexed_key ''seg'' i ''generation'')) (\<lambda>generation.
     read_done (PathSegment role resource generation))))"

definition decode_path :: "PathDescriptor reader" where
  "decode_path =
     read_then (group_count ''seg'') (\<lambda>n.
     read_then (read_loop n decode_segment) (\<lambda>segments.
     read_then (read_id ''channel'') (\<lambda>channel.
     read_then (require_u64 ''channel_generation'') (\<lambda>channel_generation.
     read_then (require_parsed direction_from_string ''direction'') (\<lambda>direction.
     read_then (require_string ''route_origin'') (\<lambda>origin.
     read_done \<lparr>pd_segments = segments, pd_channel = channel, pd_channel_generation = channel_generation,
       pd_direction = direction, pd_route_origin = origin\<rparr>))))))"

definition encode_canonical :: "CanonicalPath \<Rightarrow> field list" where
  "encode_canonical c =
     [(''identity'', digest_to_string (cp_identity c)), (''segment_count'', to_decimal (ucast (cp_segment_count c)))]"

text \<open>The text of a canonical path is not stored.\<close>

definition decode_canonical :: "CanonicalPath reader" where
  "decode_canonical =
     read_then (read_digest ''identity'') (\<lambda>identity.
     read_then (require_u64 ''segment_count'') (\<lambda>n.
     read_done \<lparr>cp_canonical_text = [], cp_identity = identity, cp_segment_count = ucast n\<rparr>))"

definition encode_transition :: "string \<Rightarrow> TransitionRecord \<Rightarrow> field list" where
  "encode_transition detail t =
     [(''from'', state_to_string (tr_from t)), (''to'', state_to_string (tr_to t)),
      (''outcome'', outcome_to_string (tr_outcome t)), (''refusal'', refusal_to_string (tr_refusal t)),
      (''attempt'', hex_encode (tr_attempt t)), (''generation'', to_decimal (tr_generation t)),
      (''epoch'', to_decimal (tr_epoch t)), (''tick'', to_decimal (tr_tick t)), (''detail'', detail)]"

definition decode_transition :: "TransitionRecord reader" where
  "decode_transition =
     read_then (read_state ''from'') (\<lambda>from.
     read_then (read_state ''to'') (\<lambda>to.
     read_then (read_outcome ''outcome'') (\<lambda>outcome.
     read_then (read_refusal ''refusal'') (\<lambda>refusal.
     read_then (read_id ''attempt'') (\<lambda>attempt.
     read_then (require_u64 ''generation'') (\<lambda>generation.
     read_then (require_u64 ''epoch'') (\<lambda>epoch.
     read_then (require_u64 ''tick'') (\<lambda>tick.
     read_then (require_string ''detail'') (\<lambda>detail.
     read_done \<lparr>tr_from = from, tr_to = to, tr_outcome = outcome, tr_refusal = refusal, tr_attempt = attempt,
       tr_generation = generation, tr_epoch = epoch, tr_tick = tick\<rparr>)))))))))"

section \<open>Evidence, reservations, fences, grants, attempts and the runtime\<close>

definition encode_evidence :: "EvidenceRecord \<Rightarrow> field list" where
  "encode_evidence r = (let p = ev_provenance r in
     [(''id'', hex_encode (ev_id r)), (''subject'', ref_to_string (ev_subject r)),
      (''kind'', evidence_kind_to_string (ev_kind r)), (''state'', evidence_state_to_string (ev_state r)),
      (''advisory'', flag_text (ev_advisory r)), (''detail'', ev_detail r), (''source_runtime'', source_runtime p),
      (''source_instance'', source_instance p), (''source_id'', hex_encode (source_id p)),
      (''source_sequence'', to_decimal (source_sequence p)), (''source_epoch'', to_decimal (source_epoch p))] @
     write_incarnation ''ingested_'' (ingested_incarnation p) @
     [(''observed_generation'', to_decimal (observed_generation p)), (''observed_tick'', to_decimal (observed_tick p)),
      (''valid_until_tick'', to_decimal (valid_until_tick p)), (''content_digest'', digest_to_string (content_digest p))])"

definition decode_evidence :: "EvidenceRecord reader" where
  "decode_evidence =
     read_then (read_id ''id'') (\<lambda>i.
     read_then (read_resource ''subject'') (\<lambda>subject.
     read_then (require_parsed evidence_kind_from_string ''kind'') (\<lambda>kind.
     read_then (require_parsed evidence_state_from_string ''state'') (\<lambda>state.
     read_then (require_bool ''advisory'') (\<lambda>advisory.
     read_then (require_string ''detail'') (\<lambda>detail.
     read_then (require_string ''source_runtime'') (\<lambda>runtime.
     read_then (require_string ''source_instance'') (\<lambda>inst.
     read_then (read_id ''source_id'') (\<lambda>source.
     read_then (require_u64 ''source_sequence'') (\<lambda>sequence.
     read_then (require_u64 ''source_epoch'') (\<lambda>epoch.
     read_then (read_incarnation ''ingested_'') (\<lambda>ingested.
     read_then (require_u64 ''observed_generation'') (\<lambda>og.
     read_then (require_u64 ''observed_tick'') (\<lambda>ot.
     read_then (require_u64 ''valid_until_tick'') (\<lambda>vu.
     read_then (read_digest ''content_digest'') (\<lambda>content.
     read_done \<lparr>ev_id = i, ev_subject = subject, ev_kind = kind, ev_state = state,
       ev_provenance = \<lparr>source_runtime = runtime, source_instance = inst, source_id = source,
         source_sequence = sequence, source_epoch = epoch, ingested_incarnation = ingested,
         observed_generation = og, observed_tick = ot, valid_until_tick = vu, content_digest = content\<rparr>,
       ev_detail = detail, ev_advisory = advisory\<rparr>))))))))))))))))"

definition encode_reservation :: "ReservationView \<Rightarrow> field list" where
  "encode_reservation v =
     [(''id'', hex_encode (rv_id v)), (''connectivity'', hex_encode (rv_connectivity v)), (''holder'', rv_holder v),
      (''epoch'', to_decimal (rv_epoch v))] @ write_incarnation ''incarnation_'' (rv_incarnation v) @
     [(''granted_tick'', to_decimal (rv_granted_tick v)), (''expiry_tick'', to_decimal (rv_expiry_tick v)),
      (''generation'', to_decimal (rv_generation v)), (''consumed'', flag_text (rv_consumed v)),
      (''released'', flag_text (rv_released v)), (''resources.count'', count_text (rv_resources v))] @
     indexed_fields ''resources'' (\<lambda>r. [([], ref_to_string r)]) (rv_resources v)"

definition decode_reservation :: "ReservationView reader" where
  "decode_reservation =
     read_then (read_id ''id'') (\<lambda>i.
     read_then (read_id ''connectivity'') (\<lambda>connectivity.
     read_then (require_string ''holder'') (\<lambda>holder.
     read_then (require_u64 ''epoch'') (\<lambda>epoch.
     read_then (read_incarnation ''incarnation_'') (\<lambda>inc.
     read_then (require_u64 ''granted_tick'') (\<lambda>granted.
     read_then (require_u64 ''expiry_tick'') (\<lambda>expiry.
     read_then (require_u64 ''generation'') (\<lambda>generation.
     read_then (require_bool ''consumed'') (\<lambda>consumed.
     read_then (require_bool ''released'') (\<lambda>released.
     read_then (group_count ''resources'') (\<lambda>n.
     read_then (read_loop n (\<lambda>i. read_resource (indexed_key ''resources'' i []))) (\<lambda>resources.
     read_done \<lparr>rv_id = i, rv_connectivity = connectivity, rv_holder = holder, rv_epoch = epoch, rv_incarnation = inc,
       rv_granted_tick = granted, rv_expiry_tick = expiry, rv_generation = generation, rv_resources = resources,
       rv_consumed = consumed, rv_released = released\<rparr>))))))))))))"

definition encode_fence :: "string \<Rightarrow> FenceRecord \<Rightarrow> field list" where
  "encode_fence detail f =
     [(''grant'', hex_encode (fr_grant f)), (''holder'', hex_encode (fr_holder f)),
      (''fenced_epoch'', to_decimal (fr_fenced_epoch f)), (''fencing_epoch'', to_decimal (fr_fencing_epoch f)),
      (''fenced_boot'', to_decimal (fr_fenced_boot f)), (''fencing_boot'', to_decimal (fr_fencing_boot f))] @
     write_scope ''scope_'' (fr_scope f) @
     [(''reason'', fence_reason_to_string (fr_reason f)), (''fenced_tick'', to_decimal (fr_fenced_tick f)),
      (''detail'', detail)]"

definition decode_fence :: "FenceRecord reader" where
  "decode_fence =
     read_then (read_id ''grant'') (\<lambda>grant.
     read_then (read_id ''holder'') (\<lambda>holder.
     read_then (require_u64 ''fenced_epoch'') (\<lambda>fenced_epoch.
     read_then (require_u64 ''fencing_epoch'') (\<lambda>fencing_epoch.
     read_then (require_u64 ''fenced_boot'') (\<lambda>fenced_boot.
     read_then (require_u64 ''fencing_boot'') (\<lambda>fencing_boot.
     read_then (read_scope ''scope_'') (\<lambda>scope.
     read_then (require_parsed fence_reason_from_string ''reason'') (\<lambda>reason.
     read_then (require_u64 ''fenced_tick'') (\<lambda>fenced_tick.
     read_then (require_string ''detail'') (\<lambda>detail.
     read_done \<lparr>fr_grant = grant, fr_holder = holder, fr_fenced_epoch = fenced_epoch,
       fr_fencing_epoch = fencing_epoch, fr_fenced_boot = fenced_boot, fr_fencing_boot = fencing_boot,
       fr_scope = scope, fr_reason = reason, fr_fenced_tick = fenced_tick\<rparr>))))))))))"

definition encode_grant :: "string \<Rightarrow> GrantState \<Rightarrow> field list" where
  "encode_grant detail g = (let v = gs_view g in
     [(''id'', hex_encode (gv_id v)), (''holder'', hex_encode (gv_holder v))] @
     write_scope ''scope_'' (gv_scope v) @ [(''epoch'', to_decimal (gv_epoch v))] @
     write_incarnation ''incarnation_'' (gv_incarnation v) @
     [(''granted_tick'', to_decimal (gv_granted_tick v)), (''expiry_tick'', to_decimal (gv_expiry_tick v)),
      (''generation'', to_decimal (gv_generation v)), (''fenced'', flag_text (gv_fenced v)),
      (''released'', flag_text (gv_released v)), (''has_fence'', flag_text (gs_has_fence g))] @
     (if gs_has_fence g then prefixed ''fence_'' (encode_fence detail (gs_fence g)) else []))"

definition decode_grant :: "GrantState reader" where
  "decode_grant =
     read_then (read_id ''id'') (\<lambda>i.
     read_then (read_id ''holder'') (\<lambda>holder.
     read_then (read_scope ''scope_'') (\<lambda>scope.
     read_then (require_u64 ''epoch'') (\<lambda>epoch.
     read_then (read_incarnation ''incarnation_'') (\<lambda>inc.
     read_then (require_u64 ''granted_tick'') (\<lambda>granted.
     read_then (require_u64 ''expiry_tick'') (\<lambda>expiry.
     read_then (require_u64 ''generation'') (\<lambda>generation.
     read_then (require_bool ''fenced'') (\<lambda>fenced.
     read_then (require_bool ''released'') (\<lambda>released.
     read_then (require_bool ''has_fence'') (\<lambda>has_fence.
     read_then (if has_fence then read_scoped ''fence_'' decode_fence else read_done nil_fence) (\<lambda>fence.
     read_done \<lparr>gs_view = \<lparr>gv_id = i, gv_holder = holder, gv_scope = scope, gv_epoch = epoch,
         gv_incarnation = inc, gv_granted_tick = granted, gv_expiry_tick = expiry, gv_generation = generation,
         gv_fenced = fenced, gv_released = released\<rparr>,
       gs_fence = fence, gs_has_fence = has_fence\<rparr>))))))))))))"

definition encode_attempt :: "string \<Rightarrow> AttemptRecord \<Rightarrow> field list" where
  "encode_attempt summary r =
     [(''attempt'', hex_encode (ar_attempt r)), (''digest'', digest_to_string (ar_request_digest r)),
      (''operation'', ar_operation r), (''outcome'', outcome_to_string (ar_outcome r)),
      (''refusal'', refusal_to_string (ar_refusal r)), (''connectivity'', hex_encode (ar_connectivity r)),
      (''reservation'', hex_encode (ar_reservation r)), (''grant'', hex_encode (ar_grant r)),
      (''generation'', to_decimal (ar_generation r)), (''tick'', to_decimal (ar_tick r)), (''summary'', summary)]"

definition decode_attempt :: "AttemptRecord reader" where
  "decode_attempt =
     read_then (read_id ''attempt'') (\<lambda>attempt.
     read_then (read_digest ''digest'') (\<lambda>digest.
     read_then (require_string ''operation'') (\<lambda>operation.
     read_then (read_outcome ''outcome'') (\<lambda>outcome.
     read_then (read_refusal ''refusal'') (\<lambda>refusal.
     read_then (read_id ''connectivity'') (\<lambda>connectivity.
     read_then (read_id ''reservation'') (\<lambda>reservation.
     read_then (read_id ''grant'') (\<lambda>grant.
     read_then (require_u64 ''generation'') (\<lambda>generation.
     read_then (require_u64 ''tick'') (\<lambda>tick.
     read_then (require_string ''summary'') (\<lambda>summary.
     read_done \<lparr>ar_attempt = attempt, ar_request_digest = digest, ar_operation = operation, ar_outcome = outcome,
       ar_refusal = refusal, ar_connectivity = connectivity, ar_reservation = reservation, ar_grant = grant,
       ar_generation = generation, ar_tick = tick\<rparr>)))))))))))"

definition encode_runtime :: "RuntimeState \<Rightarrow> field list" where
  "encode_runtime s =
     [(''epoch'', to_decimal (rt_epoch s)), (''tick'', to_decimal (rt_tick s)),
      (''generation'', to_decimal (rt_generation s)), (''topology_generation'', to_decimal (rt_topology_generation s)),
      (''boot_sequence'', to_decimal (rt_boot_sequence s)), (''instance'', digest_to_string (rt_instance s)),
      (''host_label'', rt_host_label s)]"

definition decode_runtime :: "RuntimeState reader" where
  "decode_runtime =
     read_then (require_u64 ''epoch'') (\<lambda>epoch.
     read_then (require_u64 ''tick'') (\<lambda>tick.
     read_then (require_u64 ''generation'') (\<lambda>generation.
     read_then (require_u64 ''topology_generation'') (\<lambda>topology.
     read_then (require_u64 ''boot_sequence'') (\<lambda>boot.
     read_then (read_digest ''instance'') (\<lambda>inst.
     read_then (require_string ''host_label'') (\<lambda>host.
     read_done \<lparr>rt_epoch = epoch, rt_tick = tick, rt_generation = generation, rt_topology_generation = topology,
       rt_boot_sequence = boot, rt_instance = inst, rt_host_label = host\<rparr>)))))))"

section \<open>Connectivity\<close>

text \<open>The texts of a record that are not modelled are arguments: of the last refusal and, by position, of
  the transitions.\<close>

definition encode_connectivity :: "string \<Rightarrow> (nat \<Rightarrow> string) \<Rightarrow> ConnectivityRecord \<Rightarrow> field list" where
  "encode_connectivity detail notes r =
     [(''id'', hex_encode (cr_id r)), (''name'', cr_name r), (''owner'', cr_owner r),
      (''state'', state_to_string (cr_state r)), (''generation'', to_decimal (cr_generation r)),
      (''created_tick'', to_decimal (cr_created_tick r)), (''updated_tick'', to_decimal (cr_updated_tick r)),
      (''activated_tick'', to_decimal (cr_activated_tick r)), (''retired_tick'', to_decimal (cr_retired_tick r)),
      (''last_refusal'', refusal_to_string (cr_last_refusal r)), (''last_refusal_detail'', detail),
      (''identity'', digest_to_string (cp_identity (cr_canonical r)))] @
     encode_path (cr_path r) @ prefixed ''authority_'' (encode_authority (cr_authority r)) @
     [(''authority_confirmed'', flag_text (cr_authority_confirmed r)),
      (''reservation'', hex_encode (cr_reservation r)), (''has_reservation'', flag_text (cr_has_reservation r)),
      (''reservation_expiry'', to_decimal (cr_reservation_expiry r)),
      (''activation_digest'', digest_to_string (cr_activation_digest r)),
      (''activation_attempt'', hex_encode (cr_activation_attempt r)),
      (''transitions_dropped'', to_decimal (of_nat (cr_transitions_dropped r))),
      (''history.count'', count_text (cr_history r))] @
     indexed_fields ''history'' (\<lambda>(i, t). prefixed ''.'' (encode_transition (notes i) t)) (enumerate 0 (cr_history r)) @
     [(''attempt_log.count'', count_text (cr_attempt_log r))] @
     indexed_fields ''attempt_log'' (\<lambda>a. [([], hex_encode a)]) (cr_attempt_log r) @
     [(''require_capability'', flag_text (require_capability_evidence (cr_requirements r))),
      (''require_operational'', flag_text (require_operational_evidence (cr_requirements r))),
      (''require_attachment'', flag_text (require_attachment_evidence (cr_requirements r))),
      (''allow_unsupported_advisory'', flag_text (allow_unsupported_advisory (cr_requirements r))),
      (''additional.count'', count_text (additional_required_kinds (cr_requirements r)))] @
     indexed_fields ''additional'' (\<lambda>k. [([], evidence_kind_to_string k)])
       (additional_required_kinds (cr_requirements r))"

text \<open>A count that exceeds a bound is refused before anything is read.\<close>

definition bounded_count :: "string \<Rightarrow> nat \<Rightarrow> u64 reader" where
  "bounded_count key bound =
     read_then (group_count key) (\<lambda>n. if unat n > bound then read_fail CapacityExceeded else read_done n)"

definition read_canonical :: "PathDescriptor \<Rightarrow> Digest128 \<Rightarrow> Limits \<Rightarrow> CanonicalPath reader" where
  "read_canonical path identity lim =
     (case canonicalize_path path lim of
        Inl e \<Rightarrow> read_fail e
      | Inr canonical \<Rightarrow>
          if cp_identity canonical \<noteq> identity then read_fail StoreCorrupt else read_done canonical)"

definition decode_requirements :: "IntentRequirements reader" where
  "decode_requirements =
     read_then (require_bool ''require_capability'') (\<lambda>capability.
     read_then (require_bool ''require_operational'') (\<lambda>operational.
     read_then (require_bool ''require_attachment'') (\<lambda>attachment.
     read_then (require_bool ''allow_unsupported_advisory'') (\<lambda>advisory.
     read_then (bounded_count ''additional'' kEvidenceKindCount) (\<lambda>n.
     read_then (read_loop n (\<lambda>i. require_parsed evidence_kind_from_string (indexed_key ''additional'' i []))) (\<lambda>kinds.
     read_done \<lparr>require_capability_evidence = capability, require_operational_evidence = operational,
       require_attachment_evidence = attachment, additional_required_kinds = kinds,
       allow_unsupported_advisory = advisory\<rparr>))))))"

definition decode_connectivity :: "Limits \<Rightarrow> ConnectivityRecord reader" where
  "decode_connectivity lim =
     read_then (read_id ''id'') (\<lambda>i.
     read_then (require_string ''name'') (\<lambda>name.
     read_then (require_string ''owner'') (\<lambda>owner.
     read_then (read_state ''state'') (\<lambda>state.
     read_then (require_u64 ''generation'') (\<lambda>generation.
     read_then (require_u64 ''created_tick'') (\<lambda>created.
     read_then (require_u64 ''updated_tick'') (\<lambda>updated.
     read_then (require_u64 ''activated_tick'') (\<lambda>activated.
     read_then (require_u64 ''retired_tick'') (\<lambda>retired.
     read_then (read_refusal ''last_refusal'') (\<lambda>refusal.
     read_then (require_string ''last_refusal_detail'') (\<lambda>detail.
     read_then (read_digest ''identity'') (\<lambda>identity.
     read_then decode_path (\<lambda>path.
     read_then (read_canonical path identity lim) (\<lambda>canonical.
     read_then (read_scoped ''authority_'' decode_authority) (\<lambda>authority.
     read_then (require_bool ''authority_confirmed'') (\<lambda>confirmed.
     read_then (read_id ''reservation'') (\<lambda>reservation.
     read_then (require_bool ''has_reservation'') (\<lambda>has_reservation.
     read_then (require_u64 ''reservation_expiry'') (\<lambda>expiry.
     read_then (read_digest ''activation_digest'') (\<lambda>digest.
     read_then (read_id ''activation_attempt'') (\<lambda>attempt.
     read_then (require_u64 ''transitions_dropped'') (\<lambda>dropped.
     read_then (bounded_count ''history'' (max_attempt_history_per_object lim)) (\<lambda>n1.
     read_then (read_loop n1 (\<lambda>i. read_then (read_group ''history'' i) (read_sub decode_transition))) (\<lambda>history.
     read_then (bounded_count ''attempt_log'' (max_attempt_history_per_object lim)) (\<lambda>n2.
     read_then (read_loop n2 (\<lambda>i. read_id (indexed_key ''attempt_log'' i []))) (\<lambda>attempts.
     read_then decode_requirements (\<lambda>requirements.
     read_done \<lparr>cr_id = i, cr_name = name, cr_owner = owner, cr_state = state, cr_generation = generation,
       cr_path = path, cr_canonical = canonical, cr_requirements = requirements, cr_reservation = reservation,
       cr_has_reservation = has_reservation, cr_reservation_expiry = expiry, cr_authority = authority,
       cr_authority_confirmed = confirmed, cr_created_tick = created, cr_updated_tick = updated,
       cr_activated_tick = activated, cr_retired_tick = retired, cr_last_refusal = refusal,
       cr_activation_digest = digest, cr_activation_attempt = attempt, cr_history = history,
       cr_transitions_dropped = unat dropped, cr_attempt_log = attempts\<rparr>)))))))))))))))))))))))))))"

end
