(* ===== verification/Reload.thy ===== *)
theory Reload
  imports StateCodec
begin

text \<open>
  Decoding an encoded record gives the \<open>reload_\<close> function of \<open>State\<close>, and asks for every field that was
  written: one lemma per record, over the rules of \<open>Readers\<close>. The fields of a record are looked up in the
  whole list of fields, whose keys are distinct.
\<close>

section \<open>Decoding what was encoded\<close>

lemma flag_round_trip [simp]: "parse_flag (flag_text b) = Some b"
proof -
  have "parse_flag ''1'' = Some True" "parse_flag ''0'' = Some False" by code_simp+
  then show ?thesis by (simp add: flag_text_def)
qed

lemma refusal_round_trip [simp]:
  "refusal_from_string (refusal_to_string c) = (if refusal_encodable c then Some c else None)"
  by (cases c) (simp_all add: refusal_from_string_def persisted_refusals_def refusal_encodable_def)

lemma outcome_round_trip [simp]: "outcome_from_string (outcome_to_string c) = Some c"
  by (cases c) (simp_all add: outcome_from_string_def)

lemma sharing_round_trip [simp]: "sharing_from_string (sharing_to_string m) = Some m"
  by (cases m) (simp_all add: sharing_from_string_def)

lemma fence_reason_round_trip [simp]: "fence_reason_from_string (fence_reason_to_string r) = Some r"
  by (cases r) (simp_all add: fence_reason_from_string_def)

lemma u32_round_trip [simp]: "(ucast (ucast (x :: u32) :: u64) :: u32) = x"
  by transfer (simp add: take_bit_take_bit)

lemma ref_round_trip [simp]: "ref_parse (ref_to_string r) = (if ref_encodable r then Some r else None)"
  by (simp add: ref_parse_to_string ref_encodable_def)

lemma token_round_trips [simp]:
  "parse_hex_u64 (hex_encode w) = Some w" "digest_parse (digest_to_string d) = Some d"
  "connectivity_state_from_string (state_to_string s) = Some s"
  "evidence_kind_from_string (evidence_kind_to_string k) = Some k"
  "evidence_state_from_string (evidence_state_to_string v) = Some v"
  by (simp_all add: parse_hex_u64_hex_encode digest_parse_to_string connectivity_state_from_string_def
      state_tokens.search_tok evidence_kind_from_string_def evidence_kind_tokens.search_tok
      evidence_state_from_string_def evidence_state_tokens.search_tok)

lemma role_round_trip [simp]: "segment_role_from_string (role_to_string r) = Some r"
  unfolding segment_role_from_string_def by (rule role_tokens.search_tok)

lemma direction_round_trip [simp]: "direction_from_string (direction_to_string d) = Some d"
  unfolding direction_from_string_def by (rule direction_tokens.search_tok)

lemmas value_readers = read_digest_def read_resource_def read_id_def read_refusal_def read_outcome_def
  read_state_def read_sharing_def

text \<open>The fields of an incarnation and of a scope among others.\<close>

lemma reads_incarnation:
  assumes "distinct (map fst fs)" "set (prefixed p (write_incarnation prefix i)) \<subseteq> set fs"
  shows "reads fs p (read_incarnation prefix) (Some i) (fst ` set (prefixed p (write_incarnation prefix i)))"
proof -
  have "map_of fs (p @ prefix @ ''boot'') = Some (to_decimal (boot_sequence i))"
    "map_of fs (p @ prefix @ ''instance'') = Some (digest_to_string (inc_instance i))"
    "map_of fs (p @ prefix @ ''host'') = Some (inc_host_label i)"
    using assms by (auto simp: write_incarnation_def intro: map_of_is_SomeI)
  then show ?thesis
    unfolding read_incarnation_def value_readers
    by (intro reads_conseq [OF reads_then [OF reads_u64 reads_then [OF reads_parsed reads_then [OF reads_optional reads_done]]]])
      (auto simp: assms write_incarnation_def)
qed

lemma reads_scope:
  assumes "distinct (map fst fs)" "set (prefixed p (write_scope prefix s)) \<subseteq> set fs"
  shows "reads fs p (read_scope prefix) (Some (reload_scope s)) (fst ` set (prefixed p (write_scope prefix s)))"
proof -
  have kind: "map_of fs (p @ prefix @ ''kind'') =
      Some (case scope_kind s of ScopeNone \<Rightarrow> ''none'' | ScopeGlobal \<Rightarrow> ''global'' | ScopeSite \<Rightarrow> ''site'')"
    "scope_kind s = ScopeSite \<Longrightarrow> map_of fs (p @ prefix @ ''site'') = Some (hex_encode (scope_site s))"
    using assms by (cases "scope_kind s"; auto simp: write_scope_def intro: map_of_is_SomeI)+
  show ?thesis
    unfolding read_scope_def value_readers
    by (rule reads_conseq, (rule reads_rules assms)+)
      (use kind in \<open>cases "scope_kind s"; cases s; auto simp: reload_scope_def write_scope_def\<close>)+
qed

lemma decode_runtime_reads:
  "reads ((''type'', t) # encode_runtime s) [] decode_runtime (Some s) (fst ` set (encode_runtime s))"
proof -
  have distinct: "distinct (map fst ((''type'', t) # encode_runtime s))" by (simp add: encode_runtime_def)
  show ?thesis
    unfolding decode_runtime_def value_readers
    by (rule reads_conseq, (rule reads_rules distinct)+) (simp_all add: encode_runtime_def)
qed

text \<open>A vector of single values among others.\<close>

lemma count_round_trip:
  assumes "distinct (map fst fs)" "(pre @ ''.count'', count_text xs) \<in> set fs" "length xs < 2 ^ 64"
    and "Option.bind (map_of fs ([] @ pre @ ''.count'')) parse_u64 = Some n"
  shows "unat n = length xs"
proof -
  have "map_of fs (pre @ ''.count'') = Some (count_text xs)" using assms by (intro map_of_is_SomeI)
  then have "n = of_nat (length xs)" using assms(4) by (simp add: count_text_def)
  then show ?thesis using assms(3) by (simp add: unat_of_nat take_bit_nat_eq_self)
qed

lemma reads_values:
  assumes "distinct (map fst fs)" "set ((pre @ ''.count'', count_text xs) # indexed_fields pre (\<lambda>x. [([], enc x)]) xs) \<subseteq> set fs"
    and "length xs < 2 ^ 64" "\<And>k v. map_of fs k = Some v \<Longrightarrow> reads fs [] (d k) (dec v) {k}"
    and "Option.bind (map_of fs ([] @ pre @ ''.count'')) parse_u64 = Some n"
  shows "reads fs [] (read_loop n (\<lambda>i. d (indexed_key pre i []))) (those (map (\<lambda>x. dec (enc x)) xs))
    (fst ` set (indexed_fields pre (\<lambda>x. [([], enc x)]) xs))"
proof (rule reads_conseq [OF reads_vector])
  show "unat n = length xs" using assms(2) by (intro count_round_trip [OF assms(1) _ assms(3,5)]) simp
  show "reads fs [] (d (indexed_key pre i [])) (dec (enc (xs ! i))) {indexed_key pre i []}" if "i < length xs" for i
    using lookup_indexed [of fs pre "\<lambda>x. [([], enc x)]" xs i "[]"] assms(1,2) that
    by (intro assms(4)) (simp add: indexed_key_def)
  show "fst ` set (indexed_fields pre (\<lambda>x. [([], enc x)]) xs) \<subseteq> (\<Union>i < length xs. {indexed_key pre i []})"
    unfolding subset_iff keys_indexed by (auto simp: indexed_key_def)
qed simp

lemma reads_parsed_value: "distinct (map fst fs) \<Longrightarrow> map_of fs k = Some v \<Longrightarrow> reads fs [] (require_parsed f k) (f v) {k}"
  using reads_parsed [of fs "[]" f k] by simp

lemma reads_string_value: "distinct (map fst fs) \<Longrightarrow> map_of fs k = Some v \<Longrightarrow> reads fs [] (require_string k) (Some v) {k}"
  using reads_string [of fs "[]" k] by simp

lemma dotted_single: "dotted (\<lambda>x. [([], enc x)])"
  by (simp add: dotted_def)

lemma disjoint_indexed:
  "CHR ''.'' \<notin> set pre \<Longrightarrow> head_of k \<noteq> pre \<Longrightarrow> k \<notin> fst ` set (indexed_fields pre f xs)"
  using head_indexed by blast

lemma disjoint_vectors:
  assumes "CHR ''.'' \<notin> set pre" "CHR ''.'' \<notin> set qre" "pre \<noteq> qre"
  shows "fst ` set (indexed_fields pre f xs) \<inter> fst ` set (indexed_fields qre g ys) = {}"
proof -
  have "k \<notin> fst ` set (indexed_fields qre g ys)" if "k \<in> fst ` set (indexed_fields pre f xs)" for k
    using head_indexed [OF that assms(1)] head_indexed [of k qre g ys] assms(2,3) by blast
  then show ?thesis by blast
qed

lemma count_not_indexed: "pre @ ''.count'' \<notin> fst ` set (indexed_fields pre f xs)"
  unfolding keys_indexed by auto

lemma lookup_all: "distinct (map fst fs) \<Longrightarrow> fs = gs \<Longrightarrow> \<forall>(k, v) \<in> set gs. map_of fs k = Some v"
  by auto

lemma reservation_distinct: "distinct (map fst ((''type'', t) # encode_reservation v))"
  using distinct_indexed [OF dotted_single, of "rv_resources v" ref_to_string "''resources''"]
    count_not_indexed [of "''resources''" "\<lambda>r. [([], ref_to_string r)]" "rv_resources v"]
  by (simp add: encode_reservation_def write_incarnation_def disjoint_indexed head_of_def)

lemma decode_reservation_reads:
  assumes "length (rv_resources v) < 2 ^ 64"
  shows "reads ((''type'', t) # encode_reservation v) [] decode_reservation (reload_reservation v) (fst ` set (encode_reservation v))"
proof -
  note d = reservation_distinct [of t v]
  have inc: "reads ((''type'', t) # encode_reservation v) [] (read_incarnation ''incarnation_'') (Some (rv_incarnation v))
      (fst ` set (prefixed [] (write_incarnation ''incarnation_'' (rv_incarnation v))))"
    by (rule reads_incarnation [OF d]) (auto simp: encode_reservation_def)
  have res: "reads ((''type'', t) # encode_reservation v) [] (read_loop n (\<lambda>i. require_parsed ref_parse (indexed_key ''resources'' i [])))
      (those (map (\<lambda>r. ref_parse (ref_to_string r)) (rv_resources v)))
      (fst ` set (indexed_fields ''resources'' (\<lambda>r. [([], ref_to_string r)]) (rv_resources v)))"
    if "Option.bind (map_of ((''type'', t) # encode_reservation v) ([] @ ''resources'' @ ''.count'')) parse_u64 = Some n" for n
    by (rule reads_values [OF d _ assms reads_parsed_value [OF d] that]) (auto simp: encode_reservation_def)
  show ?thesis
    unfolding decode_reservation_def value_readers
    by (rule reads_conseq, (rule inc res reads_rules d | assumption)+)
      (auto simp: encode_reservation_def write_incarnation_def map_of_indexed_other head_of_def those_if
         reload_reservation_def count_text_def)
qed

lemma resource_distinct: "distinct (map fst ((''type'', t) # encode_resource s))"
  using distinct_indexed [OF dotted_single, of "rs_related s" ref_to_string "''related''"]
    distinct_indexed [OF dotted_single, of "rs_attributes s" id "''attributes''"]
    distinct_indexed [OF dotted_single, of "rs_spans s" hex_encode "''spans''"]
    distinct_indexed [OF dotted_single, of "rs_endpoints s" hex_encode "''endpoints''"]
    count_not_indexed [of "''related''" "\<lambda>r. [([], ref_to_string r)]" "rs_related s"]
    count_not_indexed [of "''attributes''" "\<lambda>r. [([], r)]" "rs_attributes s"]
    count_not_indexed [of "''spans''" "\<lambda>r. [([], hex_encode r)]" "rs_spans s"]
    count_not_indexed [of "''endpoints''" "\<lambda>r. [([], hex_encode r)]" "rs_endpoints s"]
  by (simp add: encode_resource_def disjoint_indexed head_of_def disjoint_vectors Int_Un_distrib)

lemma decode_resource_reads:
  assumes "length (rs_related s) < 2 ^ 64" "length (rs_attributes s) < 2 ^ 64" "length (rs_spans s) < 2 ^ 64"
    "length (rs_endpoints s) < 2 ^ 64"
  shows "reads ((''type'', t) # encode_resource s) [] decode_resource (reload_resource s) (fst ` set (encode_resource s))"
proof -
  define fs where fs_def: "fs = (''type'', t) # encode_resource s"
  have d: "distinct (map fst fs)" unfolding fs_def by (rule resource_distinct)
  note lookups = lookup_all [OF d fs_def, unfolded encode_resource_def, simplified]
  have related: "reads fs [] (read_loop n (\<lambda>i. require_parsed ref_parse (indexed_key ''related'' i [])))
      (those (map (\<lambda>r. ref_parse (ref_to_string r)) (rs_related s)))
      (fst ` set (indexed_fields ''related'' (\<lambda>r. [([], ref_to_string r)]) (rs_related s)))"
    if "Option.bind (map_of fs ([] @ ''related'' @ ''.count'')) parse_u64 = Some n" for n
    by (rule reads_values [OF d _ assms(1) reads_parsed_value [OF d] that]) (auto simp: fs_def encode_resource_def)
  have attributes: "reads fs [] (read_loop n (\<lambda>i. require_string (indexed_key ''attributes'' i [])))
      (those (map (\<lambda>a. Some a) (rs_attributes s)))
      (fst ` set (indexed_fields ''attributes'' (\<lambda>a. [([], a)]) (rs_attributes s)))"
    if "Option.bind (map_of fs ([] @ ''attributes'' @ ''.count'')) parse_u64 = Some n" for n
    by (rule reads_values [OF d _ assms(2) reads_string_value [OF d] that]) (auto simp: fs_def encode_resource_def)
  have spans: "reads fs [] (read_loop n (\<lambda>i. require_parsed parse_hex_u64 (indexed_key ''spans'' i [])))
      (those (map (\<lambda>i. parse_hex_u64 (hex_encode i)) (rs_spans s)))
      (fst ` set (indexed_fields ''spans'' (\<lambda>i. [([], hex_encode i)]) (rs_spans s)))"
    if "Option.bind (map_of fs ([] @ ''spans'' @ ''.count'')) parse_u64 = Some n" for n
    by (rule reads_values [OF d _ assms(3) reads_parsed_value [OF d] that]) (auto simp: fs_def encode_resource_def)
  have endpoints: "reads fs [] (read_loop n (\<lambda>i. require_parsed parse_hex_u64 (indexed_key ''endpoints'' i [])))
      (those (map (\<lambda>i. parse_hex_u64 (hex_encode i)) (rs_endpoints s)))
      (fst ` set (indexed_fields ''endpoints'' (\<lambda>i. [([], hex_encode i)]) (rs_endpoints s)))"
    if "Option.bind (map_of fs ([] @ ''endpoints'' @ ''.count'')) parse_u64 = Some n" for n
    by (rule reads_values [OF d _ assms(4) reads_parsed_value [OF d] that]) (auto simp: fs_def encode_resource_def)
    show ?thesis
    unfolding decode_resource_def value_readers fs_def [symmetric]
    by (rule reads_conseq, (rule related attributes spans endpoints reads_rules d | assumption)+,
        simp add: lookups those_if reload_resource_def count_text_def,
        simp add: lookups those_if reload_resource_def count_text_def encode_resource_def image_Un split: if_splits, blast)
qed

lemma decode_attempt_reads:
  "reads ((''type'', t) # encode_attempt summary r) [] decode_attempt (reload_attempt r) (fst ` set (encode_attempt summary r))"
proof -
  have d: "distinct (map fst ((''type'', t) # encode_attempt summary r))" by (simp add: encode_attempt_def)
  show ?thesis
    unfolding decode_attempt_def value_readers
    by (rule reads_conseq, (rule reads_rules d)+) (simp_all add: encode_attempt_def reload_attempt_def split: if_splits)
qed

lemma decode_transition_reads:
  "reads (encode_transition detail t) [] decode_transition (if refusal_encodable (tr_refusal t) then Some t else None)
     (fst ` set (encode_transition detail t))"
proof -
  have d: "distinct (map fst (encode_transition detail t))" by (simp add: encode_transition_def)
  show ?thesis
    unfolding decode_transition_def value_readers
    by (rule reads_conseq, (rule reads_rules d)+) (simp_all add: encode_transition_def split: if_splits)
qed

lemma decode_evidence_reads:
  "reads ((''type'', t) # encode_evidence r) [] decode_evidence (reload_evidence r) (fst ` set (encode_evidence r))"
proof -
  have d: "distinct (map fst ((''type'', t) # encode_evidence r))" by (simp add: encode_evidence_def write_incarnation_def Let_def)
  have inc: "reads ((''type'', t) # encode_evidence r) [] (read_incarnation ''ingested_'') (Some (ingested_incarnation (ev_provenance r)))
      (fst ` set (prefixed [] (write_incarnation ''ingested_'' (ingested_incarnation (ev_provenance r)))))"
    by (rule reads_incarnation [OF d]) (auto simp: encode_evidence_def Let_def)
  show ?thesis
    unfolding decode_evidence_def value_readers
    by (rule reads_conseq, (rule inc reads_rules d)+)
      (simp_all add: encode_evidence_def reload_evidence_def write_incarnation_def Let_def split: if_splits)
qed

text \<open>Tokens and fences are also read under a prefix, among the fields of a larger record.\<close>

lemma reads_authority:
  assumes d: "distinct (map fst fs)" and sub: "set (prefixed p (encode_authority t)) \<subseteq> set fs"
  shows "reads fs p decode_authority (Some (reload_token t)) (fst ` set (prefixed p (encode_authority t)))"
proof -
  have scope: "reads fs p (read_scope ''scope_'') (Some (reload_scope (tok_scope t)))
      (fst ` set (prefixed p (write_scope ''scope_'' (tok_scope t))))"
    by (rule reads_scope [OF d]) (use sub in \<open>auto simp: encode_authority_def\<close>)
  have inc: "reads fs p (read_incarnation ''incarnation_'') (Some (tok_incarnation t))
      (fst ` set (prefixed p (write_incarnation ''incarnation_'' (tok_incarnation t))))"
    by (rule reads_incarnation [OF d]) (use sub in \<open>auto simp: encode_authority_def\<close>)
  have look: "map_of fs (p @ ''grant'') = Some (hex_encode (tok_grant t))"
    "map_of fs (p @ ''holder'') = Some (hex_encode (tok_holder t))"
    "map_of fs (p @ ''epoch'') = Some (to_decimal (tok_epoch t))"
    "map_of fs (p @ ''generation'') = Some (to_decimal (tok_generation t))"
    using sub d by (auto simp: encode_authority_def intro: map_of_is_SomeI)
  show ?thesis
    unfolding decode_authority_def value_readers
    by (rule reads_conseq, (rule scope inc reads_rules d)+)
      (auto simp: look reload_token_def encode_authority_def)
qed

lemma reads_fence:
  assumes d: "distinct (map fst fs)" and sub: "set (prefixed p (encode_fence detail f)) \<subseteq> set fs"
  shows "reads fs p decode_fence (Some (reload_fence f)) (fst ` set (prefixed p (encode_fence detail f)))"
proof -
  have scope: "reads fs p (read_scope ''scope_'') (Some (reload_scope (fr_scope f)))
      (fst ` set (prefixed p (write_scope ''scope_'' (fr_scope f))))"
    by (rule reads_scope [OF d]) (use sub in \<open>auto simp: encode_fence_def\<close>)
  have look: "map_of fs (p @ ''grant'') = Some (hex_encode (fr_grant f))"
    "map_of fs (p @ ''holder'') = Some (hex_encode (fr_holder f))"
    "map_of fs (p @ ''fenced_epoch'') = Some (to_decimal (fr_fenced_epoch f))"
    "map_of fs (p @ ''fencing_epoch'') = Some (to_decimal (fr_fencing_epoch f))"
    "map_of fs (p @ ''fenced_boot'') = Some (to_decimal (fr_fenced_boot f))"
    "map_of fs (p @ ''fencing_boot'') = Some (to_decimal (fr_fencing_boot f))"
    "map_of fs (p @ ''reason'') = Some (fence_reason_to_string (fr_reason f))"
    "map_of fs (p @ ''fenced_tick'') = Some (to_decimal (fr_fenced_tick f))"
    "map_of fs (p @ ''detail'') = Some detail"
    using sub d by (auto simp: encode_fence_def intro: map_of_is_SomeI)
  show ?thesis
    unfolding decode_fence_def value_readers
    by (rule reads_conseq, (rule scope reads_rules d)+) (auto simp: look reload_fence_def encode_fence_def)
qed

lemma scope_keys: "k \<in> fst ` set (write_scope prefix s) \<Longrightarrow> k \<in> {prefix @ ''kind'', prefix @ ''site''}"
  by (cases "scope_kind s") (auto simp: write_scope_def)

lemma distinct_scope: "distinct (map fst (write_scope prefix s))"
  by (cases "scope_kind s") (auto simp: write_scope_def)

lemma fence_distinct: "distinct (map fst ((''type'', t) # encode_fence detail f))"
  by (cases "scope_kind (fr_scope f)") (simp_all add: encode_fence_def write_scope_def)

lemma decode_fence_reads:
  "reads ((''type'', t) # encode_fence detail f) [] decode_fence (Some (reload_fence f)) (fst ` set (encode_fence detail f))"
  using reads_fence [OF fence_distinct, of "[]" detail f t detail f] by auto

lemma grant_distinct: "distinct (map fst ((''type'', t) # encode_grant detail g))"
  by (cases "scope_kind (gv_scope (gs_view g))"; cases "scope_kind (fr_scope (gs_fence g))"; cases "gs_has_fence g")
    (simp_all add: encode_grant_def encode_fence_def write_scope_def write_incarnation_def Let_def)

lemma decode_grant_reads:
  "reads ((''type'', t) # encode_grant detail g) [] decode_grant (Some (reload_grant g)) (fst ` set (encode_grant detail g))"
proof -
  define fs where fs_def: "fs = (''type'', t) # encode_grant detail g"
  have d: "distinct (map fst fs)" unfolding fs_def by (rule grant_distinct)
  note lookups = lookup_all [OF d fs_def, unfolded encode_grant_def Let_def, simplified]
  have scope: "reads fs [] (read_scope ''scope_'') (Some (reload_scope (gv_scope (gs_view g))))
      (fst ` set (prefixed [] (write_scope ''scope_'' (gv_scope (gs_view g)))))"
    by (rule reads_scope [OF d]) (auto simp: fs_def encode_grant_def Let_def)
  have inc: "reads fs [] (read_incarnation ''incarnation_'') (Some (gv_incarnation (gs_view g)))
      (fst ` set (prefixed [] (write_incarnation ''incarnation_'' (gv_incarnation (gs_view g)))))"
    by (rule reads_incarnation [OF d]) (auto simp: fs_def encode_grant_def Let_def)
  have part: "set (prefixed ''fence_'' (encode_fence detail (gs_fence g))) \<subseteq> set fs" if "gs_has_fence g"
    using that by (auto simp: fs_def encode_grant_def Let_def)
  have fence: "reads fs [] (if has then read_scoped ''fence_'' decode_fence else read_done nil_fence)
      (Some (if has then reload_fence (gs_fence g) else nil_fence))
      (if has then fst ` set (prefixed ''fence_'' (encode_fence detail (gs_fence g))) else {})"
    if key: "Option.bind (map_of fs ([] @ ''has_fence'')) parse_flag = Some has" for has
  proof -
    have has: "has = gs_has_fence g" using key lookups by simp
    show ?thesis
    proof (cases has)
      case True
      have "reads fs ([] @ ''fence_'') decode_fence (Some (reload_fence (gs_fence g)))
          (fst ` set (prefixed ''fence_'' (encode_fence detail (gs_fence g))))"
        using reads_fence [OF d, of "''fence_''" detail "gs_fence g"] part True has by simp
      then have "reads fs [] (read_scoped ''fence_'' decode_fence) (Some (reload_fence (gs_fence g)))
          (fst ` set (prefixed ''fence_'' (encode_fence detail (gs_fence g))))" by (rule reads_scoped)
      then show ?thesis using True by simp
    next
      case False
      then show ?thesis using reads_done by simp
    qed
  qed
  show ?thesis
    unfolding decode_grant_def value_readers fs_def [symmetric]
    by (rule reads_conseq, (rule scope inc fence reads_rules d | assumption)+,
        simp add: lookups reload_grant_def, simp add: lookups encode_grant_def Let_def image_Un, blast)
qed

end
