(* ===== verification/ReloadConnectivity.thy ===== *)
theory ReloadConnectivity
  imports Reload
begin

text \<open>
  Decoding an encoded connectivity record gives \<open>reload_connectivity\<close>. The record holds its path, its
  authority under a prefix, and its history as one group of fields per transition.
\<close>

section \<open>Groups of a vector\<close>

lemma in_group_iff: "in_group P k \<longleftrightarrow> (\<exists>l. l \<noteq> [] \<and> k = P @ l)"
proof
  assume "in_group P k"
  then have "k = P @ drop (length P) k" "drop (length P) k \<noteq> []"
    by (auto simp: in_group_def) (metis append_take_drop_id)
  then show "\<exists>l. l \<noteq> [] \<and> k = P @ l" by blast
qed (auto simp: in_group_def)

lemma enumerate_split:
  assumes "i < length xs"
  shows "enumerate n xs = enumerate n (take i xs) @ (n + i, xs ! i) # enumerate (n + Suc i) (drop (Suc i) xs)"
  using assms
proof (induction xs arbitrary: n i)
  case (Cons x xs)
  then show ?case by (cases i) auto
qed simp

lemma group_block:
  assumes "j \<noteq> i"
  shows "filter (\<lambda>f. in_group (pre @ ''.'' @ dec_digits i @ ''.'') (fst f))
    (prefixed (pre @ ''.'' @ dec_digits j) (prefixed ''.'' gs)) = []"
proof -
  have "\<not> in_group (pre @ ''.'' @ dec_digits i @ ''.'') (pre @ ''.'' @ dec_digits j @ ''.'' @ k)" for k
  proof
    assume "in_group (pre @ ''.'' @ dec_digits i @ ''.'') (pre @ ''.'' @ dec_digits j @ ''.'' @ k)"
    then obtain l where "dec_digits j @ ''.'' @ k = dec_digits i @ ''.'' @ l"
      unfolding in_group_iff by auto
    then show False using index_cut [of j "''.'' @ k" i "''.'' @ l"] assms by simp
  qed
  then show ?thesis by (auto simp: filter_empty_conv prefixed_def)
qed

lemma group_of_indexed:
  fixes pre :: string and i :: nat
  defines "P \<equiv> pre @ ''.'' @ dec_digits i @ ''.''"
  assumes "i < length xs" "\<forall>k \<in> fst ` set (g (xs ! i)). k \<noteq> []"
  shows "map (apfst (drop (length P))) (filter (\<lambda>f. in_group P (fst f))
    (indexed_fields pre (\<lambda>x. prefixed ''.'' (g x)) xs)) = g (xs ! i)"
proof -
  let ?block = "\<lambda>(j, x). prefixed (pre @ ''.'' @ dec_digits j) (prefixed ''.'' (g x))"
  have other: "filter (\<lambda>f. in_group P (fst f)) (concat (map ?block es)) = []" if "\<forall>(j, x) \<in> set es. j \<noteq> i" for es
    using that group_block [of _ i pre] by (induction es) (auto simp: P_def)
  have "indexed_fields pre (\<lambda>x. prefixed ''.'' (g x)) xs =
      concat (map ?block (enumerate 0 (take i xs))) @ ?block (i, xs ! i) @
      concat (map ?block (enumerate (Suc i) (drop (Suc i) xs)))"
    unfolding indexed_fields_def using enumerate_split [OF assms(2), of 0] by simp
  moreover have "filter (\<lambda>f. in_group P (fst f)) (?block (i, xs ! i)) = ?block (i, xs ! i)"
    using assms(3) by (auto simp: filter_id_conv prefixed_def P_def in_group_iff)
  moreover have "map (apfst (drop (length P))) (?block (i, xs ! i)) = g (xs ! i)"
    by (auto simp: prefixed_def P_def intro!: map_idI)
  moreover have "filter (\<lambda>f. in_group P (fst f)) (concat (map ?block (enumerate 0 (take i xs)))) = []"
    by (rule other) (auto simp: in_set_enumerate_eq)
  moreover have "filter (\<lambda>f. in_group P (fst f)) (concat (map ?block (enumerate (Suc i) (drop (Suc i) xs)))) = []"
    by (rule other) (auto simp: in_set_enumerate_eq)
  ultimately show ?thesis by simp
qed

lemma group_none:
  assumes "\<forall>k \<in> fst ` set fs. head_of k \<noteq> pre \<or> k = pre @ ''.count''" "CHR ''.'' \<notin> set pre"
  shows "filter (\<lambda>f. in_group (pre @ ''.'' @ dec_digits i @ ''.'') (fst f)) fs = []"
proof -
  have "\<not> in_group (pre @ ''.'' @ dec_digits i @ ''.'') k" if key: "k \<in> fst ` set fs" for k
  proof
    assume "in_group (pre @ ''.'' @ dec_digits i @ ''.'') k"
    then obtain l where l: "k = pre @ ''.'' @ dec_digits i @ ''.'' @ l" unfolding in_group_iff by auto
    then have "head_of k = pre" using assms(2) by (simp add: head_of_def cut_at)
    then have "k = pre @ ''.count''" using assms(1) key by blast
    then show False using l by simp
  qed
  then show ?thesis by (auto simp: filter_empty_conv)
qed

section \<open>Paths\<close>

lemma segment_dotted: "dotted segment_fields"
  by (auto simp: dotted_def segment_fields_def)

lemma reads_path:
  assumes d: "distinct (map fst fs)" and sub: "set (encode_path q) \<subseteq> set fs" and n: "length (pd_segments q) < 2 ^ 64"
  shows "reads fs [] decode_path
    (if list_all (\<lambda>s. ref_encodable (seg_resource s)) (pd_segments q) then Some q else None)
    (fst ` set (encode_path q))"
proof -
  have count: "(''seg'' @ ''.count'', count_text (pd_segments q)) \<in> set fs" using sub by (auto simp: encode_path_def)
  have part: "set (indexed_fields ''seg'' segment_fields (pd_segments q)) \<subseteq> set fs" using sub by (auto simp: encode_path_def)
  have look: "map_of fs ''channel'' = Some (hex_encode (pd_channel q))"
    "map_of fs ''channel_generation'' = Some (to_decimal (pd_channel_generation q))"
    "map_of fs ''direction'' = Some (direction_to_string (pd_direction q))"
    "map_of fs ''route_origin'' = Some (pd_route_origin q)"
    "map_of fs ''seg.count'' = Some (count_text (pd_segments q))"
    using sub d by (auto simp: encode_path_def intro: map_of_is_SomeI)
  have segment: "reads fs [] (decode_segment i) (if ref_encodable (seg_resource s) then Some s else None)
      {indexed_key ''seg'' i ''role'', indexed_key ''seg'' i ''resource'', indexed_key ''seg'' i ''generation''}"
    if i: "i < length (pd_segments q)" and s: "s = pd_segments q ! i" for i s
  proof -
    note key = lookup_indexed [OF d part i, folded s, unfolded segment_fields_def]
    have "map_of fs (indexed_key ''seg'' i ''role'') = Some (role_to_string (seg_role s))"
      "map_of fs (indexed_key ''seg'' i ''resource'') = Some (ref_to_string (seg_resource s))"
      "map_of fs (indexed_key ''seg'' i ''generation'') = Some (to_decimal (seg_generation s))"
      using key [of "''.role''" "role_to_string (seg_role s)"] key [of "''.resource''" "ref_to_string (seg_resource s)"]
        key [of "''.generation''" "to_decimal (seg_generation s)"] by (simp_all add: indexed_key_def)
    then show ?thesis
      unfolding decode_segment_def value_readers
      by (intro reads_conseq [OF reads_then [OF reads_parsed reads_then [OF reads_parsed reads_then [OF reads_u64 reads_done]]]])
        (auto simp: d split: if_splits)
  qed
  have segments: "reads fs [] (read_loop m decode_segment)
      (if list_all (\<lambda>s. ref_encodable (seg_resource s)) (pd_segments q) then Some (pd_segments q) else None)
      (fst ` set (indexed_fields ''seg'' segment_fields (pd_segments q)))"
    if m: "Option.bind (map_of fs ([] @ ''seg'' @ ''.count'')) parse_u64 = Some m" for m
  proof (rule reads_conseq [OF reads_vector])
    show "unat m = length (pd_segments q)" by (rule count_round_trip [OF d count n m])
    show "reads fs [] (decode_segment i)
        ((\<lambda>s. if ref_encodable (seg_resource s) then Some s else None) (pd_segments q ! i))
        {indexed_key ''seg'' i ''role'', indexed_key ''seg'' i ''resource'', indexed_key ''seg'' i ''generation''}"
      if "i < length (pd_segments q)" for i using segment [OF that refl] by simp
    show "fst ` set (indexed_fields ''seg'' segment_fields (pd_segments q)) \<subseteq> (\<Union>i < length (pd_segments q).
        {indexed_key ''seg'' i ''role'', indexed_key ''seg'' i ''resource'', indexed_key ''seg'' i ''generation''})"
      unfolding subset_iff keys_indexed by (auto simp: indexed_key_def segment_fields_def)
  qed (simp add: those_if)
  show ?thesis
    unfolding decode_path_def value_readers
    by (rule reads_conseq, (rule segments reads_rules d | assumption)+)
      (auto simp: look encode_path_def count_text_def split: if_splits)
qed

section \<open>Connectivity\<close>

lemma reads_bounded [reads_rules]:
  assumes "distinct (map fst fs)"
  shows "reads fs p (bounded_count k b)
    (Option.bind (Option.bind (map_of fs (p @ k @ ''.count'')) parse_u64) (\<lambda>n. if unat n > b then None else Some n))
    {p @ k @ ''.count''}"
  unfolding bounded_count_def
  by (rule reads_conseq, (rule reads_rules assms)+) (auto split: option.splits bind_splits if_splits)

lemma bounded_value: "Option.bind x (\<lambda>n. if unat n > b then None else Some n) = Some m \<Longrightarrow> x = Some m"
  by (auto split: bind_splits if_splits)

lemma unat_count [simp]: "length xs < 2 ^ 64 \<Longrightarrow> unat (of_nat (length xs) :: u64) = length xs"
  by (simp add: unat_of_nat take_bit_nat_eq_self)

definition requirement_fields :: "IntentRequirements \<Rightarrow> field list" where
  "requirement_fields q =
     [(''require_capability'', flag_text (require_capability_evidence q)),
      (''require_operational'', flag_text (require_operational_evidence q)),
      (''require_attachment'', flag_text (require_attachment_evidence q)),
      (''allow_unsupported_advisory'', flag_text (allow_unsupported_advisory q)),
      (''additional.count'', count_text (additional_required_kinds q))] @
     indexed_fields ''additional'' (\<lambda>k. [([], evidence_kind_to_string k)]) (additional_required_kinds q)"

lemma reads_requirements:
  assumes d: "distinct (map fst fs)" and sub: "set (requirement_fields q) \<subseteq> set fs"
    and n: "length (additional_required_kinds q) < 2 ^ 64"
  shows "reads fs [] decode_requirements
    (if length (additional_required_kinds q) > kEvidenceKindCount then None else Some q)
    (fst ` set (requirement_fields q))"
proof -
  have kinds: "reads fs [] (read_loop m (\<lambda>i. require_parsed evidence_kind_from_string (indexed_key ''additional'' i [])))
      (those (map (\<lambda>k. evidence_kind_from_string (evidence_kind_to_string k)) (additional_required_kinds q)))
      (fst ` set (indexed_fields ''additional'' (\<lambda>k. [([], evidence_kind_to_string k)]) (additional_required_kinds q)))"
    if "Option.bind (Option.bind (map_of fs ([] @ ''additional'' @ ''.count'')) parse_u64)
      (\<lambda>n. if unat n > kEvidenceKindCount then None else Some n) = Some m" for m
    by (rule reads_values [OF d _ n reads_parsed_value [OF d] bounded_value [OF that]])
      (use sub in \<open>auto simp: requirement_fields_def\<close>)
  have look: "map_of fs ''require_capability'' = Some (flag_text (require_capability_evidence q))"
    "map_of fs ''require_operational'' = Some (flag_text (require_operational_evidence q))"
    "map_of fs ''require_attachment'' = Some (flag_text (require_attachment_evidence q))"
    "map_of fs ''allow_unsupported_advisory'' = Some (flag_text (allow_unsupported_advisory q))"
    "map_of fs ''additional.count'' = Some (count_text (additional_required_kinds q))"
    using sub d by (auto simp: requirement_fields_def intro: map_of_is_SomeI)
  show ?thesis
    unfolding decode_requirements_def
    by (rule reads_conseq, (rule kinds reads_rules d | assumption)+)
      (use n in \<open>auto simp: look requirement_fields_def count_text_def split: if_splits\<close>)
qed

text \<open>The fields of a record around its history.\<close>

definition connectivity_front :: "string \<Rightarrow> ConnectivityRecord \<Rightarrow> field list" where
  "connectivity_front detail r =
     [(''id'', hex_encode (cr_id r)), (''name'', cr_name r), (''owner'', cr_owner r),
      (''state'', state_to_string (cr_state r)), (''generation'', to_decimal (cr_generation r)),
      (''created_tick'', to_decimal (cr_created_tick r)), (''updated_tick'', to_decimal (cr_updated_tick r)),
      (''activated_tick'', to_decimal (cr_activated_tick r)), (''retired_tick'', to_decimal (cr_retired_tick r)),
      (''last_refusal'', refusal_to_string (cr_last_refusal r)), (''last_refusal_detail'', detail),
      (''identity'', digest_to_string (cp_identity (cr_canonical r)))] @
     encode_path (cr_path r) @ prefixed ''authority_'' (encode_authority (cr_authority r)) @
     [(''authority_confirmed'', flag_text (cr_authority_confirmed r)),
      (''reservation'', hex_encode (cr_reservation r)), (''has_reservation'', flag_text (cr_has_reservation r)),
      (''reservation_expiry'', to_decimal (cr_reservation_expiry r)),
      (''activation_digest'', digest_to_string (cr_activation_digest r)),
      (''activation_attempt'', hex_encode (cr_activation_attempt r)),
      (''transitions_dropped'', to_decimal (of_nat (cr_transitions_dropped r))),
      (''history.count'', count_text (cr_history r))]"

definition history_fields :: "(nat \<Rightarrow> string) \<Rightarrow> TransitionRecord list \<Rightarrow> field list" where
  "history_fields nt ts =
     indexed_fields ''history'' (\<lambda>e. prefixed ''.'' (case e of (i, t) \<Rightarrow> encode_transition (nt i) t)) (enumerate 0 ts)"

definition connectivity_back :: "ConnectivityRecord \<Rightarrow> field list" where
  "connectivity_back r =
     (''attempt_log.count'', count_text (cr_attempt_log r)) #
     indexed_fields ''attempt_log'' (\<lambda>a. [([], hex_encode a)]) (cr_attempt_log r) @
     requirement_fields (cr_requirements r)"

lemma connectivity_split:
  "encode_connectivity detail nt r =
     connectivity_front detail r @ history_fields nt (cr_history r) @ connectivity_back r"
proof -
  have "(\<lambda>(i, t). prefixed ''.'' (encode_transition (nt i) t)) =
      (\<lambda>e. prefixed ''.'' (case e of (i, t) \<Rightarrow> encode_transition (nt i) t))"
    by (rule ext) (simp split: prod.split)
  then show ?thesis
    by (simp only: encode_connectivity_def connectivity_front_def history_fields_def connectivity_back_def
        requirement_fields_def append_assoc append_Cons append_Nil)
qed

text \<open>Where a key can occur is read off its first part.\<close>

definition heads_in :: "string set \<Rightarrow> field list \<Rightarrow> bool" where
  "heads_in H fs \<longleftrightarrow> list_all (\<lambda>f. head_of (fst f) \<in> H) fs"

lemma heads_in_simps [simp]:
  "heads_in H []" "heads_in H ((k, v) # fs) \<longleftrightarrow> head_of k \<in> H \<and> heads_in H fs"
  "heads_in H (fs @ gs) \<longleftrightarrow> heads_in H fs \<and> heads_in H gs"
  by (simp_all add: heads_in_def)

lemma heads_in_indexed: "CHR ''.'' \<notin> set pre \<Longrightarrow> pre \<in> H \<Longrightarrow> heads_in H (indexed_fields pre f xs)"
  using head_indexed [of _ pre f xs] by (force simp: heads_in_def list_all_iff)

lemma heads_in_key: "heads_in H fs \<Longrightarrow> k \<in> fst ` set fs \<Longrightarrow> head_of k \<in> H"
  by (auto simp: heads_in_def list_all_iff)

lemma path_heads: "heads_in {''seg'', ''channel'', ''channel_generation'', ''direction'', ''route_origin''} (encode_path q)"
  by (simp add: encode_path_def heads_in_indexed) (simp add: head_of_def)

lemma path_distinct: "distinct (map fst (encode_path q))"
  using distinct_indexed [OF segment_dotted, of "pd_segments q" "''seg''"]
    count_not_indexed [of "''seg''" segment_fields "pd_segments q"]
  by (simp add: encode_path_def disjoint_indexed head_of_def) (simp add: segment_fields_def)

lemma authority_heads: "heads_in (append ''authority_'' ` {''grant'', ''holder'', ''epoch'', ''generation'', ''scope_kind'',
    ''scope_site'', ''incarnation_boot'', ''incarnation_instance'', ''incarnation_host''})
    (prefixed ''authority_'' (encode_authority t))"
  by (cases "scope_kind (tok_scope t)")
    (simp_all add: encode_authority_def write_scope_def write_incarnation_def head_of_def)

lemma heads_in_mono: "heads_in H fs \<Longrightarrow> H \<subseteq> G \<Longrightarrow> heads_in G fs"
  by (auto simp: heads_in_def list_all_iff)

lemma front_heads:
  "heads_in (- {''history'', ''attempt_log'', ''additional'', ''require_capability'', ''require_operational'',
     ''require_attachment'', ''allow_unsupported_advisory'', ''type''}) (butlast (connectivity_front detail r))"
  (is "heads_in ?H _")
  using heads_in_mono [OF path_heads [of "cr_path r"], of ?H] heads_in_mono [OF authority_heads [of "cr_authority r"], of ?H]
  by (simp add: connectivity_front_def butlast_append head_of_def)

lemma back_heads: "heads_in
    {''attempt_log'', ''additional'', ''require_capability'', ''require_operational'', ''require_attachment'',
     ''allow_unsupported_advisory''} (connectivity_back r)"
  by (simp add: connectivity_back_def requirement_fields_def heads_in_indexed) (simp add: head_of_def)

lemma heads_disjoint: "heads_in H fs \<Longrightarrow> heads_in G gs \<Longrightarrow> H \<inter> G = {} \<Longrightarrow> fst ` set fs \<inter> fst ` set gs = {}"
  using heads_in_key by blast

lemma heads_absent: "heads_in H fs \<Longrightarrow> head_of k \<notin> H \<Longrightarrow> k \<notin> fst ` set fs"
  using heads_in_key by blast

lemma authority_distinct: "distinct (map fst (prefixed ''authority_'' (encode_authority t)))"
  by (cases "scope_kind (tok_scope t)")
    (simp_all add: encode_authority_def write_scope_def write_incarnation_def)

lemma authority_path_disjoint:
  "fst ` set (encode_path q) \<inter> fst ` set (prefixed ''authority_'' (encode_authority t)) = {}"
  by (rule heads_disjoint [OF path_heads authority_heads]) auto

lemma authority_absent: "k \<notin> append ''authority_'' ` {''grant'', ''holder'', ''epoch'', ''generation'', ''scope_kind'',
    ''scope_site'', ''incarnation_boot'', ''incarnation_instance'', ''incarnation_host''} \<Longrightarrow>
  k \<notin> fst ` set (prefixed ''authority_'' (encode_authority t))"
  by (cases "scope_kind (tok_scope t)")
    (simp_all add: encode_authority_def write_scope_def write_incarnation_def)

lemma path_absent: "head_of k \<notin> {''seg'', ''channel'', ''channel_generation'', ''direction'', ''route_origin''} \<Longrightarrow>
  k \<notin> fst ` set (encode_path q)"
  by (rule heads_absent [OF path_heads])

lemma front_distinct: "distinct (map fst (connectivity_front detail r))"
  by (simp add: connectivity_front_def path_distinct authority_distinct authority_path_disjoint)
    (simp add: path_absent authority_absent head_of_def)

lemma history_distinct: "distinct (map fst (history_fields nt ts))"
  unfolding history_fields_def
  by (rule distinct_indexed) (auto simp: dotted_def fst_prefixed encode_transition_def)

lemma history_heads: "heads_in {''history''} (history_fields nt ts)"
  unfolding history_fields_def by (rule heads_in_indexed) simp_all

lemma back_distinct: "distinct (map fst (connectivity_back r))"
  using distinct_indexed [OF dotted_single, of "cr_attempt_log r" hex_encode "''attempt_log''"]
    distinct_indexed [OF dotted_single, of "additional_required_kinds (cr_requirements r)" evidence_kind_to_string "''additional''"]
    count_not_indexed [of "''attempt_log''" "\<lambda>a. [([], hex_encode a)]" "cr_attempt_log r"]
    count_not_indexed [of "''additional''" "\<lambda>k. [([], evidence_kind_to_string k)]" "additional_required_kinds (cr_requirements r)"]
  by (simp add: connectivity_back_def requirement_fields_def disjoint_indexed disjoint_vectors head_of_def)

lemma front_snoc: "connectivity_front detail r =
    butlast (connectivity_front detail r) @ [(''history.count'', count_text (cr_history r))]"
  by (simp add: connectivity_front_def butlast_append)

lemma connectivity_distinct: "distinct (map fst ((''type'', t) # encode_connectivity detail nt r))"
proof -
  let ?front = "butlast (connectivity_front detail r)"
  let ?count = "(''history.count'', count_text (cr_history r))"
  have "fst ` set ?front \<inter> fst ` set (history_fields nt (cr_history r)) = {}"
    by (rule heads_disjoint [OF front_heads history_heads]) auto
  moreover have "fst ` set ?front \<inter> fst ` set (connectivity_back r) = {}"
    by (rule heads_disjoint [OF front_heads back_heads]) auto
  moreover have "fst ` set (history_fields nt (cr_history r)) \<inter> fst ` set (connectivity_back r) = {}"
    by (rule heads_disjoint [OF history_heads back_heads]) auto
  moreover have "''history.count'' \<notin> fst ` set (history_fields nt (cr_history r))"
    using count_not_indexed [of "''history''"] by (simp add: history_fields_def)
  moreover have "''history.count'' \<notin> fst ` set (connectivity_back r)"
    by (rule heads_absent [OF back_heads]) (simp add: head_of_def)
  moreover have "''type'' \<notin> fst ` set (connectivity_back r)" "''type'' \<notin> fst ` set (history_fields nt (cr_history r))"
    "''type'' \<notin> fst ` set ?front"
    using heads_absent [OF back_heads] heads_absent [OF history_heads] heads_absent [OF front_heads]
    by (simp_all add: head_of_def)
  ultimately show ?thesis
    using front_distinct [of detail r] history_distinct [of nt "cr_history r"] back_distinct [of r]
    unfolding connectivity_split by (subst (asm) front_snoc, subst front_snoc) auto
qed

text \<open>The group of a transition holds exactly the fields of that transition.\<close>

lemma history_group:
  fixes detail nt r t i
  defines "P \<equiv> ''history'' @ ''.'' @ dec_digits i @ ''.''"
  assumes "i < length (cr_history r)"
  shows "map (apfst (drop (length P))) (filter (\<lambda>f. in_group P (fst f)) ((''type'', t) # encode_connectivity detail nt r)) =
    encode_transition (nt i) (cr_history r ! i)"
proof -
  let ?front = "(''type'', t) # butlast (connectivity_front detail r) @ [(''history.count'', count_text (cr_history r))]"
  have "filter (\<lambda>f. in_group P (fst f)) ?front = []"
    unfolding P_def by (rule group_none) (auto simp: head_of_def [of "''type''"] dest!: heads_in_key [OF front_heads imageI])
  moreover have "filter (\<lambda>f. in_group P (fst f)) (connectivity_back r) = []"
    unfolding P_def by (rule group_none) (auto dest!: heads_in_key [OF back_heads imageI])
  moreover have "map (apfst (drop (length P))) (filter (\<lambda>f. in_group P (fst f)) (history_fields nt (cr_history r))) =
      encode_transition (nt i) (cr_history r ! i)"
  proof -
    have entry: "enumerate 0 (cr_history r) ! i = (i, cr_history r ! i)" using assms(2) by (simp add: nth_enumerate_eq)
    show ?thesis
      using group_of_indexed [of i "enumerate 0 (cr_history r)" "\<lambda>e. case e of (i, t) \<Rightarrow> encode_transition (nt i) t" "''history''"]
        assms(2) unfolding entry prod.case P_def history_fields_def by (simp add: encode_transition_def [of "nt i" "cr_history r ! i"])
  qed
  ultimately show ?thesis unfolding connectivity_split by (subst front_snoc) (auto split: if_splits)
qed

lemma reads_group_value:
  fixes pre :: string and i :: nat
  defines "P \<equiv> pre @ ''.'' @ dec_digits i @ ''.''"
  assumes "map (apfst (drop (length P))) (filter (\<lambda>f. in_group P (fst f)) fs) = sub" "sub \<noteq> []"
  shows "reads fs [] (read_group pre i) (Some (new_reader pre sub)) {k. in_group P k}"
  using reads_group [of fs "[]" pre i] assms(3)
  unfolding append_Nil append_assoc P_def assms(2) [unfolded P_def] by (simp only: if_False)

lemma reads_transition:
  assumes "i < length (cr_history r)"
  shows "reads ((''type'', t) # encode_connectivity detail nt r) []
    (read_then (read_group ''history'' i) (read_sub decode_transition))
    (if refusal_encodable (tr_refusal (cr_history r ! i)) then Some (cr_history r ! i) else None)
    {k. in_group (''history.'' @ dec_digits i @ ''.'') k}"
proof -
  let ?sub = "encode_transition (nt i) (cr_history r ! i)"
  have sub: "?sub \<noteq> []" by (simp add: encode_transition_def)
  have whole: "(case read_whole decode_transition (new_reader ''history'' ?sub) of Inl e \<Rightarrow> None | Inr x \<Rightarrow> Some x) =
      (if refusal_encodable (tr_refusal (cr_history r ! i)) then Some (cr_history r ! i) else None)"
    using read_whole_reads [OF decode_transition_reads [of "nt i" "cr_history r ! i"], of "''history''"]
    by (auto split: option.splits if_splits)
  have "reads ((''type'', t) # encode_connectivity detail nt r) [] (read_group ''history'' i)
      (Some (new_reader ''history'' ?sub)) {k. in_group (''history.'' @ dec_digits i @ ''.'') k}"
    using reads_group_value [OF history_group [OF assms, of t detail nt] sub] by simp
  from reads_then [OF this reads_sub] have "reads ((''type'', t) # encode_connectivity detail nt r) []
      (read_then (read_group ''history'' i) (read_sub decode_transition))
      (Option.bind (Some (new_reader ''history'' ?sub))
        (\<lambda>s. case read_whole decode_transition s of Inl e \<Rightarrow> None | Inr x \<Rightarrow> Some x))
      ({k. in_group (''history.'' @ dec_digits i @ ''.'') k} \<union> (case Some (new_reader ''history'' ?sub) of None \<Rightarrow> {} | Some x \<Rightarrow> {}))" .
  then show ?thesis using whole by simp
qed

lemma reads_history:
  fixes r t detail nt lim
  defines "fs \<equiv> (''type'', t) # encode_connectivity detail nt r"
  assumes n: "Option.bind (Option.bind (map_of fs ([] @ ''history'' @ ''.count'')) parse_u64)
      (\<lambda>n. if unat n > max_attempt_history_per_object lim then None else Some n) = Some n"
    and size: "length (cr_history r) < 2 ^ 64"
  shows "reads fs [] (read_loop n (\<lambda>i. read_then (read_group ''history'' i) (read_sub decode_transition)))
      (if list_all (\<lambda>t. refusal_encodable (tr_refusal t)) (cr_history r) then Some (cr_history r) else None)
      (fst ` set (history_fields nt (cr_history r)))"
proof (rule reads_conseq [OF reads_vector])
  show "unat n = length (cr_history r)"
    by (rule count_round_trip [OF _ _ size bounded_value [OF n]])
      (simp_all only: fs_def connectivity_distinct, simp add: encode_connectivity_def)
  show "reads fs [] (read_then (read_group ''history'' i) (read_sub decode_transition))
      ((\<lambda>t. if refusal_encodable (tr_refusal t) then Some t else None) (cr_history r ! i))
      {k. in_group (''history.'' @ dec_digits i @ ''.'') k}" if "i < length (cr_history r)" for i
    unfolding fs_def by (rule reads_transition [OF that])
  show "fst ` set (history_fields nt (cr_history r)) \<subseteq>
      (\<Union>i < length (cr_history r). {k. in_group (''history.'' @ dec_digits i @ ''.'') k})"
    unfolding history_fields_def subset_iff keys_indexed
    by (auto simp: in_group_iff nth_enumerate_eq fst_prefixed encode_transition_def)
qed (simp add: those_if)

lemma decode_connectivity_reads:
  assumes "length (pd_segments (cr_path r)) < 2 ^ 64" "length (cr_history r) < 2 ^ 64" "length (cr_attempt_log r) < 2 ^ 64"
    "length (additional_required_kinds (cr_requirements r)) < 2 ^ 64" "cr_transitions_dropped r < 2 ^ 64"
  shows "reads ((''type'', t) # encode_connectivity detail nt r) [] (decode_connectivity lim)
    (reload_connectivity lim r) (fst ` set (encode_connectivity detail nt r))"
proof -
  define fs where fs_def: "fs = (''type'', t) # encode_connectivity detail nt r"
  have d: "distinct (map fst fs)" unfolding fs_def by (rule connectivity_distinct)
  note parts = fs_def [unfolded connectivity_split]
  note lookups = lookup_all [OF d fs_def, unfolded encode_connectivity_def, simplified]
  have path: "reads fs [] decode_path
      (if list_all (\<lambda>s. ref_encodable (seg_resource s)) (pd_segments (cr_path r)) then Some (cr_path r) else None)
      (fst ` set (encode_path (cr_path r)))"
    by (rule reads_path [OF d _ assms(1)]) (auto simp: fs_def encode_connectivity_def)
  have authority: "reads fs [] (read_scoped ''authority_'' decode_authority) (Some (reload_token (cr_authority r)))
      (fst ` set (prefixed ''authority_'' (encode_authority (cr_authority r))))"
    by (rule reads_scoped, unfold append_Nil, rule reads_authority [OF d]) (auto simp: fs_def encode_connectivity_def)
  note history = reads_history [of t detail nt r lim, folded fs_def, OF _ assms(2)]
  have attempts: "reads fs [] (read_loop n (\<lambda>i. require_parsed parse_hex_u64 (indexed_key ''attempt_log'' i [])))
      (those (map (\<lambda>a. parse_hex_u64 (hex_encode a)) (cr_attempt_log r)))
      (fst ` set (indexed_fields ''attempt_log'' (\<lambda>a. [([], hex_encode a)]) (cr_attempt_log r)))"
    if "Option.bind (Option.bind (map_of fs ([] @ ''attempt_log'' @ ''.count'')) parse_u64)
      (\<lambda>n. if unat n > max_attempt_history_per_object lim then None else Some n) = Some n" for n
    by (rule reads_values [OF d _ assms(3) reads_parsed_value [OF d] bounded_value [OF that]])
      (auto simp: fs_def encode_connectivity_def)
  have requirements: "reads fs [] decode_requirements
      (if length (additional_required_kinds (cr_requirements r)) > kEvidenceKindCount then None else Some (cr_requirements r))
      (fst ` set (requirement_fields (cr_requirements r)))"
    by (rule reads_requirements [OF d _ assms(4)]) (auto simp: parts connectivity_back_def)
  have hist: "unat (of_nat (length (cr_history r)) :: u64) = length (cr_history r)"
    and att: "unat (of_nat (length (cr_attempt_log r)) :: u64) = length (cr_attempt_log r)"
    using assms(2,3) by simp_all
  have dropped: "unat (of_nat (cr_transitions_dropped r) :: u64) = cr_transitions_dropped r"
    using assms(5) by (simp add: unat_of_nat take_bit_nat_eq_self)
  have keys: "fst ` set (encode_connectivity detail nt r) =
      fst ` set (connectivity_front detail r) \<union> fst ` set (history_fields nt (cr_history r)) \<union>
      insert ''attempt_log.count'' (fst ` set (indexed_fields ''attempt_log'' (\<lambda>a. [([], hex_encode a)]) (cr_attempt_log r))) \<union>
      fst ` set (requirement_fields (cr_requirements r))"
    by (auto simp: connectivity_split connectivity_back_def)
  show ?thesis
    unfolding decode_connectivity_def value_readers fs_def [symmetric] read_canonical_def
    apply (rule reads_conseq)
    apply ((rule path authority history attempts requirements reads_rules d | assumption)+)
    apply (simp add: lookups count_text_def dropped reload_connectivity_def hist att split: sum.split)
    apply (simp add: lookups count_text_def dropped reload_connectivity_def hist att keys connectivity_front_def image_Un
        split: sum.splits if_splits)
    apply blast
    done
qed

end
