(* ===== verification/Payloads.thy ===== *)
theory Payloads
  imports Bundle
begin

text \<open>
  A bundle through the text: the text of an encoded bundle, what decoding it gives, and that applying
  the decoded fields is applying the items. The bounds of the reader are those of \<open>bundle_decodable\<close>, and
  an item within them has vectors of machine size.
\<close>

section \<open>Lengths\<close>

lemma length_indexed_sum: "length (indexed_fields pre f xs) = sum_list (map (\<lambda>x. length (f x)) xs)"
proof (induction xs rule: rev_induct)
  case (snoc x xs)
  have "indexed_fields pre f (xs @ [x]) =
      indexed_fields pre f xs @ prefixed (pre @ ''.'' @ dec_digits (length xs)) (f x)"
    by (simp add: indexed_fields_def enumerate_append_eq)
  then show ?case using snoc by simp
qed (simp add: indexed_fields_def)

lemma length_indexed: "(\<And>x. x \<in> set xs \<Longrightarrow> length (f x) = c) \<Longrightarrow> length (indexed_fields pre f xs) = c * length xs"
  unfolding length_indexed_sum by (induction xs) auto

lemma length_scope: "length (write_scope p s) = scope_fields s"
  by (cases "scope_kind s") (simp_all add: write_scope_def scope_fields_def)

lemma length_encode_item: "Suc (length (encode_item x i)) = item_fields i"
proof (cases i)
  case (ConnectivityItem r)
  have "length (indexed_fields ''seg'' segment_fields (pd_segments (cr_path r))) = 3 * length (pd_segments (cr_path r))"
    by (rule length_indexed) (simp add: segment_fields_def)
  moreover have "length (indexed_fields ''history'' (\<lambda>(j, t). prefixed ''.'' (encode_transition (it_history x j) t))
      (enumerate 0 (cr_history r))) = 9 * length (enumerate 0 (cr_history r))"
    by (rule length_indexed) (auto simp: encode_transition_def)
  ultimately show ?thesis
    using ConnectivityItem
    by (simp add: encode_connectivity_def encode_path_def encode_authority_def write_incarnation_def length_scope
        length_indexed_single)
qed (simp_all add: encode_runtime_def encode_resource_def encode_evidence_def encode_reservation_def encode_grant_def
    encode_attempt_def encode_fence_def write_incarnation_def length_scope length_indexed_single fence_fields_def Let_def)

section \<open>Keys\<close>

definition plain_text :: "string \<Rightarrow> bool" where
  "plain_text k \<longleftrightarrow> CHR ''='' \<notin> set k \<and> newline \<notin> set k"

definition plain_fields :: "field list \<Rightarrow> bool" where
  "plain_fields fs \<longleftrightarrow> list_all (\<lambda>f. plain_key (fst f)) fs"

lemma plain_fields_simps [simp]:
  "plain_fields []" "plain_fields ((k, v) # fs) \<longleftrightarrow> plain_key k \<and> plain_fields fs"
  "plain_fields (fs @ gs) \<longleftrightarrow> plain_fields fs \<and> plain_fields gs"
  by (simp_all add: plain_fields_def)

lemma plain_fields_prefixed: "plain_text p \<Longrightarrow> plain_fields fs \<Longrightarrow> plain_fields (prefixed p fs)"
  by (auto simp: plain_fields_def plain_text_def plain_key_def prefixed_def list_all_iff)

lemma plain_digits: "plain_text (dec_digits n)"
  using dec_digits_chars [of _ n] by (fastforce simp: plain_text_def)

lemma plain_indexed:
  assumes "plain_key pre" "\<And>x k. x \<in> set xs \<Longrightarrow> k \<in> fst ` set (f x) \<Longrightarrow> plain_text k"
  shows "plain_fields (indexed_fields pre f xs)"
proof -
  have "plain_key k" if key: "k \<in> fst ` set (indexed_fields pre f xs)" for k
  proof -
    obtain i l where i: "i < length xs" "l \<in> fst ` set (f (xs ! i))" "k = pre @ ''.'' @ dec_digits i @ l"
      using key unfolding keys_indexed by blast
    then show ?thesis
      using assms(1) assms(2) [OF nth_mem [OF i(1)] i(2)] plain_digits [of i] by (auto simp: plain_key_def plain_text_def)
  qed
  then show ?thesis by (auto simp: plain_fields_def list_all_iff)
qed

lemma plain_values: "plain_key pre \<Longrightarrow> plain_fields (indexed_fields pre (\<lambda>x. [([], enc x)]) xs)"
  by (rule plain_indexed) (simp_all add: plain_text_def)

lemma plain_scope: "plain_text p \<Longrightarrow> plain_fields (write_scope p s)"
  by (cases "scope_kind s") (auto simp: write_scope_def plain_text_def plain_key_def)

lemma plain_fence: "plain_fields (encode_fence detail f)"
  by (simp add: encode_fence_def plain_scope plain_text_def plain_key_def)

lemma plain_transition: "plain_fields (encode_transition detail t)"
  by (simp add: encode_transition_def plain_key_def)

lemma plain_fields_text: "plain_fields fs \<Longrightarrow> k \<in> fst ` set fs \<Longrightarrow> plain_text k"
  by (auto simp: plain_fields_def plain_text_def plain_key_def list_all_iff)

lemma plain_connectivity: "plain_fields (encode_connectivity detail nt r)"
proof -
  have "plain_fields (indexed_fields ''history'' (\<lambda>(i, t). prefixed ''.'' (encode_transition (nt i) t))
      (enumerate 0 (cr_history r)))"
  proof (rule plain_indexed)
    have dot: "plain_text ''.''" by (simp add: plain_text_def)
    fix e k
    assume "k \<in> fst ` set (case e of (i, t) \<Rightarrow> prefixed ''.'' (encode_transition (nt i) t))"
    then show "plain_text k"
      by (cases e) (auto intro: plain_fields_text [OF plain_fields_prefixed [OF dot plain_transition]])
  qed (simp add: plain_key_def)
  moreover have "plain_fields (prefixed ''authority_'' (encode_authority (cr_authority r)))"
    by (rule plain_fields_prefixed)
      (simp_all add: encode_authority_def plain_scope write_incarnation_def plain_text_def plain_key_def)
  moreover have "plain_fields (encode_path (cr_path r))"
    unfolding encode_path_def by (auto simp: plain_key_def segment_fields_def plain_text_def intro!: plain_indexed)
  moreover have "plain_fields (indexed_fields ''attempt_log'' (\<lambda>a. [([], hex_encode a)]) (cr_attempt_log r))"
    "plain_fields (indexed_fields ''additional'' (\<lambda>k. [([], evidence_kind_to_string k)]) (additional_required_kinds (cr_requirements r)))"
    by (simp_all add: plain_values plain_key_def)
  ultimately show ?thesis by (simp add: encode_connectivity_def) (simp add: plain_key_def)
qed

lemma plain_grant: "plain_fields (encode_grant detail g)"
  by (simp add: encode_grant_def Let_def write_incarnation_def plain_scope plain_fields_prefixed plain_fence
      plain_text_def plain_key_def)

lemma plain_item: "plain_fields (encode_item x i)"
  by (cases i) (simp_all add: encode_runtime_def encode_evidence_def encode_resource_def encode_reservation_def
    plain_grant plain_connectivity encode_attempt_def plain_fence plain_values write_incarnation_def Let_def plain_key_def)

section \<open>The text of a bundle\<close>

definition typed_fields :: "texted \<Rightarrow> field list" where
  "typed_fields e = (''type'', item_type (snd e)) # encode_item (fst e) (snd e)"

definition bundle_fields :: "texted list \<Rightarrow> field list" where
  "bundle_fields items =
     (''commit.count'', count_text items) # indexed_fields ''commit'' (\<lambda>e. prefixed ''.'' (typed_fields e)) items"

lemma item_payload_text: "item_payload x i = render (encode_item x i)"
  by (simp add: item_payload_def write_fields_text new_writer_def)

lemma typed_distinct: "distinct (map fst (typed_fields e))"
proof (cases "snd e")
  case (EvidenceItem r)
  then show ?thesis by (simp add: typed_fields_def encode_evidence_def write_incarnation_def Let_def)
qed (simp_all only: typed_fields_def encode_item.simps item_type.simps connectivity_distinct grant_distinct fence_distinct
    reservation_distinct resource_distinct, simp_all add: encode_runtime_def encode_attempt_def)

lemma typed_plain: "plain_fields (typed_fields e)"
  by (simp add: typed_fields_def plain_item plain_key_def)

lemma length_typed: "length (typed_fields e) = item_fields (snd e)"
  using length_encode_item [of "fst e" "snd e"] by (simp add: typed_fields_def)

lemma prefixed_prefixed: "prefixed p (prefixed q fs) = prefixed (p @ q) fs"
  by (induction fs) simp_all

lemma write_item_text:
  assumes "tw_prefixes w = []"
  shows "write_item w (i, item_type (snd e), item_payload (fst e) (snd e)) =
    w\<lparr>tw_text := tw_text w @ render (prefixed (''commit'' @ ''.'' @ dec_digits i) (prefixed ''.'' (typed_fields e)))\<rparr>"
proof -
  have "\<forall>f \<in> set (encode_item (fst e) (snd e)). plain_key (fst f)"
    using plain_item [of "fst e" "snd e"] by (simp add: plain_fields_def list_all_iff)
  then show ?thesis
    using assms
    by (simp add: write_item_def Let_def append_block_def item_payload_text block_lines_render write_field_def
        compose_prefixes_def typed_fields_def indexed_key_def prefixed_prefixed)
qed

lemma foldl_write_item:
  assumes "tw_prefixes w = []"
  shows "foldl write_item w (enumerate n (map (\<lambda>(x, i). (item_type i, item_payload x i)) items)) =
    w\<lparr>tw_text := tw_text w @ render (concat (map (\<lambda>(i, e). prefixed (''commit'' @ ''.'' @ dec_digits i)
      (prefixed ''.'' (typed_fields e))) (enumerate n items)))\<rparr>"
  using assms
proof (induction items arbitrary: n w)
  case (Cons e items)
  show ?case
    using Cons.IH [of "write_item w (n, item_type (snd e), item_payload (fst e) (snd e))" "Suc n"] Cons.prems
    by (simp add: write_item_text case_prod_beta')
qed simp

lemma encode_items_text: "encode_items kind items = record_kind_to_string kind @ newline # render (bundle_fields items)"
  unfolding encode_items_def bundle_encode_def
  by (subst foldl_write_item)
    (simp_all add: write_field_def write_token_def new_writer_def compose_prefixes_def bundle_fields_def indexed_fields_def
      count_text_def)

lemma dotted_typed: "dotted (\<lambda>e. prefixed ''.'' (typed_fields e))"
  by (auto simp: dotted_def fst_prefixed)

lemma bundle_distinct: "distinct (map fst (bundle_fields items))"
proof -
  have "distinct (map fst (prefixed ''.'' (typed_fields e)))" for e
    using typed_distinct [of e] by (simp add: prefixed_def comp_def) (simp add: distinct_map inj_on_def)
  then show ?thesis
    using distinct_indexed [OF dotted_typed, of items "''commit''"] count_not_indexed [of "''commit''"]
    by (simp add: bundle_fields_def)
qed

lemma bundle_plain: "plain_fields (bundle_fields items)"
proof -
  have dot: "plain_text ''.''" by (simp add: plain_text_def)
  have "plain_fields (indexed_fields ''commit'' (\<lambda>e. prefixed ''.'' (typed_fields e)) items)"
    by (rule plain_indexed)
      (auto simp: plain_key_def intro: plain_fields_text [OF plain_fields_prefixed [OF dot typed_plain]])
  then show ?thesis by (simp add: bundle_fields_def plain_key_def)
qed

lemma length_bundle: "length (bundle_fields items) = 1 + sum_list (map (item_fields \<circ> snd) items)"
  by (simp add: bundle_fields_def length_indexed_sum length_typed comp_def)

lemma plain_kind: "plain_key (record_kind_to_string kind)"
  by (cases kind) (simp_all add: plain_key_def)

lemma parse_bundle:
  "reader_parse (encode_items kind items) lim =
     (if length (bundle_fields items) > kMaxFields \<or> length (bundle_fields items) > max_journal_records lim
      then Inl CapacityExceeded else Inr (new_reader (record_kind_to_string kind) (bundle_fields items)))"
  unfolding encode_items_text
  by (rule reader_parse_render [OF plain_kind _ bundle_distinct])
    (use bundle_plain [of items] in \<open>simp add: plain_fields_def list_all_iff\<close>)

section \<open>Reading a bundle\<close>

text \<open>The reader of an item after its type was taken.\<close>

definition item_reader :: "texted \<Rightarrow> TextReader" where
  "item_reader e = (new_reader ''commit'' (typed_fields e))
     \<lparr>rd_consumed := True # replicate (length (encode_item (fst e) (snd e))) False\<rparr>"

lemma bundle_group:
  fixes items :: "texted list" and i :: nat
  defines "P \<equiv> ''commit'' @ ''.'' @ dec_digits i @ ''.''"
  assumes "i < length items"
  shows "map (apfst (drop (length P))) (filter (\<lambda>f. in_group P (fst f)) (bundle_fields items)) = typed_fields (items ! i)"
proof -
  have "filter (\<lambda>f. in_group P (fst f)) [(''commit.count'', count_text items)] = []"
    unfolding P_def by (rule group_none) simp_all
  moreover have "\<forall>k \<in> fst ` set (typed_fields (items ! i)). k \<noteq> []"
    using typed_plain [of "items ! i"] by (auto simp: plain_fields_def list_all_iff plain_key_def)
  ultimately show ?thesis
    using group_of_indexed [OF assms(2), of typed_fields "''commit''"]
    unfolding bundle_fields_def P_def by (simp split: if_splits)
qed

lemma reads_item:
  assumes "i < length items"
  shows "reads (bundle_fields items) [] (read_item i) (Some (item_type (snd (items ! i)), item_reader (items ! i)))
    {k. in_group (''commit'' @ ''.'' @ dec_digits i @ ''.'') k}"
proof -
  let ?sub = "typed_fields (items ! i)"
  have type: "require_string ''type'' (new_reader ''commit'' ?sub) =
      Inr (item_type (snd (items ! i)), item_reader (items ! i))"
    by (simp add: require_string_def compose_key_def compose_prefixes_def new_reader_def typed_fields_def item_reader_def)
  have "reads (bundle_fields items) [] (read_group ''commit'' i) (Some (new_reader ''commit'' ?sub))
      {k. in_group (''commit'' @ ''.'' @ dec_digits i @ ''.'') k}"
    by (rule reads_group_value [OF bundle_group [OF assms]]) (simp add: typed_fields_def)
  note group = this
  have taken: "reads (bundle_fields items) [] ((\<lambda>group rd. case require_string ''type'' group of
         Inl e \<Rightarrow> Inl e | Inr (type, group') \<Rightarrow> Inr ((type, group'), rd)) g)
      (Some (item_type (snd (items ! i)), item_reader (items ! i))) {}"
    if "Some (new_reader ''commit'' ?sub) = Some g" for g
    using that type reads_done [of "bundle_fields items" "[]" "(item_type (snd (items ! i)), item_reader (items ! i))"]
    by (auto simp: read_done_def [abs_def])
  show ?thesis
    unfolding read_item_def by (rule reads_conseq [OF reads_then [OF group taken]]) auto
qed

lemma kind_round_trip: "record_kind_from_string (record_kind_to_string kind) = kind"
  by (cases kind) (simp_all add: record_kind_from_string_def record_kinds_def)

lemma item_fields_positive: "1 \<le> item_fields i"
  by (cases i) auto

lemma items_le_fields: "length items < length (bundle_fields items)"
proof -
  have "length items \<le> sum_list (map (item_fields \<circ> snd) items)"
  proof (induction items)
    case (Cons e items)
    then show ?case using item_fields_positive [of "snd e"] by simp
  qed simp
  then show ?thesis by (simp add: length_bundle)
qed

lemma bundle_decodable_fields:
  "bundle_decodable lim (map snd items) \<longleftrightarrow>
     length (bundle_fields items) \<le> kMaxFields \<and> length (bundle_fields items) \<le> max_journal_records lim"
  using items_le_fields [of items] by (auto simp: bundle_decodable_def length_bundle kMaxFields_def Let_def)

lemma bundle_reads:
  assumes "length items < 2 ^ 64" "length items \<le> max_journal_records lim"
  shows "reads (bundle_fields items) []
    (read_then (bounded_count ''commit'' (max_journal_records lim)) (\<lambda>n. read_loop n read_item))
    (Some (map (\<lambda>e. (item_type (snd e), item_reader e)) items)) (fst ` set (bundle_fields items))"
proof -
  note d = bundle_distinct [of items]
  have count: "map_of (bundle_fields items) ''commit.count'' = Some (count_text items)" by (simp add: bundle_fields_def)
  have loop: "reads (bundle_fields items) [] (read_loop n read_item)
      (those (map (\<lambda>e. Some (item_type (snd e), item_reader e)) items))
      (\<Union>i < length items. {k. in_group (''commit'' @ ''.'' @ dec_digits i @ ''.'') k})"
    if n: "Option.bind (Option.bind (map_of (bundle_fields items) ([] @ ''commit'' @ ''.count'')) parse_u64)
      (\<lambda>n. if unat n > max_journal_records lim then None else Some n) = Some n" for n
  proof (rule reads_vector)
    show "unat n = length items"
      by (rule count_round_trip [OF d _ assms(1) bounded_value [OF n]]) (simp add: bundle_fields_def)
  qed (rule reads_item)
  have keys: "fst ` set (bundle_fields items) \<subseteq>
      insert ''commit.count'' (\<Union>i < length items. {k. in_group (''commit'' @ ''.'' @ dec_digits i @ ''.'') k})"
  proof -
    have "\<exists>j < length items. in_group (''commit'' @ ''.'' @ dec_digits j @ ''.'') k"
      if key: "k \<in> fst ` set (indexed_fields ''commit'' (\<lambda>e. prefixed ''.'' (typed_fields e)) items)" for k
    proof -
      obtain j l where j: "j < length items" "l \<in> fst ` set (typed_fields (items ! j))" "k = ''commit'' @ ''.'' @ dec_digits j @ ''.'' @ l"
        using key unfolding keys_indexed fst_prefixed by auto
      moreover have "l \<noteq> []" using j(2) typed_plain [of "items ! j"] by (auto simp: plain_fields_def list_all_iff plain_key_def)
      ultimately show ?thesis by (auto simp: in_group_iff)
    qed
    then show ?thesis by (auto simp: bundle_fields_def)
  qed
  show ?thesis
    by (rule reads_conseq, rule reads_then [OF reads_bounded [OF d] loop], assumption)
      (use assms keys in \<open>auto simp: count count_text_def\<close>)
qed

lemma decode_encode_items:
  assumes "kind \<noteq> RkUnknown"
  shows "bundle_decode (encode_items kind items) lim =
    (if bundle_decodable lim (map snd items) then Inr (kind, map (\<lambda>e. (item_type (snd e), item_reader e)) items)
     else Inl CapacityExceeded)"
proof (cases "bundle_decodable lim (map snd items)")
  case True
  then have fields: "length (bundle_fields items) \<le> kMaxFields" "length (bundle_fields items) \<le> max_journal_records lim"
    unfolding bundle_decodable_fields by auto
  have items: "length items \<le> max_journal_records lim" "length items \<le> kMaxFields"
    using fields items_le_fields [of items] by simp_all
  have "read_whole (read_then (bounded_count ''commit'' (max_journal_records lim)) (\<lambda>n. read_loop n read_item))
      (new_reader (record_kind_to_string kind) (bundle_fields items)) =
      Inr (map (\<lambda>e. (item_type (snd e), item_reader e)) items)"
    using read_whole_reads [OF bundle_reads, of items lim] items by (simp add: kMaxFields_def)
  then show ?thesis
    using True fields assms
    by (simp add: bundle_decode_def parse_bundle kind_round_trip new_reader_def [of "record_kind_to_string kind"])
next
  case False
  then show ?thesis
    unfolding bundle_decodable_fields by (auto simp: bundle_decode_def parse_bundle)
qed

section \<open>Applying a bundle\<close>

lemma apply_read_reads:
  assumes "reads (typed_fields e) [] d r K" "fst ` set (encode_item (fst e) (snd e)) \<subseteq> K"
  shows "apply_read d f (item_reader e) F = (case r of None \<Rightarrow> (StoreCorrupt, F) | Some x \<Rightarrow> (Ok, f x F))"
proof -
  let ?rd = "item_reader e"
  have rd: "rd_fields ?rd = typed_fields e" "concat (rd_prefixes ?rd) = []" "length (rd_consumed ?rd) = length (typed_fields e)"
    by (simp_all add: item_reader_def new_reader_def typed_fields_def)
  show ?thesis
  proof (cases r)
    case None
    obtain err where "d ?rd = Inl err" by (rule readsD_None [OF assms(1) [unfolded None] rd])
    then show ?thesis using None by (simp add: apply_read_def)
  next
    case (Some x)
    obtain cs where cs: "d ?rd = Inr (x, ?rd\<lparr>rd_consumed := cs\<rparr>)" "length cs = length (typed_fields e)"
        "\<And>i. i < length (typed_fields e) \<Longrightarrow> rd_consumed ?rd ! i \<or> fst (typed_fields e ! i) \<in> K \<Longrightarrow> cs ! i"
      by (rule readsD [OF assms(1) [unfolded Some] rd]) blast
    have "cs ! i" if i: "i < length (typed_fields e)" for i
    proof (cases i)
      case (Suc j)
      then have "fst (typed_fields e ! i) \<in> fst ` set (encode_item (fst e) (snd e))" using i by (simp add: typed_fields_def)
      then show ?thesis using cs(3) [OF i] assms(2) by blast
    qed (use cs(3) [OF i] in \<open>simp add: item_reader_def\<close>)
    then have "\<forall>c \<in> set cs. c" using cs(2) by (auto simp: in_set_conv_nth)
    then have "reader_finish (?rd\<lparr>rd_consumed := cs\<rparr>) = Ok" using cs(2) rd(1) by (simp add: reader_finish_def)
    then show ?thesis using Some cs(1) by (simp add: apply_read_def)
  qed
qed

text \<open>An item whose vectors have machine sizes.\<close>

lemma apply_fields_item:
  assumes "item_sized (snd e)" "item_fields (snd e) < 2 ^ 64"
  shows "apply_fields (item_type (snd e)) (item_reader e) F = apply_item (snd e) F"
proof -
  obtain x i where e: "e = (x, i)" by fastforce
  note read = apply_read_reads [of e, unfolded typed_fields_def e fst_conv snd_conv]
  show ?thesis
  proof (cases i)
    case ResetItem
    then show ?thesis
      using read [unfolded ResetItem encode_item.simps item_type.simps, OF reads_done] unfolding e apply_fields_def by simp
  next
    case (RuntimeItem s)
    then show ?thesis
      using read [unfolded RuntimeItem encode_item.simps item_type.simps, OF decode_runtime_reads subset_refl]
      unfolding e apply_fields_def by (simp)
  next
    case (ResourceItem s)
    then have "length (rs_related s) < 2 ^ 64" "length (rs_attributes s) < 2 ^ 64" "length (rs_spans s) < 2 ^ 64"
      "length (rs_endpoints s) < 2 ^ 64" using assms e by auto
    then show ?thesis
      using read [unfolded ResourceItem encode_item.simps item_type.simps, OF decode_resource_reads subset_refl] ResourceItem
      unfolding e apply_fields_def by (simp split: option.split)
  next
    case (EvidenceItem r)
    then show ?thesis
      using read [unfolded EvidenceItem encode_item.simps item_type.simps, OF decode_evidence_reads subset_refl]
      unfolding e apply_fields_def by (simp split: option.split)
  next
    case (ConnectivityItem r)
    then have "length (pd_segments (cr_path r)) < 2 ^ 64" "length (cr_history r) < 2 ^ 64" "length (cr_attempt_log r) < 2 ^ 64"
      "length (additional_required_kinds (cr_requirements r)) < 2 ^ 64" "cr_transitions_dropped r < 2 ^ 64"
      using assms e by auto
    then show ?thesis
      using read [unfolded ConnectivityItem encode_item.simps item_type.simps, OF decode_connectivity_reads subset_refl]
        ConnectivityItem unfolding e apply_fields_def by (simp split: option.split)
  next
    case (ReservationItem v)
    then have "length (rv_resources v) < 2 ^ 64" using assms e by auto
    then show ?thesis
      using read [unfolded ReservationItem encode_item.simps item_type.simps, OF decode_reservation_reads subset_refl]
        ReservationItem unfolding e apply_fields_def by (simp split: option.split)
  next
    case (GrantItem g)
    then show ?thesis
      using read [unfolded GrantItem encode_item.simps item_type.simps, OF decode_grant_reads subset_refl]
      unfolding e apply_fields_def by (simp add: Let_def)
  next
    case (AttemptItem r)
    then show ?thesis
      using read [unfolded AttemptItem encode_item.simps item_type.simps, OF decode_attempt_reads subset_refl]
      unfolding e apply_fields_def by (simp split: option.split)
  next
    case (FenceItem f)
    then show ?thesis
      using read [unfolded FenceItem encode_item.simps item_type.simps, OF decode_fence_reads subset_refl]
      unfolding e apply_fields_def by (simp)
  qed
qed

lemma apply_readers_items:
  assumes "\<forall>i \<in> set (map snd items). item_sized i \<and> item_fields i < 2 ^ 64"
  shows "apply_readers (map (\<lambda>e. (item_type (snd e), item_reader e)) items) F = apply_decoded (map snd items) F"
  using assms by (induction items arbitrary: F) (auto simp: apply_fields_item Let_def split: prod.splits)

lemma decodable_sizes: "bundle_decodable lim items \<Longrightarrow> i \<in> set items \<Longrightarrow> item_fields i < 2 ^ 64"
  using member_le_sum_list [of "item_fields i" "map item_fields items"] by (auto simp: bundle_decodable_def Let_def)

lemma replay_text_records:
  assumes "\<forall>(kind, items) \<in> set records. kind \<noteq> RkUnknown \<and> (\<forall>i \<in> set (map snd items). item_sized i)"
  shows "replay_text (map (\<lambda>(kind, items). encode_items kind items) records) F =
    replay (map (\<lambda>(kind, items). (kind, map snd items)) records) F"
  using assms
proof (induction records arbitrary: F)
  case (Cons r records)
  obtain kind items where r: "r = (kind, items)" by fastforce
  have known: "kind \<noteq> RkUnknown" and sized: "\<forall>i \<in> set (map snd items). item_sized i" using Cons.prems r by auto
  note rest = Cons.IH [unfolded ball_simps]
  show ?case
  proof (cases "bundle_decodable (limits F) (map snd items)")
    case True
    then have "apply_readers (map (\<lambda>e. (item_type (snd e), item_reader e)) items) F = apply_decoded (map snd items) F"
      using sized decodable_sizes by (intro apply_readers_items) blast
    then show ?thesis using True known Cons by (simp add: r decode_encode_items split: prod.split)
  next
    case False
    then show ?thesis using known by (simp add: r decode_encode_items)
  qed
qed simp

lemma commit_text_items:
  assumes "kind \<noteq> RkUnknown" "\<forall>i \<in> set (map snd items). item_sized i"
  shows "commit_text io kind items F = commit io kind (map snd items) F"
proof (cases "bundle_decodable (limits F) (map snd items)")
  case True
  then have same: "apply_readers (map (\<lambda>e. (item_type (snd e), item_reader e)) items) G = apply_decoded (map snd items) G" for G
    using assms(2) decodable_sizes by (intro apply_readers_items) blast
  show ?thesis using True assms(1) by (simp add: commit_text_def commit_def decode_encode_items same cong: if_cong)
next
  case False
  then show ?thesis using assms(1) by (simp add: commit_text_def commit_def decode_encode_items)
qed

end
