(* ===== verification/Durable.thy ===== *)
theory Durable
  imports StoreLaws Payloads
begin

text \<open>
  The store file as a durable log, and the journal of \<open>State\<close> as its contents. The locale states what a
  client of the store relies on: after an append, whatever happened to it, a restart finds the records
  that were there and perhaps the new one, and certainly the new one if the append was reported done.
\<close>

section \<open>A log that survives a restart\<close>

locale durable_log =
  fixes append :: "'e \<Rightarrow> 'r \<Rightarrow> 's \<Rightarrow> Status \<times> 's"
    and found :: "'s \<Rightarrow> 'r list option"
    and ready :: "'s \<Rightarrow> bool"
    and admits :: "'s \<Rightarrow> 'r \<Rightarrow> bool"
  assumes appended: "ready s \<Longrightarrow> admits s r \<Longrightarrow> append e r s = (Ok, s') \<Longrightarrow> found s = Some rs \<Longrightarrow>
      ready s' \<and> found s' = Some (rs @ [r])"
    and interrupted: "ready s \<Longrightarrow> admits s r \<Longrightarrow> append e r s = (status, s') \<Longrightarrow> found s = Some rs \<Longrightarrow>
      found s' = Some rs \<or> found s' = Some (rs @ [r])"
    and admits_kept: "ready s \<Longrightarrow> admits s r \<Longrightarrow> append e r s = (status, s') \<Longrightarrow> admits s' r' = admits s r'"
begin

text \<open>Appends in a row, up to the first that fails: the records that were acknowledged, and the state.\<close>

fun run :: "('e \<times> 'r) list \<Rightarrow> 's \<Rightarrow> 'r list \<times> 's" where
  "run [] s = ([], s)"
| "run ((e, r) # calls) s =
     (case append e r s of (status, s') \<Rightarrow>
        if status = Ok then (case run calls s' of (done, s'') \<Rightarrow> (r # done, s'')) else ([], s'))"

lemma acknowledged_survive:
  assumes "ready s" "found s = Some rs" "\<forall>(e, r) \<in> set calls. admits s r" "run calls s = (acknowledged, s')"
  shows "\<exists>more. found s' = Some (rs @ acknowledged @ more) \<and> length more \<le> 1 \<and>
    (\<exists>rest. map snd calls = acknowledged @ more @ rest)"
  using assms
proof (induction calls arbitrary: s rs acknowledged)
  case Nil
  then show ?case by simp
next
  case (Cons c calls)
  obtain e r where c: "c = (e, r)" by fastforce
  obtain status t where t: "append e r s = (status, t)" by fastforce
  have admitted: "admits s r" using Cons.prems c by auto
  show ?case
  proof (cases "status = Ok")
    case True
    obtain rest_ack where rest: "run calls t = (rest_ack, s')" "acknowledged = r # rest_ack"
      using Cons.prems(4) c t True by (auto split: prod.splits)
    have "ready t" "found t = Some (rs @ [r])" using appended [OF Cons.prems(1) admitted] t True Cons.prems(2) by auto
    moreover have "\<forall>(e, q) \<in> set calls. admits t q"
      using Cons.prems(3) admits_kept [OF Cons.prems(1) admitted t] by auto
    ultimately obtain more where "found s' = Some ((rs @ [r]) @ rest_ack @ more)" "length more \<le> 1"
        "\<exists>tail. map snd calls = rest_ack @ more @ tail"
      using Cons.IH [OF _ _ _ rest(1)] by blast
    then show ?thesis using rest c by auto
  next
    case False
    then have "acknowledged = []" "s' = t" using Cons.prems(4) c t by auto
    moreover have "found t = Some rs \<or> found t = Some (rs @ [r])"
      using interrupted [OF Cons.prems(1) admitted t Cons.prems(2)] .
    ultimately show ?thesis using c by (auto intro: exI [of _ "[]"] exI [of _ "[r]"])
  qed
qed

end

text \<open>The store file provides it.\<close>

definition store_append_call :: "StoreEnv \<Rightarrow> StoreRecord \<Rightarrow> Store \<Rightarrow> Status \<times> Store" where
  "store_append_call env r s = append_record env (sr_kind r) (sr_payload r) s"

definition store_found :: "Store \<Rightarrow> StoreRecord list option" where
  "store_found s = recovered (st_limits s) (st_file s)"

definition store_ready :: "Store \<Rightarrow> bool" where
  "store_ready s \<longleftrightarrow> (\<exists>rs. holds rs s \<and> list_all (fits (st_limits s)) rs)"

lemma ready_found: "holds rs s \<Longrightarrow> list_all (fits (st_limits s)) rs \<Longrightarrow> store_found s = Some rs"
  by (simp add: store_found_def holds_def recovered_image)

interpretation store_log: durable_log store_append_call store_found store_ready "\<lambda>s. fits (st_limits s)"
proof
  fix s r e s' rs status
  assume ready: "store_ready s" and fits: "fits (st_limits s) r" and found: "store_found s = Some rs"
  have rs: "holds rs s" "list_all (fits (st_limits s)) rs"
    using ready found ready_found by (auto simp: store_ready_def)
  show "store_ready s' \<and> store_found s' = Some (rs @ [r])" if call: "store_append_call e r s = (Ok, s')"
  proof -
    note spec = append_spec [OF rs(1) fits call [unfolded store_append_call_def]]
    have "holds (rs @ [r]) s'" using spec(3,4) by simp
    then show ?thesis using rs(2) fits spec(2) ready_found [of "rs @ [r]" s'] by (auto simp: store_ready_def)
  qed
  show "store_found s' = Some rs \<or> store_found s' = Some (rs @ [r])" if call: "store_append_call e r s = (status, s')"
    using append_recovered [OF rs fits call [unfolded store_append_call_def]]
      append_spec(2) [OF rs(1) fits call [unfolded store_append_call_def]] by (auto simp: store_found_def)
next
  fix s r e status s' r'
  assume "store_ready s" "fits (st_limits s) r" "store_append_call e r s = (status, s')"
  then show "fits (st_limits s') r' = fits (st_limits s) r'"
    using append_spec(2) by (auto simp: store_ready_def store_append_call_def)
qed

text \<open>Appends to the store file in a row, up to the first that fails.\<close>

fun append_all :: "(StoreEnv \<times> StoreRecord) list \<Rightarrow> Store \<Rightarrow> StoreRecord list \<times> Store" where
  "append_all [] s = ([], s)"
| "append_all ((env, r) # calls) s =
     (case append_record env (sr_kind r) (sr_payload r) s of (status, s') \<Rightarrow>
        if status = Ok then (case append_all calls s' of (acknowledged, s'') \<Rightarrow> (r # acknowledged, s'')) else ([], s'))"

lemma append_all_run: "append_all calls s = store_log.run calls s"
  by (induction calls arbitrary: s) (auto simp: store_append_call_def split: prod.splits)

section \<open>The journal in the file\<close>

text \<open>A commit as a record of the file, and as an entry of the journal.\<close>

type_synonym texted_commit = "RecordKind \<times> texted list"

definition stored :: "texted_commit \<Rightarrow> StoreRecord" where
  "stored c = \<lparr>sr_kind = record_kind_code (fst c), sr_payload = text_bytes (encode_items (fst c) (snd c))\<rparr>"

definition plain_commit :: "texted_commit \<Rightarrow> RecordKind \<times> CommitItem list" where
  "plain_commit c = (fst c, map snd (snd c))"

definition replayable :: "texted_commit \<Rightarrow> bool" where
  "replayable c \<longleftrightarrow> fst c \<noteq> RkUnknown \<and> (\<forall>i \<in> set (map snd (snd c)). item_sized i)"

definition replay_file :: "StoreRecord list \<Rightarrow> Fabric \<Rightarrow> Status \<times> Fabric" where
  "replay_file records F = replay_text (map (bytes_text \<circ> sr_payload) records) F"

lemma replay_stored:
  assumes "list_all replayable commits"
  shows "replay_file (map stored commits) F = replay (map plain_commit commits) F"
  using replay_text_records [of commits F] assms
  by (auto simp: replay_file_def stored_def plain_commit_def [abs_def] replayable_def list_all_iff comp_def case_prod_beta')

text \<open>What an append to the file is to the journal.\<close>

definition append_io :: "StoreEnv \<Rightarrow> Store \<Rightarrow> StoreRecord \<Rightarrow> IoOutcome" where
  "append_io env s r =
     (if length (sr_payload r) > max_record_payload_bytes (st_limits s) then IoTooLarge
      else if \<not> length (record_frame r) \<le> se_write env then IoNothing
      else if st_durable_writes s \<and> \<not> se_sync env then IoDoneReportedFailed else IoDone)"

lemma append_refines_journal:
  assumes held: "holds (map stored commits) s" "list_all (fits (st_limits s)) (map stored commits)"
    and small: "length (sr_payload (stored c)) < 2 ^ 32"
    and active: "store_active F" "journal F = map plain_commit commits"
    and call: "append_record env (sr_kind (stored c)) (sr_payload (stored c)) s = (status, s')"
    and model: "store_append (io\<lparr>io_append := append_io env s (stored c)\<rparr>) (fst c) (map snd (snd c)) F = (outcome, F')"
  shows "status = outcome \<and> (\<exists>commits'. journal F' = map plain_commit commits' \<and>
    recovered (st_limits s) (st_file s') = Some (map stored commits'))"
proof (cases "length (sr_payload (stored c)) > max_record_payload_bytes (st_limits s)")
  case True
  then have "status = CapacityExceeded" "s' = s" "outcome = CapacityExceeded" "F' = F"
    using call model held(1) active(1) by (auto simp: append_record_def holds_def store_append_def append_io_def)
  then show ?thesis using active(2) held recovered_image [OF held(2)] by (auto simp: holds_def)
next
  case False
  then have fit: "fits (st_limits s) (stored c)" using small by (simp add: fits_def)
  note spec = append_spec [OF held(1) fit call] and found = append_recovered [OF held fit call]
  have status: "status \<in> {Ok, StoreIo}"
    using call by (auto simp: append_record_def Let_def write_all_def sync_file_def False split: if_splits)
  show ?thesis
  proof (cases "length (record_frame (stored c)) \<le> se_write env")
    case True
    then have "journal F' = map plain_commit (commits @ [c])"
      using model active False by (auto simp: store_append_def append_io_def plain_commit_def split: if_splits)
    moreover have "recovered (st_limits s) (st_file s') = Some (map stored (commits @ [c]))" using found True by simp
    moreover have "status = outcome"
      using True model active(1) False status spec(4) by (auto simp: store_append_def append_io_def split: if_splits)
    ultimately show ?thesis by blast
  next
    case False
    then have "journal F' = map plain_commit commits" "status = outcome"
      using model active status spec(4) \<open>\<not> length (sr_payload (stored c)) > _\<close>
      by (auto simp: store_append_def append_io_def)
    moreover have "recovered (st_limits s) (st_file s') = Some (map stored commits)" using found False by simp
    ultimately show ?thesis by blast
  qed
qed

end
