(* ===== verification/Inspection.thy ===== *)
theory Inspection
  imports Durable
begin

text \<open>
  Read-only inspection of a store file (\<open>inspection.cpp\<close>): the same walk over the frames, without the lock
  and without changing the file, with counts per kind and the counters of the last runtime record. The
  theorems compare what it reports with what opening the file finds.

  Which system calls succeed is an argument; the lock is never seen (the branch for systems other than
  Windows).
\<close>

section \<open>The report\<close>

record PersistenceInspection =
  pi_exists :: bool
  pi_locked_by_writer :: bool
  pi_file_bytes :: nat
  pi_format_version :: u32
  pi_header_flags :: u32
  pi_header_valid :: bool
  pi_valid_bytes :: nat
  pi_trailing_bytes :: nat
  pi_tail_torn :: bool
  pi_records :: nat
  pi_record_counts :: "(u8 \<times> nat) list"
  pi_last_epoch :: u64
  pi_last_tick :: u64
  pi_stored_boot_sequence :: u64
  pi_checkpoints :: nat
  pi_content_digest :: Digest128

definition blank_inspection :: PersistenceInspection where
  "blank_inspection = \<lparr>pi_exists = False, pi_locked_by_writer = False, pi_file_bytes = 0, pi_format_version = 0,
     pi_header_flags = 0, pi_header_valid = False, pi_valid_bytes = 0, pi_trailing_bytes = 0, pi_tail_torn = False,
     pi_records = 0, pi_record_counts = [], pi_last_epoch = 0, pi_last_tick = 0, pi_stored_boot_sequence = 0,
     pi_checkpoints = 0, pi_content_digest = nil_digest\<rparr>"

definition kDecodeLimit :: nat where "kDecodeLimit = 20000"

definition writer_active :: "bool \<Rightarrow> bool" where
  "writer_active lock_exists = False"

section \<open>One record\<close>

fun count_kind :: "u8 \<Rightarrow> (u8 \<times> nat) list \<Rightarrow> (u8 \<times> nat) list" where
  "count_kind kind [] = [(kind, 1)]"
| "count_kind kind ((k, n) # entries) = (if k = kind then (k, n + 1) # entries else (k, n) # count_kind kind entries)"

text \<open>The counters of the runtime items of a record; other items and items that do not decode are passed over.\<close>

definition note_runtime :: "PersistenceInspection \<Rightarrow> string \<times> TextReader \<Rightarrow> PersistenceInspection" where
  "note_runtime insp item =
     (if fst item \<noteq> ''runtime'' then insp
      else case decode_runtime (snd item) of
        Inl e \<Rightarrow> insp
      | Inr (s, _) \<Rightarrow> insp\<lparr>pi_last_epoch := rt_epoch s, pi_last_tick := rt_tick s, pi_stored_boot_sequence := rt_boot_sequence s\<rparr>)"

definition inspect_contents :: "Limits \<Rightarrow> string \<Rightarrow> PersistenceInspection \<Rightarrow> PersistenceInspection" where
  "inspect_contents lim payload insp =
     (case bundle_decode payload lim of
        Inl e \<Rightarrow> insp
      | Inr (_, items) \<Rightarrow> foldl note_runtime insp items)"

definition inspect_record ::
  "Limits \<Rightarrow> u8 \<Rightarrow> bytes \<Rightarrow> PersistenceInspection \<times> CanonicalHasher \<Rightarrow> PersistenceInspection \<times> CanonicalHasher" where
  "inspect_record lim kind payload acc =
     (case acc of (insp, hasher) \<Rightarrow>
       let insp = insp\<lparr>pi_record_counts := count_kind kind (pi_record_counts insp), pi_records := pi_records insp + 1,
             pi_checkpoints := pi_checkpoints insp + (if kind = record_kind_code RkCheckpoint then 1 else 0)\<rparr>
       in if pi_records insp \<le> kDecodeLimit
          then (inspect_contents lim (bytes_text payload) insp, add_bytes (bytes_text payload) hasher)
          else (insp, hasher))"

section \<open>The walk\<close>

function inspect_frames ::
  "Limits \<Rightarrow> bytes \<Rightarrow> nat \<Rightarrow> PersistenceInspection \<times> CanonicalHasher \<Rightarrow>
    ((PersistenceInspection \<times> CanonicalHasher) \<times> nat \<times> bool) result" where
  "inspect_frames lim file offset acc =
     (if \<not> offset < length file then Inr (acc, offset, False)
      else let remaining = length file - offset; h = take kRecordHeaderBytes (drop offset file) in
      if remaining < kRecordHeaderBytes then Inr (acc, offset, True)
      else if read_u32 h \<noteq> kRecordMagic then Inr (acc, offset, True)
      else let kind = (ucast (read_u16 (drop 4 h)) :: u8); len = read_u32 (drop 8 h); checksum = read_u32 (drop 12 h) in
      if unat len > max_record_payload_bytes lim then Inl StoreCorrupt
      else if remaining < kRecordHeaderBytes + unat len then Inr (acc, offset, True)
      else let payload = take (unat len) (drop (offset + kRecordHeaderBytes) file) in
      if frame_crc (ucast kind) len payload \<noteq> checksum then Inr (acc, offset, True)
      else inspect_frames lim file (offset + kRecordHeaderBytes + unat len) (inspect_record lim kind payload acc))"
  by pat_completeness auto

termination
  by (relation "measure (\<lambda>(lim, file, offset, acc). length file - offset)") (auto simp: kRecordHeaderBytes_def)

declare inspect_frames.simps [simp del]

record InspectEnv =
  ie_stat :: bool
  ie_lock_exists :: bool
  ie_size :: bool
  ie_open :: bool
  ie_read :: bool

definition inspect_bytes :: "Limits \<Rightarrow> bytes \<Rightarrow> PersistenceInspection \<Rightarrow> PersistenceInspection result" where
  "inspect_bytes lim file insp =
     (if length file < kHeaderBytes then Inr (insp\<lparr>pi_tail_torn := True, pi_trailing_bytes := length file\<rparr>)
      else if read_u32 file \<noteq> kStoreMagic then Inl StoreCorrupt
      else let insp = insp\<lparr>pi_format_version := read_u32 (drop 4 file), pi_header_flags := read_u32 (drop 8 file)\<rparr> in
        if pi_format_version insp \<noteq> kStateFormatVersion then Inl StoreVersionUnsupported
        else let insp = insp\<lparr>pi_header_valid := (read_u32 (drop 12 file) = crc32c (take 12 file))\<rparr> in
          case inspect_frames lim file kHeaderBytes (insp, hasher_init) of
            Inl e \<Rightarrow> Inl e
          | Inr ((insp, hasher), offset, torn) \<Rightarrow>
              Inr (insp\<lparr>pi_valid_bytes := offset, pi_trailing_bytes := length file - offset, pi_tail_torn := torn,
                        pi_content_digest := hasher_digest hasher\<rparr>))"

definition inspect_persistence :: "InspectEnv \<Rightarrow> bytes option \<Rightarrow> Limits \<Rightarrow> PersistenceInspection result" where
  "inspect_persistence env f lim =
     (if \<not> ie_stat env then Inl StoreIo
      else case f of
        None \<Rightarrow> Inr blank_inspection
      | Some file \<Rightarrow>
          let insp = blank_inspection\<lparr>pi_exists := True, pi_locked_by_writer := writer_active (ie_lock_exists env)\<rparr> in
          if \<not> ie_size env then Inl StoreIo
          else let insp = insp\<lparr>pi_file_bytes := length file\<rparr> in
            if length file > max_journal_bytes lim + 2 ^ 20 then Inl CapacityExceeded
            else if \<not> ie_open env then Inl StoreIo
            else if length file > 0 \<and> \<not> ie_read env then Inl StoreIo
            else inspect_bytes lim file insp)"

section \<open>What inspection and opening have in common\<close>

definition inspect_all ::
  "Limits \<Rightarrow> StoreRecord list \<Rightarrow> PersistenceInspection \<times> CanonicalHasher \<Rightarrow> PersistenceInspection \<times> CanonicalHasher" where
  "inspect_all lim rs acc = foldl (\<lambda>acc r. inspect_record lim (sr_kind r) (sr_payload r) acc) acc rs"

text \<open>How the result of the walk relates to the end of the scan.\<close>

definition walk_agrees ::
  "((PersistenceInspection \<times> CanonicalHasher) \<times> nat \<times> bool) result \<Rightarrow> ScanEnd \<Rightarrow>
    PersistenceInspection \<times> CanonicalHasher \<Rightarrow> nat \<Rightarrow> bool" where
  "walk_agrees result ended acc last_good =
     (case ended of
        ScanClean \<Rightarrow> result = Inr (acc, last_good, False)
      | ScanTail \<Rightarrow> result = Inr (acc, last_good, True)
      | ScanRefused e \<Rightarrow> result \<in> {Inl StoreCorrupt, Inr (acc, last_good, True)})"

lemma inspect_follows_scan:
  assumes "scan_records lim ok fb offset rs = (ended, rs', last_good)" "\<And>i. ok i"
  shows "\<exists>found. rs' = rs @ found \<and> walk_agrees (inspect_frames lim fb offset acc) ended (inspect_all lim found acc) last_good"
  using assms
proof (induction lim ok fb offset rs arbitrary: acc rule: scan_records.induct)
  case (1 lim ok fb offset rs)
  let ?h = "take kRecordHeaderBytes (drop offset fb)"
  let ?len = "read_u32 (drop 8 ?h)" let ?kind = "ucast (read_u16 (drop 4 ?h)) :: u8"
  let ?payload = "take (unat ?len) (drop (offset + kRecordHeaderBytes) fb)"
  define intact where "intact \<longleftrightarrow> offset < length fb \<and> \<not> length fb - offset < kRecordHeaderBytes \<and>
    read_u32 ?h = kRecordMagic \<and> \<not> unat ?len > max_record_payload_bytes lim \<and>
    \<not> length fb - offset < kRecordHeaderBytes + unat ?len \<and> frame_crc (ucast ?kind) ?len ?payload = read_u32 (drop 12 ?h)"
  show ?case
  proof (cases intact)
    case True
    define r where "r = \<lparr>sr_kind = ?kind, sr_payload = ?payload\<rparr>"
    have "scan_records lim ok fb offset rs = scan_records lim ok fb (offset + kRecordHeaderBytes + unat ?len) (rs @ [r])"
      using True 1(3) unfolding intact_def r_def by (subst scan_records.simps) (simp add: Let_def)
    then have rest: "scan_records lim ok fb (offset + kRecordHeaderBytes + unat ?len) (rs @ [r]) = (ended, rs', last_good)"
      using 1(2) by simp
    have walk: "inspect_frames lim fb offset acc =
        inspect_frames lim fb (offset + kRecordHeaderBytes + unat ?len) (inspect_record lim (sr_kind r) (sr_payload r) acc)"
      using True unfolding intact_def r_def by (subst inspect_frames.simps) (simp add: Let_def)
    have "\<exists>found. rs' = (rs @ [r]) @ found \<and> walk_agrees (inspect_frames lim fb offset acc) ended
        (inspect_all lim found (inspect_record lim (sr_kind r) (sr_payload r) acc)) last_good"
      unfolding walk unfolding r_def
      by (rule 1(1), (rule rest [unfolded r_def] 1(3) refl | use True 1(3) in \<open>simp add: intact_def\<close>)+)
    moreover have "inspect_all lim (r # found) acc = inspect_all lim found (inspect_record lim (sr_kind r) (sr_payload r) acc)" for found
      by (simp add: inspect_all_def)
    ultimately show ?thesis by (metis append.assoc append_Cons append_Nil)
  next
    case False
    have "rs' = rs \<and> walk_agrees (inspect_frames lim fb offset acc) ended acc last_good"
      using False 1(2,3) unfolding scan_records.simps [of lim ok fb offset rs] inspect_frames.simps [of lim fb offset acc]
        intact_def walk_agrees_def Let_def
      by (auto split: if_splits)
    then show ?thesis by (intro exI [of _ "[]"]) (simp add: inspect_all_def)
  qed
qed

lemma foldl_note_runtime: "pi_records (foldl note_runtime insp items) = pi_records insp"
  "pi_header_valid (foldl note_runtime insp items) = pi_header_valid insp"
  "pi_file_bytes (foldl note_runtime insp items) = pi_file_bytes insp"
  by (induction items arbitrary: insp) (auto simp: note_runtime_def split: sum.split)

lemma inspect_record_keeps:
  "pi_records (fst (inspect_record lim kind payload acc)) = Suc (pi_records (fst acc))"
  "pi_header_valid (fst (inspect_record lim kind payload acc)) = pi_header_valid (fst acc)"
  "pi_file_bytes (fst (inspect_record lim kind payload acc)) = pi_file_bytes (fst acc)"
  by (cases acc; auto simp: inspect_record_def Let_def inspect_contents_def foldl_note_runtime split: sum.split)+

lemma inspect_all_keeps:
  "pi_records (fst (inspect_all lim rs acc)) = pi_records (fst acc) + length rs"
  "pi_header_valid (fst (inspect_all lim rs acc)) = pi_header_valid (fst acc)"
  "pi_file_bytes (fst (inspect_all lim rs acc)) = pi_file_bytes (fst acc)"
  by (induction rs arbitrary: acc) (simp_all add: inspect_all_def inspect_record_keeps)

lemma scan_refused: "scan_records lim ok fb offset rs = (ScanRefused e, out) \<Longrightarrow> e \<noteq> Ok"
proof (induction "length fb - offset" arbitrary: offset rs rule: less_induct)
  case less
  let ?next = "offset + kRecordHeaderBytes + unat (read_u32 (drop 8 (take kRecordHeaderBytes (drop offset fb))))"
  have "length fb - ?next < length fb - offset" if "offset < length fb" using that header_positive by simp
  then have IH: "offset < length fb \<Longrightarrow> scan_records lim ok fb ?next rs' = (ScanRefused e, out) \<Longrightarrow> e \<noteq> Ok" for rs'
    using less.hyps by blast
  show ?case
    using less.prems unfolding scan_records.simps [of lim ok fb offset rs] Let_def by (auto split: if_splits dest: IH)
qed

lemma reopen_existing:
  assumes "reopen lim (Some fb) = (Ok, rp, s)" "kHeaderBytes \<le> length fb"
  obtains ended where "scan_records lim (\<lambda>_. True) fb kHeaderBytes [] = (ended, st_records s, st_valid_bytes s)"
    "ended = ScanClean \<and> rp_status rp = RsClean \<and> rp_discarded_bytes rp = 0 \<or>
     ended = ScanTail \<and> rp_status rp = RsTailDiscarded \<and> rp_discarded_bytes rp = length fb - st_valid_bytes s"
    "read_u32 (take kHeaderBytes fb) = kStoreMagic" "read_u32 (drop 4 (take kHeaderBytes fb)) = kStateFormatVersion"
    "read_u32 (drop 12 (take kHeaderBytes fb)) = crc32c (take 12 (take kHeaderBytes fb))"
proof -
  obtain ended rs last_good where scan: "scan_records lim (\<lambda>_. True) fb kHeaderBytes [] = (ended, rs, last_good)"
    by (metis prod_cases3)
  have size: "fb \<noteq> []" "\<not> length fb < kHeaderBytes" using assms(2) by (auto simp: kHeaderBytes_def)
  note defs = reopen_def store_open_file_def open_existing_def Let_def new_store_def calm_def acquire_lock_def open_file_def
    file_bytes_def open_fail_def open_scanned_def seek_to_def sync_file_def truncate_to_def initial_report_def
  show ?thesis
    by (rule that [of ended]) (use assms scan size scan_refused [of lim "\<lambda>_. True" fb kHeaderBytes "[]"] in \<open>auto simp: defs split: if_splits ScanEnd.splits\<close>)
qed

lemma read_u32_take: "4 \<le> n \<Longrightarrow> read_u32 (take n b) = read_u32 b"
  by (simp add: read_u32_def upt_rec)

lemma inspection_agrees:
  assumes "reopen lim (Some fb) = (Ok, rp, s)" "kHeaderBytes \<le> length fb" "length fb \<le> max_journal_bytes lim + 2 ^ 20"
    "ie_stat env" "ie_size env" "ie_open env" "ie_read env"
  shows "\<exists>insp. inspect_persistence env (Some fb) lim = Inr insp \<and> pi_header_valid insp \<and>
    pi_records insp = length (st_records s) \<and> pi_valid_bytes insp = st_valid_bytes s \<and>
    pi_tail_torn insp = (rp_status rp = RsTailDiscarded) \<and> pi_file_bytes insp = length fb"
proof -
  obtain ended where scan: "scan_records lim (\<lambda>_. True) fb kHeaderBytes [] = (ended, st_records s, st_valid_bytes s)"
    and ended: "ended = ScanClean \<and> rp_status rp = RsClean \<and> rp_discarded_bytes rp = 0 \<or>
      ended = ScanTail \<and> rp_status rp = RsTailDiscarded \<and> rp_discarded_bytes rp = length fb - st_valid_bytes s"
    and head: "read_u32 (take kHeaderBytes fb) = kStoreMagic" "read_u32 (drop 4 (take kHeaderBytes fb)) = kStateFormatVersion"
      "read_u32 (drop 12 (take kHeaderBytes fb)) = crc32c (take 12 (take kHeaderBytes fb))"
    by (rule reopen_existing [OF assms(1,2)]) blast
  have magic: "read_u32 fb = kStoreMagic" "read_u32 (drop 4 fb) = kStateFormatVersion" "read_u32 (drop 12 fb) = crc32c (take 12 fb)"
    using head read_u32_take [of 24 fb] read_u32_take [of 20 "drop 4 fb"] read_u32_take [of 12 "drop 12 fb"]
    by (simp_all add: kHeaderBytes_def drop_take)
  define insp where "insp = blank_inspection\<lparr>pi_exists := True, pi_locked_by_writer := writer_active (ie_lock_exists env),
    pi_file_bytes := length fb, pi_format_version := kStateFormatVersion, pi_header_flags := read_u32 (drop 8 fb),
    pi_header_valid := True\<rparr>"
  obtain found where found: "st_records s = [] @ found"
      "walk_agrees (inspect_frames lim fb kHeaderBytes (insp, hasher_init)) ended (inspect_all lim found (insp, hasher_init)) (st_valid_bytes s)"
    using inspect_follows_scan [OF scan, of "(insp, hasher_init)"] by blast
  obtain insp' hasher where all: "inspect_all lim found (insp, hasher_init) = (insp', hasher)" by fastforce
  have kept: "pi_records insp' = length (st_records s)" "pi_header_valid insp'" "pi_file_bytes insp' = length fb"
    using inspect_all_keeps [of lim found "(insp, hasher_init)"] all found(1) by (auto simp: insp_def blank_inspection_def)
  have frames: "inspect_frames lim fb kHeaderBytes (insp, hasher_init) =
      Inr ((insp', hasher), st_valid_bytes s, rp_status rp = RsTailDiscarded)"
    using found(2) ended all by (auto simp: walk_agrees_def)
  have "inspect_persistence env (Some fb) lim = inspect_bytes lim fb
      (blank_inspection\<lparr>pi_exists := True, pi_locked_by_writer := writer_active (ie_lock_exists env), pi_file_bytes := length fb\<rparr>)"
    using assms(3-) by (simp add: inspect_persistence_def Let_def)
  also have "\<dots> = Inr (insp'\<lparr>pi_valid_bytes := st_valid_bytes s, pi_trailing_bytes := length fb - st_valid_bytes s,
      pi_tail_torn := (rp_status rp = RsTailDiscarded), pi_content_digest := hasher_digest hasher\<rparr>)"
    using assms(2) magic frames by (simp add: inspect_bytes_def Let_def insp_def)
  finally show ?thesis using kept by simp
qed

end
