(* ===== verification/StoreTrials.thy ===== *)
theory StoreTrials
  imports Trials Inspection
begin

text \<open>Concrete records and files on which the properties of the store are applied.\<close>

definition sample_texts :: ItemTexts where
  "sample_texts = \<lparr>it_detail = [], it_history = \<lambda>_. []\<rparr>"

definition sample_texted :: texted_commit where
  "sample_texted = (RkRuntimeState, [(sample_texts, ResetItem)])"

definition sample_frame :: StoreRecord where
  "sample_frame = \<lparr>sr_kind = 1, sr_payload = [7]\<rparr>"

definition sample_inspect :: InspectEnv where
  "sample_inspect = \<lparr>ie_stat = True, ie_lock_exists = False, ie_size = True, ie_open = True, ie_read = True\<rparr>"

definition disk_fabric :: Fabric where
  "disk_fabric = (hd sample_trace)\<lparr>memory_only := False, store_open := True, journal := []\<rparr>"

lemma sample_frame_fits: "fits default_limits sample_frame"
  by (simp add: fits_def sample_frame_def default_limits_def)

lemma sample_frame_length: "length (record_frame sample_frame) = 17"
  by (simp add: length_record_frame sample_frame_def kRecordHeaderBytes_def)

lemma char_of_49: "char_of (49 :: nat) = CHR ''1''"
  by code_simp

lemma sample_payload_length: "length (sr_payload (stored sample_texted)) = 49"
  by (simp add: char_of_49 stored_def sample_texted_def encode_items_text bundle_fields_def typed_fields_def indexed_fields_def
      count_text_def to_decimal_def dec_digits.simps field_line_def text_bytes_def prefixed_prefixed)

lemma sample_texted_fits: "fits default_limits (stored sample_texted)"
  by (simp add: fits_def sample_payload_length default_limits_def)

lemma sample_texted_replayable: "replayable sample_texted"
  by (simp add: replayable_def sample_texted_def)

lemma disk_fabric_active: "store_active disk_fabric" "journal disk_fabric = []"
  by (simp_all add: store_active_def disk_fabric_def)

lemma empty_file: "holds [] (opened_store lim [])" "st_limits (opened_store lim []) = lim"
  using opened_store_holds(1) by (simp_all add: opened_store_def new_store_def)

lemma empty_file_ready: "store_ready (opened_store lim [])" "store_found (opened_store lim []) = Some []"
  using empty_file [of lim] ready_found [of "[]" "opened_store lim []"]
  by (auto simp: store_ready_def intro!: exI [of _ "[]"])

lemma crc_byte: "crc_update st [b] = (crc_bit ^^ 8) st XOR (crc_bit ^^ 8) (ucast b)"
  by (simp add: crc_update_eq_bitwise crc_update_bitwise_def crc_bits_xor)

lemma xor_cancel: "(a XOR x) XOR b = (a XOR y) XOR b \<longleftrightarrow> x = y" for a b x y :: u32
  by (auto simp: bit_eq_iff bit_xor_iff)

lemma sample_crc_differs:
  "frame_crc (ucast (sr_kind sample_frame)) (of_nat (length [8 :: u8])) [8] \<noteq>
   frame_crc (ucast (sr_kind sample_frame)) (of_nat (length [8 :: u8])) (sr_payload sample_frame)"
proof -
  have "(crc_bit ^^ 8) 8 \<noteq> (crc_bit ^^ 8) 7" by code_simp
  then show ?thesis by (simp add: frame_crc_def Let_def sample_frame_def crc_byte xor_cancel)
qed

end
