(* ===== verification/Reports.thy ===== *)
theory Reports
  imports Query StateCodec
begin

text \<open>
  The other read-only answers of the runtime (\<open>fabric_query.cpp\<close>, \<open>report.hpp\<close>, \<open>diagnostics.hpp\<close>, \<open>explanation.hpp\<close>):
  the topology, the explanation of one path, the diagnostics, and the snapshot with its digest.

  Texts are modelled where they are part of an answer (names, claims, notes, reasons); the detail texts of
  diagnostics, the digest over them and the recovery summary of a snapshot are left out. Sizes are natural
  numbers.
\<close>

section \<open>Topology\<close>

record ResourceView =
  vw_resource :: ResourceRef
  vw_name :: string
  vw_sharing :: SharingMode
  vw_generation :: u64
  vw_registered_tick :: u64
  vw_related :: "ResourceRef list"
  vw_attributes :: "string list"

definition to_view :: "ResourceState \<Rightarrow> ResourceView" where
  "to_view s =
     \<lparr>vw_resource = rs_resource s, vw_name = rs_name s, vw_sharing = rs_sharing s, vw_generation = rs_generation s,
      vw_registered_tick = rs_registered_tick s, vw_related = rs_related s, vw_attributes = rs_attributes s\<rparr>"

definition encode_resource_canonical :: "ResourceState \<Rightarrow> string" where
  "encode_resource_canonical s = tw_text (write_fields (encode_resource s) new_writer)"

record TopologySnapshot =
  ts_resources :: "ResourceView list"
  ts_topology_generation :: u64
  ts_digest :: Digest128

definition hash_resources :: "Fabric \<Rightarrow> CanonicalHasher \<Rightarrow> CanonicalHasher" where
  "hash_resources F h = foldl (\<lambda>h (ref, s). add_raw (encode_resource_canonical s) h) h (resources F)"

definition topology :: "Fabric \<Rightarrow> TopologySnapshot" where
  "topology F =
     \<lparr>ts_resources = map (\<lambda>(ref, s). to_view s) (resources F), ts_topology_generation = topology_generation F,
      ts_digest = hasher_digest (hash_resources F hasher_init)\<rparr>"

definition describe_resource :: "Fabric \<Rightarrow> ResourceRef \<Rightarrow> ResourceView result" where
  "describe_resource F r = (case find_resource F r of None \<Rightarrow> Inl NotFound | Some s \<Rightarrow> Inr (to_view s))"

definition resource_name :: "Fabric \<Rightarrow> ResourceRef \<Rightarrow> string" where
  "resource_name F r = (case find_resource F r of None \<Rightarrow> ref_to_string r | Some s \<Rightarrow> rs_name s)"

definition render_path_line :: "CanonicalPath \<Rightarrow> string" where
  "render_path_line p =
     digest_to_string (cp_identity p) @ '' '' @
     map (\<lambda>c. if c = newline then CHR '' '' else c) (cp_canonical_text p)"

section \<open>The reason of an unauthorized path\<close>

text \<open>\<open>ActivePathEntry::unauthorized_reason\<close>, from the entry that \<open>active_entry\<close> builds.\<close>

definition unauthorized_reason :: "ActivePathEntry \<Rightarrow> string" where
  "unauthorized_reason e =
     (if ap_state e \<noteq> Active then ''the path is '' @ state_to_string (ap_state e)
      else if \<not> ap_authority_confirmed e
        then ''authority has not been reconfirmed by the current process incarnation''
      else if \<not> ap_evidence_healthy e
        then ''evidence for the path is '' @ evidence_state_to_string (ap_evidence_state e)
      else [])"

lemma authorized_no_reason: "ap_authorized (active_entry F i r) \<longleftrightarrow> unauthorized_reason (active_entry F i r) = []"
  by (simp add: active_entry_def unauthorized_reason_def Let_def)

section \<open>Explanation\<close>

record SegmentProvenance =
  sp_segment :: PathSegment
  sp_resource_name :: string
  sp_sharing :: SharingMode
  sp_registered_generation :: u64
  sp_claim :: string
  sp_evidence_state :: EvidenceState
  sp_evidence :: "EvidenceEvaluation list"
  sp_generation_current :: bool

record PathExplanation =
  pe_connectivity :: u64
  pe_name :: string
  pe_state :: ConnectivityState
  pe_generation :: u64
  pe_identity :: Digest128
  pe_canonical_path :: string
  pe_direction :: Direction
  pe_channel :: u64
  pe_route_origin :: string
  pe_segments :: "SegmentProvenance list"
  pe_evidence_aggregate :: EvidenceState
  pe_evidence_healthy :: bool
  pe_authority_confirmed :: bool
  pe_authority :: AuthorityToken
  pe_reservation :: u64
  pe_has_reservation :: bool
  pe_reservation_expiry :: u64
  pe_last_refusal :: RefusalCode
  pe_history :: "TransitionRecord list"
  pe_notes :: "string list"

definition segment_claim :: "PathDescriptor \<Rightarrow> SharingMode \<Rightarrow> string" where
  "segment_claim path sharing =
     (if sharing = Exclusive then ''exclusive''
      else if pd_channel path = 0 then ''channelized:any''
      else ''channelized:'' @ hex_encode (pd_channel path))"

definition segment_provenance ::
  "Fabric \<Rightarrow> PathDescriptor \<Rightarrow> EvidenceAssessment \<Rightarrow> PathSegment \<Rightarrow> SegmentProvenance" where
  "segment_provenance F path a s =
     (case find_resource F (seg_resource s) of
        None \<Rightarrow>
          \<lparr>sp_segment = s, sp_resource_name = ref_to_string (seg_resource s), sp_sharing = Exclusive,
           sp_registered_generation = 0, sp_claim = [], sp_evidence_state = Unknown, sp_evidence = [],
           sp_generation_current = False\<rparr>
      | Some st \<Rightarrow>
          let about = filter (\<lambda>e. rq_subject (ee_requirement e) = seg_resource s) (as_evaluations a) in
          \<lparr>sp_segment = s, sp_resource_name = rs_name st, sp_sharing = rs_sharing st,
           sp_registered_generation = rs_generation st, sp_claim = segment_claim path (rs_sharing st),
           sp_evidence_state = compose_all (map ee_state (filter (\<lambda>e. rq_blocking (ee_requirement e)) about)),
           sp_evidence = about, sp_generation_current = (rs_generation st = seg_generation s)\<rparr>)"

definition explanation_notes :: "Fabric \<Rightarrow> ConnectivityRecord \<Rightarrow> EvidenceAssessment \<Rightarrow> string list" where
  "explanation_notes F r a =
     [if pd_route_origin (cr_path r) = ''declared-route''
      then ''the route was resolved from registered cross-connect opportunities; no planner was consulted''
      else ''the route was proposed by '' @ pd_route_origin (cr_path r) @ '' and validated against the registry''] @
     (if as_advisory_aggregate a \<noteq> Known
      then [''advisory observations are '' @ evidence_state_to_string (as_advisory_aggregate a) @
            ''; they are recorded but never gate promotion'']
      else []) @
     map (\<lambda>e. ''no producer exists at this boundary for '' @ evidence_kind_to_string (rq_kind (ee_requirement e)) @
            '' on '' @ resource_name F (rq_subject (ee_requirement e)))
       (filter (\<lambda>e. rq_blocking (ee_requirement e) \<and> ee_state e = EUnsupported) (as_evaluations a)) @
     (if \<not> confirmed_here F r \<and> is_committed_state (cr_state r)
      then [''the path is committed but its authority has not been reconfirmed since the process started'']
      else [])"

definition explain :: "Fabric \<Rightarrow> u64 \<Rightarrow> PathExplanation result" where
  "explain F i =
     (case map_of (objects F) i of
        None \<Rightarrow> Inl NotFound
      | Some r \<Rightarrow>
         (let a = assess_locked F (cr_path r) (cr_requirements r) in
          Inr \<lparr>pe_connectivity = cr_id r, pe_name = cr_name r, pe_state = cr_state r, pe_generation = cr_generation r,
               pe_identity = cp_identity (cr_canonical r), pe_canonical_path = cp_canonical_text (cr_canonical r),
               pe_direction = pd_direction (cr_path r), pe_channel = pd_channel (cr_path r),
               pe_route_origin = pd_route_origin (cr_path r),
               pe_segments = map (segment_provenance F (cr_path r) a) (pd_segments (cr_path r)),
               pe_evidence_aggregate = as_aggregate a, pe_evidence_healthy = healthy a,
               pe_authority_confirmed = confirmed_here F r, pe_authority = cr_authority r,
               pe_reservation = cr_reservation r, pe_has_reservation = cr_has_reservation r,
               pe_reservation_expiry = cr_reservation_expiry r, pe_last_refusal = cr_last_refusal r,
               pe_history = cr_history r, pe_notes = explanation_notes F r a\<rparr>))"

section \<open>Diagnostics\<close>

fun diagnostic_kind_to_string :: "DiagnosticKind \<Rightarrow> string" where
  "diagnostic_kind_to_string DStaleGeneration = ''stale-generation''"
| "diagnostic_kind_to_string DStaleEvidence = ''stale-evidence''"
| "diagnostic_kind_to_string DStaleAuthority = ''stale-authority''"
| "diagnostic_kind_to_string DStaleIncarnation = ''stale-incarnation''"
| "diagnostic_kind_to_string DUnsupportedEvidence = ''unsupported-evidence''"
| "diagnostic_kind_to_string DMissingEvidence = ''missing-evidence''"
| "diagnostic_kind_to_string DConflictingEvidence = ''conflicting-evidence''"
| "diagnostic_kind_to_string DResourceConflict = ''resource-conflict''"
| "diagnostic_kind_to_string DUnconfirmedAuthority = ''unconfirmed-authority''"
| "diagnostic_kind_to_string DReservationExpiry = ''reservation-expiry''"
| "diagnostic_kind_to_string DIllegalTransitionRefused = ''illegal-transition-refused''"
| "diagnostic_kind_to_string DInvariantViolation = ''invariant-violation''"
| "diagnostic_kind_to_string DCapacityPressure = ''capacity-pressure''"
| "diagnostic_kind_to_string DUnsupportedBoundary = ''unsupported-boundary''"

record DiagnosticQuery =
  dq_connectivity :: u64
  dq_resource :: ResourceRef
  dq_filter_kind :: bool
  dq_kind :: DiagnosticKind
  dq_max_results :: nat

record DiagnosticsReport =
  dr_diagnostics :: "Diagnostic list"
  dr_total_available :: nat
  dr_truncated :: bool

definition diagnostics_count_of :: "DiagnosticsReport \<Rightarrow> DiagnosticKind \<Rightarrow> nat" where
  "diagnostics_count_of report kind = length (filter (\<lambda>d. dn_kind d = kind) (dr_diagnostics report))"

definition accepts :: "DiagnosticQuery \<Rightarrow> Diagnostic \<Rightarrow> bool" where
  "accepts q d \<longleftrightarrow>
     \<not> (dq_connectivity q \<noteq> 0 \<and> dn_connectivity d \<noteq> dq_connectivity q) \<and>
     \<not> (\<not> ref_is_nil (dq_resource q) \<and> dn_subject d \<noteq> dq_resource q) \<and>
     \<not> (dq_filter_kind q \<and> dn_kind d \<noteq> dq_kind q)"

text \<open>A default diagnostic with its kind, its refusal and the current tick filled in.\<close>

definition diagnostic_now :: "Fabric \<Rightarrow> DiagnosticKind \<Rightarrow> RefusalCode \<Rightarrow> u64 \<Rightarrow> Diagnostic" where
  "diagnostic_now F kind refusal connectivity =
     \<lparr>dn_kind = kind, dn_refusal = refusal, dn_subject = nil_ref, dn_connectivity = connectivity, dn_reservation = 0,
      dn_grant = 0, dn_observed_tick = tick F, dn_observed_epoch = 0, dn_observed_generation = 0,
      dn_current_generation = 0\<rparr>"

definition segment_diagnostics :: "Fabric \<Rightarrow> u64 \<Rightarrow> PathSegment \<Rightarrow> Diagnostic list" where
  "segment_diagnostics F i s =
     (case find_resource F (seg_resource s) of
        None \<Rightarrow> [(diagnostic_now F DStaleGeneration UnknownResource i)
                   \<lparr>dn_subject := seg_resource s, dn_observed_generation := seg_generation s\<rparr>]
      | Some st \<Rightarrow>
          if rs_generation st \<noteq> seg_generation s
          then [(diagnostic_now F DStaleGeneration RStaleGeneration i)
                  \<lparr>dn_subject := seg_resource s, dn_observed_generation := seg_generation s,
                   dn_current_generation := rs_generation st\<rparr>]
          else [])"

definition confirmation_diagnostics :: "Fabric \<Rightarrow> u64 \<Rightarrow> ConnectivityRecord \<Rightarrow> Diagnostic list" where
  "confirmation_diagnostics F i r =
     (if \<not> confirmed_here F r
      then [(diagnostic_now F DUnconfirmedAuthority RStaleIncarnation i)
              \<lparr>dn_grant := tok_grant (cr_authority r), dn_observed_epoch := tok_epoch (cr_authority r),
               dn_observed_generation := cr_generation r\<rparr>]
      else [])"

definition evidence_diagnostics :: "Fabric \<Rightarrow> u64 \<Rightarrow> ConnectivityRecord \<Rightarrow> Diagnostic list" where
  "evidence_diagnostics F i r =
     map (\<lambda>e. (diagnostic_now F (kind_for_evidence (ee_state e)) RMissingEvidence i)
              \<lparr>dn_subject := rq_subject (ee_requirement e), dn_observed_generation := ee_current_generation e\<rparr>)
       (filter (\<lambda>e. \<not> (\<not> rq_blocking (ee_requirement e) \<or> ee_state e = Known))
         (as_evaluations (assess_locked F (cr_path r) (cr_requirements r))))"

definition expiry_diagnostics :: "Fabric \<Rightarrow> u64 \<Rightarrow> ConnectivityRecord \<Rightarrow> Diagnostic list" where
  "expiry_diagnostics F i r =
     (if cr_has_reservation r \<and> is_committed_state (cr_state r) \<and> cr_reservation_expiry r \<le> tick F
      then [(diagnostic_now F DReservationExpiry RReservationExpired i)\<lparr>dn_reservation := cr_reservation r\<rparr>]
      else [])"

definition authority_diagnostics :: "Fabric \<Rightarrow> u64 \<Rightarrow> ConnectivityRecord \<Rightarrow> Diagnostic list" where
  "authority_diagnostics F i r =
     (let currentness = check_authority_locked F (cr_authority r) in
      if \<not> token_is_nil (cr_authority r) \<and> currentness \<noteq> Current
      then [(diagnostic_now F (if currentness = AStaleIncarnation then DStaleIncarnation else DStaleAuthority)
               (if currentness = AStaleIncarnation then RStaleIncarnation else RStaleEpoch) i)
              \<lparr>dn_grant := tok_grant (cr_authority r), dn_observed_epoch := tok_epoch (cr_authority r)\<rparr>]
      else [])"

definition object_diagnostics :: "Fabric \<Rightarrow> u64 \<times> ConnectivityRecord \<Rightarrow> Diagnostic list" where
  "object_diagnostics F = (\<lambda>(i, r).
     concat (map (segment_diagnostics F i) (pd_segments (cr_path r))) @
     (if is_committed_state (cr_state r) then confirmation_diagnostics F i r @ evidence_diagnostics F i r else []) @
     expiry_diagnostics F i r @ authority_diagnostics F i r)"

text \<open>The two nested loops over the claims on one resource.\<close>

fun conflict_diagnostics :: "Fabric \<Rightarrow> ResourceRef \<Rightarrow> ClaimEntry list \<Rightarrow> Diagnostic list" where
  "conflict_diagnostics F res [] = []"
| "conflict_diagnostics F res (c # cs) =
     map (\<lambda>d. (diagnostic_now F DResourceConflict RConflictingClaim (ce_connectivity c))\<lparr>dn_subject := res\<rparr>)
       (filter (claims_conflict c) cs) @ conflict_diagnostics F res cs"

definition pressure :: "Fabric \<Rightarrow> nat \<Rightarrow> nat \<Rightarrow> Diagnostic list" where
  "pressure F current limit =
     (if limit = 0 \<or> current * 10 < limit * 9 then []
      else [diagnostic_now F DCapacityPressure RCapacityExceeded 0])"

definition pressure_diagnostics :: "Fabric \<Rightarrow> Diagnostic list" where
  "pressure_diagnostics F =
     pressure F (length (resources F)) (max_ports (limits F) + max_spans (limits F)) @
     pressure F (length (objects F)) (max_connectivity_objects (limits F)) @
     pressure F (length (evidence F)) (max_evidence_records (limits F)) @
     pressure F (length (reservations F)) (max_reservations (limits F)) @
     pressure F (length (attempts F)) (max_attempt_history_total (limits F))"

definition collected_diagnostics :: "Fabric \<Rightarrow> Diagnostic list" where
  "collected_diagnostics F =
     diagnostics F @ concat (map (object_diagnostics F) (objects F)) @
     concat (map (\<lambda>(res, cs). conflict_diagnostics F res cs) (claim_index F)) @ pressure_diagnostics F"

definition diagnose :: "Fabric \<Rightarrow> DiagnosticQuery \<Rightarrow> DiagnosticsReport" where
  "diagnose F q =
     (let collected = filter (accepts q) (collected_diagnostics F) in
      \<lparr>dr_diagnostics = (if length collected > dq_max_results q then take (dq_max_results q) collected else collected),
       dr_total_available = length collected,
       dr_truncated = (length collected > dq_max_results q)\<rparr>)"

section \<open>Snapshot\<close>

definition hash_segment :: "CanonicalHasher \<Rightarrow> PathSegment \<Rightarrow> CanonicalHasher" where
  "hash_segment h s =
     add_field ''segment'' (role_to_string (seg_role s) @ ''|'' @ ref_to_string (seg_resource s) @ ''|'' @
       to_decimal (seg_generation s)) h"

text \<open>The calls of \<open>add_field\<close>, in their order: a text or a number under a name.\<close>

fun hash_field :: "CanonicalHasher \<Rightarrow> string \<times> (string + u64) \<Rightarrow> CanonicalHasher" where
  "hash_field h (k, Inl v) = add_field k v h"
| "hash_field h (k, Inr v) = add_field_u64 k v h"

definition flag_u64 :: "bool \<Rightarrow> u64" where "flag_u64 b = (if b then 1 else 0)"

definition hash_connectivity_state :: "CanonicalHasher \<Rightarrow> ConnectivityRecord \<Rightarrow> CanonicalHasher" where
  "hash_connectivity_state h r =
     foldl hash_segment (foldl hash_field h
       [(''id'', Inl (hex_encode (cr_id r))), (''name'', Inl (cr_name r)), (''owner'', Inl (cr_owner r)),
        (''state'', Inl (state_to_string (cr_state r))), (''generation'', Inr (cr_generation r)),
        (''path'', Inl (digest_to_string (cp_identity (cr_canonical r)))),
        (''direction'', Inl (direction_to_string (pd_direction (cr_path r)))),
        (''channel'', Inl (hex_encode (pd_channel (cr_path r)))), (''route_origin'', Inl (pd_route_origin (cr_path r))),
        (''authority_grant'', Inl (hex_encode (tok_grant (cr_authority r)))),
        (''authority_holder'', Inl (hex_encode (tok_holder (cr_authority r)))),
        (''authority_epoch'', Inr (tok_epoch (cr_authority r))),
        (''authority_scope'', Inl (scope_to_string (tok_scope (cr_authority r)))),
        (''authority_boot'', Inr (boot_sequence (tok_incarnation (cr_authority r)))),
        (''authority_confirmed'', Inr (flag_u64 (cr_authority_confirmed r))),
        (''reservation'', Inl (hex_encode (cr_reservation r))),
        (''has_reservation'', Inr (flag_u64 (cr_has_reservation r))),
        (''reservation_expiry'', Inr (cr_reservation_expiry r)), (''created'', Inr (cr_created_tick r)),
        (''updated'', Inr (cr_updated_tick r)), (''activated'', Inr (cr_activated_tick r)),
        (''retired'', Inr (cr_retired_tick r)), (''refusal'', Inl (refusal_to_string (cr_last_refusal r)))])
       (pd_segments (cr_path r))"

definition hash_reservation_state :: "CanonicalHasher \<Rightarrow> ReservationView \<Rightarrow> CanonicalHasher" where
  "hash_reservation_state h v =
     foldl (\<lambda>h r. add_field ''reservation_resource'' (ref_to_string r) h) (foldl hash_field h
       [(''reservation'', Inl (hex_encode (rv_id v))),
        (''reservation_connectivity'', Inl (hex_encode (rv_connectivity v))), (''reservation_holder'', Inl (rv_holder v)),
        (''reservation_epoch'', Inr (rv_epoch v)), (''reservation_boot'', Inr (boot_sequence (rv_incarnation v))),
        (''reservation_granted'', Inr (rv_granted_tick v)), (''reservation_expiry'', Inr (rv_expiry_tick v)),
        (''reservation_generation'', Inr (rv_generation v)), (''reservation_consumed'', Inr (flag_u64 (rv_consumed v))),
        (''reservation_released'', Inr (flag_u64 (rv_released v)))]) (rv_resources v)"

definition hash_grant_state :: "CanonicalHasher \<Rightarrow> GrantState \<Rightarrow> CanonicalHasher" where
  "hash_grant_state h g =
     foldl hash_field h
       [(''grant'', Inl (hex_encode (gv_id (gs_view g)))), (''grant_holder'', Inl (hex_encode (gv_holder (gs_view g)))),
        (''grant_scope'', Inl (scope_to_string (gv_scope (gs_view g)))), (''grant_epoch'', Inr (gv_epoch (gs_view g))),
        (''grant_boot'', Inr (boot_sequence (gv_incarnation (gs_view g)))),
        (''grant_granted'', Inr (gv_granted_tick (gs_view g))), (''grant_expiry'', Inr (gv_expiry_tick (gs_view g))),
        (''grant_fenced'', Inr (flag_u64 (gv_fenced (gs_view g)))),
        (''grant_released'', Inr (flag_u64 (gv_released (gs_view g))))]"

record FabricSnapshot =
  sn_epoch :: u64
  sn_incarnation :: Incarnation
  sn_tick :: u64
  sn_generation :: u64
  sn_topology_generation :: u64
  sn_sites :: nat
  sn_optical_nodes :: nat
  sn_ports :: nat
  sn_spans :: nat
  sn_line_systems :: nat
  sn_cross_connects :: nat
  sn_channels :: nat
  sn_connectivity_objects :: nat
  sn_connectivity_active :: nat
  sn_reservations :: nat
  sn_claims :: nat
  sn_evidence_records :: nat
  sn_authority_grants :: nat
  sn_digest :: Digest128

definition snapshot_digest :: "Fabric \<Rightarrow> Digest128" where
  "snapshot_digest F =
     hasher_digest
       (foldl (\<lambda>h (i, g). hash_grant_state h g)
         (foldl (\<lambda>h (i, v). hash_reservation_state h v)
           (foldl (\<lambda>h (i, r). hash_connectivity_state h r)
             (hash_resources F (foldl hash_field hasher_init
               [(''epoch'', Inr (epoch F)), (''tick'', Inr (tick F)), (''generation'', Inr (generation F)),
                (''topology_generation'', Inr (topology_generation F))]))
             (objects F)) (reservations F)) (grants F))"

definition snapshot :: "Fabric \<Rightarrow> FabricSnapshot" where
  "snapshot F =
     \<lparr>sn_epoch = epoch F, sn_incarnation = incarnation F, sn_tick = tick F, sn_generation = generation F,
      sn_topology_generation = topology_generation F,
      sn_sites = count_of_kind F KSite, sn_optical_nodes = count_of_kind F KOpticalNode,
      sn_ports = count_of_kind F KPort, sn_spans = count_of_kind F KSpan, sn_line_systems = count_of_kind F KLineSystem,
      sn_cross_connects = count_of_kind F KCrossConnect, sn_channels = count_of_kind F KChannel,
      sn_connectivity_objects = length (objects F),
      sn_connectivity_active = count_where (\<lambda>r. is_committed_state (cr_state r)) (objects F),
      sn_reservations = length (reservations F), sn_claims = indexed_claims F,
      sn_evidence_records = length (evidence F), sn_authority_grants = length (grants F),
      sn_digest = snapshot_digest F\<rparr>"

section \<open>The answers agree with each other\<close>

text \<open>A committed object is healthy exactly when nothing about its evidence is diagnosed.\<close>

lemma blocking_states:
  "as_aggregate (assess_locked F path q) =
     compose_all (map ee_state (filter (\<lambda>e. rq_blocking (ee_requirement e)) (as_evaluations (assess_locked F path q))))"
proof -
  have "filter (\<lambda>e. rq_blocking (ee_requirement e)) (map (structural_evaluation F) segs) = map (structural_evaluation F) segs" for segs
    by (simp add: filter_id_conv structural_evaluation_def)
  then show ?thesis by (simp add: assess_locked_def Let_def)
qed

lemma segment_evaluated:
  assumes "s \<in> set (pd_segments path)"
  shows "\<exists>e \<in> set (as_evaluations (assess_locked F path q)). rq_subject (ee_requirement e) = seg_resource s \<and>
    rq_blocking (ee_requirement e)"
proof (rule bexI)
  show "structural_evaluation F s \<in> set (as_evaluations (assess_locked F path q))"
    using assms by (simp add: assess_locked_def Let_def)
qed (simp add: structural_evaluation_def)

lemma evidence_diagnostics_empty:
  "healthy (assess_locked F (cr_path r) (cr_requirements r)) \<longrightarrow> evidence_diagnostics F i r = []"
  "pd_segments (cr_path r) \<noteq> [] \<longrightarrow> evidence_diagnostics F i r = [] \<longrightarrow>
     healthy (assess_locked F (cr_path r) (cr_requirements r))"
proof -
  let ?a = "assess_locked F (cr_path r) (cr_requirements r)"
  have empty: "evidence_diagnostics F i r = [] \<longleftrightarrow>
      (\<forall>e \<in> set (as_evaluations ?a). rq_blocking (ee_requirement e) \<longrightarrow> ee_state e = Known)"
    by (auto simp: evidence_diagnostics_def filter_empty_conv)
  have known: "healthy ?a \<longleftrightarrow> filter (\<lambda>e. rq_blocking (ee_requirement e)) (as_evaluations ?a) \<noteq> [] \<and>
      (\<forall>e \<in> set (as_evaluations ?a). rq_blocking (ee_requirement e) \<longrightarrow> ee_state e = Known)"
    by (auto simp: healthy_def is_healthy_def blocking_states compose_all_Known_iff)
  show "healthy ?a \<longrightarrow> evidence_diagnostics F i r = []" by (simp add: empty known)
  show "pd_segments (cr_path r) \<noteq> [] \<longrightarrow> evidence_diagnostics F i r = [] \<longrightarrow> healthy ?a"
    unfolding empty known filter_empty_conv using segment_evaluated [of "hd (pd_segments (cr_path r))" "cr_path r" F "cr_requirements r"] by auto
qed

text \<open>A healthy explanation is healthy in every segment.\<close>

lemma explained_segment:
  assumes "healthy (assess_locked F path q)" "s \<in> set (pd_segments path)"
  shows "sp_generation_current (segment_provenance F path (assess_locked F path q) s) \<and>
    sp_evidence_state (segment_provenance F path (assess_locked F path q) s) = Known"
proof -
  let ?a = "assess_locked F path q"
  obtain st where st: "find_resource F (seg_resource s) = Some st" "rs_generation st = seg_generation s"
    using assms by (auto simp: healthy_iff)
  have known: "ee_state e = Known" if "e \<in> set (as_evaluations ?a)" "rq_blocking (ee_requirement e)" for e
    using assms(1) that by (auto simp: healthy_def is_healthy_def blocking_states compose_all_Known_iff)
  have "filter (\<lambda>e. rq_blocking (ee_requirement e)) (filter (\<lambda>e. rq_subject (ee_requirement e) = seg_resource s)
      (as_evaluations ?a)) \<noteq> []"
    using segment_evaluated [OF assms(2)] by (auto simp: filter_empty_conv)
  then show ?thesis
    using st known by (simp add: segment_provenance_def Let_def compose_all_Known_iff)
qed

text \<open>An active object is authorized exactly when nothing of that kind is diagnosed.\<close>

lemma authorized_entry:
  assumes "map_of (objects F) i = Some r" "distinct (map fst (objects F))" "cr_state r = Active"
  shows "i \<in> set (pr_authorized (active_paths F)) \<longleftrightarrow> ap_authorized (active_entry F i r)"
proof -
  have name: "ap_connectivity (active_entry F j q) = j" for j q by (simp add: active_entry_def Let_def)
  have "i \<in> set (pr_authorized (active_paths F)) \<longleftrightarrow>
      (\<exists>q. (i, q) \<in> set (objects F) \<and> is_committed_state (cr_state q) \<and> ap_authorized (active_entry F i q))"
    by (force simp: active_paths_def Let_def name)
  also have "\<dots> \<longleftrightarrow> is_committed_state (cr_state r) \<and> ap_authorized (active_entry F i r)"
    using assms(1) map_of_is_SomeI [OF assms(2)] map_of_SomeD [OF assms(1)] by (metis option.inject)
  finally show ?thesis using assms(3) by (simp add: is_committed_state_def)
qed

definition blocking_diagnostic :: "Diagnostic \<Rightarrow> bool" where
  "blocking_diagnostic d \<longleftrightarrow> dn_kind d \<in>
     {DUnconfirmedAuthority, DMissingEvidence, DStaleEvidence, DUnsupportedEvidence, DConflictingEvidence}"

lemma undiagnosed_parts:
  assumes "cr_state r = Active"
  shows "list_all (\<lambda>d. \<not> blocking_diagnostic d) (object_diagnostics F (i, r)) \<longleftrightarrow>
    confirmation_diagnostics F i r = [] \<and> evidence_diagnostics F i r = []"
proof -
  have kinds: "kind_for_evidence s \<in> {DMissingEvidence, DStaleEvidence, DUnsupportedEvidence, DConflictingEvidence}" for s
    by (cases s) simp_all
  have all: "list_all blocking_diagnostic (confirmation_diagnostics F i r)" "list_all blocking_diagnostic (evidence_diagnostics F i r)"
    using kinds by (auto simp: confirmation_diagnostics_def evidence_diagnostics_def blocking_diagnostic_def
        diagnostic_now_def list_all_iff)
  have none: "list_all (\<lambda>d. \<not> blocking_diagnostic d) (segment_diagnostics F i s)"
    "list_all (\<lambda>d. \<not> blocking_diagnostic d) (expiry_diagnostics F i r)"
    "list_all (\<lambda>d. \<not> blocking_diagnostic d) (authority_diagnostics F i r)" for s
    by (simp_all add: segment_diagnostics_def expiry_diagnostics_def authority_diagnostics_def blocking_diagnostic_def
        diagnostic_now_def Let_def split: option.split)
  have "list_all (\<lambda>d. \<not> blocking_diagnostic d) ds \<longleftrightarrow> ds = []" if "list_all blocking_diagnostic ds" for ds
    using that by (cases ds) auto
  then show ?thesis
    using all none assms by (auto simp: object_diagnostics_def is_committed_state_def list_all_iff)
qed

lemma authorized_undiagnosed:
  assumes "map_of (objects F) i = Some r" "distinct (map fst (objects F))" "cr_state r = Active"
    "pd_segments (cr_path r) \<noteq> []"
  shows "i \<in> set (pr_authorized (active_paths F)) \<longleftrightarrow>
    list_all (\<lambda>d. \<not> blocking_diagnostic d) (object_diagnostics F (i, r))"
proof -
  have "ap_authorized (active_entry F i r) \<longleftrightarrow>
      confirmed_here F r \<and> healthy (assess_locked F (cr_path r) (cr_requirements r))"
    using assms(3) by (simp add: active_entry_def Let_def)
  also have "\<dots> \<longleftrightarrow> confirmation_diagnostics F i r = [] \<and> evidence_diagnostics F i r = []"
    using evidence_diagnostics_empty [where F = F and r = r and i = i] assms(4) by (auto simp: confirmation_diagnostics_def)
  finally show ?thesis
    using authorized_entry [OF assms(1-3)] undiagnosed_parts [OF assms(3)] by blast
qed

lemma authorized_explained:
  assumes "map_of (objects F) i = Some r" "distinct (map fst (objects F))" "cr_state r = Active" "explain F i = Inr e"
    "i \<in> set (pr_authorized (active_paths F))"
  shows "pe_authority_confirmed e \<and>
    list_all (\<lambda>s. sp_generation_current s \<and> sp_evidence_state s = Known) (pe_segments e)"
proof -
  let ?a = "assess_locked F (cr_path r) (cr_requirements r)"
  have "confirmed_here F r" "healthy ?a"
    using authorized_entry [OF assms(1-3)] assms(5) by (simp_all add: active_entry_def Let_def)
  moreover have "pe_segments e = map (segment_provenance F (cr_path r) ?a) (pd_segments (cr_path r))"
    "pe_authority_confirmed e = confirmed_here F r"
    using assms(1,4) by (auto simp: explain_def Let_def)
  ultimately show ?thesis using explained_segment by (simp add: list_all_iff)
qed

text \<open>Conflicts are diagnosed exactly when the self-check fails.\<close>

lemma conflict_diagnostics_empty: "conflict_diagnostics F res cs = [] \<longleftrightarrow> pairwise_compatible cs"
  by (induction cs) (auto simp: filter_empty_conv list_all_iff)

lemma conflicts_diagnosed:
  "concat (map (\<lambda>(res, cs). conflict_diagnostics F res cs) (claim_index F)) = [] \<longleftrightarrow> no_incompatible_claims F"
  by (auto simp: no_incompatible_claims_def list_all_iff conflict_diagnostics_empty)

lemma diagnosed_kinds:
  "d \<in> set (object_diagnostics F e) \<Longrightarrow> dn_kind d \<noteq> DResourceConflict"
  "d \<in> set (pressure_diagnostics F) \<Longrightarrow> dn_kind d = DCapacityPressure"
proof -
  have "kind_for_evidence s \<noteq> DResourceConflict" for s by (cases s) simp_all
  then show "d \<in> set (object_diagnostics F e) \<Longrightarrow> dn_kind d \<noteq> DResourceConflict"
    by (auto simp: object_diagnostics_def segment_diagnostics_def confirmation_diagnostics_def evidence_diagnostics_def
        expiry_diagnostics_def authority_diagnostics_def diagnostic_now_def Let_def split: option.splits if_splits)
  show "d \<in> set (pressure_diagnostics F) \<Longrightarrow> dn_kind d = DCapacityPressure"
    by (auto simp: pressure_diagnostics_def pressure_def diagnostic_now_def split: if_splits)
qed

section \<open>The digest of a snapshot\<close>

text \<open>What the digest leaves out on purpose: the identifiers of attempts, the histories that name them, and the
  entropy of the process.\<close>

definition scrub_incarnation :: "Incarnation \<Rightarrow> Incarnation" where
  "scrub_incarnation i = nil_incarnation\<lparr>boot_sequence := boot_sequence i\<rparr>"

definition scrub_token :: "AuthorityToken \<Rightarrow> AuthorityToken" where
  "scrub_token t = t\<lparr>tok_incarnation := scrub_incarnation (tok_incarnation t), tok_generation := 0\<rparr>"

definition scrub_object :: "ConnectivityRecord \<Rightarrow> ConnectivityRecord" where
  "scrub_object r =
     r\<lparr>cr_authority := scrub_token (cr_authority r), cr_activation_digest := nil_digest, cr_activation_attempt := 0,
       cr_history := [], cr_transitions_dropped := 0, cr_attempt_log := []\<rparr>"

definition scrub_reservation :: "ReservationView \<Rightarrow> ReservationView" where
  "scrub_reservation v = v\<lparr>rv_incarnation := scrub_incarnation (rv_incarnation v)\<rparr>"

definition scrub_grant :: "GrantState \<Rightarrow> GrantState" where
  "scrub_grant g =
     \<lparr>gs_view = (gs_view g)\<lparr>gv_incarnation := scrub_incarnation (gv_incarnation (gs_view g)), gv_generation := 0\<rparr>,
      gs_fence = nil_fence, gs_has_fence = False\<rparr>"

definition scrub :: "Fabric \<Rightarrow> Fabric" where
  "scrub F =
     F\<lparr>objects := map (apsnd scrub_object) (objects F), reservations := map (apsnd scrub_reservation) (reservations F),
       grants := map (apsnd scrub_grant) (grants F), incarnation := scrub_incarnation (incarnation F),
       evidence := [], attempts := [], attempt_order := [], fences := [], diagnostics := [], journal := []\<rparr>"

lemma scrubbed_hashes:
  "hash_connectivity_state h (scrub_object r) = hash_connectivity_state h r"
  "hash_reservation_state h (scrub_reservation v) = hash_reservation_state h v"
  "hash_grant_state h (scrub_grant g) = hash_grant_state h g"
  by (simp_all add: hash_connectivity_state_def hash_reservation_state_def hash_grant_state_def scrub_object_def
      scrub_reservation_def scrub_grant_def scrub_token_def scrub_incarnation_def)

lemma fold_scrubbed:
  assumes "\<And>h x. f h (g x) = f h x"
  shows "foldl (\<lambda>h (i, x). f h x) h (map (apsnd g) m) = foldl (\<lambda>h (i, x). f h x) h m"
  by (induction m arbitrary: h) (auto simp: assms)

lemma snapshot_digest_scrub: "snapshot_digest (scrub F) = snapshot_digest F"
proof -
  have "hash_resources (scrub F) h = hash_resources F h" for h by (simp add: hash_resources_def scrub_def)
  then show ?thesis
    unfolding snapshot_digest_def
    by (simp add: scrub_def fold_scrubbed scrubbed_hashes)
qed

end
