(* ===== verification/Protocol.thy ===== *)
theory Protocol
  imports StoreLaws Readers
begin

text \<open>
  The control protocol (\<open>protocol.hpp\<close>, \<open>protocol.cpp\<close>): messages as a token and fields in the text format of the
  store, and frames that carry them over a byte stream. The frame codec is fed with the bytes of a
  connection in whatever pieces they arrive; it keeps what is not yet a whole frame and fails for good at the
  first violation.

  The integers of a frame are written as the store writes its own (\<open>write_u16\<close>, \<open>read_u16\<close> and so on); the payload is
  bytes, the text of a message the string they spell.
\<close>

section \<open>Messages\<close>

record ProtocolMessage =
  pm_operation :: string
  pm_request_id :: string
  pm_fields :: "field list"

fun set_first :: "string \<Rightarrow> string \<Rightarrow> field list \<Rightarrow> field list" where
  "set_first key val [] = [(key, val)]"
| "set_first key val ((k, v) # fs) = (if k = key then (k, val) # fs else (k, v) # set_first key val fs)"

definition message_set :: "string \<Rightarrow> string \<Rightarrow> ProtocolMessage \<Rightarrow> ProtocolMessage" where
  "message_set key val m = m\<lparr>pm_fields := set_first key val (pm_fields m)\<rparr>"

definition message_find :: "ProtocolMessage \<Rightarrow> string \<Rightarrow> string option" where
  "message_find m key = map_of (pm_fields m) key"

definition message_has :: "ProtocolMessage \<Rightarrow> string \<Rightarrow> bool" where
  "message_has m key \<longleftrightarrow> message_find m key \<noteq> None"

definition message_get :: "ProtocolMessage \<Rightarrow> string \<Rightarrow> string \<Rightarrow> string" where
  "message_get m key fallback = (case message_find m key of None \<Rightarrow> fallback | Some v \<Rightarrow> v)"

definition serialize :: "ProtocolMessage \<Rightarrow> string" where
  "serialize m =
     pm_operation m @ [newline] @ ''request_id='' @ escape_value (pm_request_id m) @ [newline] @
     concat (map (\<lambda>(k, v). k @ ''='' @ escape_value v @ [newline]) (pm_fields m))"

definition parse_message :: "string \<Rightarrow> Limits \<Rightarrow> ProtocolMessage result" where
  "parse_message s lim =
     (case reader_parse s lim of
        Inl e \<Rightarrow> Inl e
      | Inr reader \<Rightarrow>
         (case require_string ''request_id'' reader of
            Inl e \<Rightarrow> Inl e
          | Inr (request_id, reader') \<Rightarrow>
              Inr \<lparr>pm_operation = rd_token reader, pm_request_id = request_id,
                   pm_fields = fst (take_remaining reader')\<rparr>))"

section \<open>Frames\<close>

definition kFrameMagic :: u32 where "kFrameMagic = 0x3150464F"
definition kFrameVersion :: u16 where "kFrameVersion = 1"
definition kFrameHeaderBytes :: nat where "kFrameHeaderBytes = 24"

record Frame =
  fr_sequence :: u64
  fr_payload :: bytes

record FrameCodec =
  fc_limits :: Limits
  fc_buffer :: bytes
  fc_failed :: bool

definition new_codec :: "Limits \<Rightarrow> FrameCodec" where
  "new_codec lim = \<lparr>fc_limits = lim, fc_buffer = [], fc_failed = False\<rparr>"

text \<open>\<open>FrameCodec::encode\<close>.\<close>

definition encode_frame :: "u64 \<Rightarrow> bytes \<Rightarrow> bytes" where
  "encode_frame sequence payload =
     write_u32 kFrameMagic @ write_u16 kFrameVersion @ write_u16 0 @ write_u64 sequence @
     write_u32 (of_nat (length payload)) @ write_u32 (crc_update 0xFFFFFFFF payload XOR 0xFFFFFFFF) @ payload"

text \<open>The body of the loop of \<open>feed\<close> on the bytes from the current offset on: more bytes are needed, the stream is
  refused, or a frame was taken that ends so many bytes further.\<close>

datatype ('f, 'e) FrameStep = FrameIncomplete | FrameRefused 'e | FrameTaken 'f nat

definition frame_at :: "Limits \<Rightarrow> bytes \<Rightarrow> (Frame, ErrorCode) FrameStep" where
  "frame_at lim header =
     (if \<not> length header \<ge> kFrameHeaderBytes then FrameIncomplete
      else if read_u32 header \<noteq> kFrameMagic then FrameRefused InvalidArgument
      else if read_u16 (drop 4 header) \<noteq> kFrameVersion then FrameRefused InvalidArgument
      else let sequence = read_u64 (drop 8 header); payload_length = unat (read_u32 (drop 16 header));
               checksum = read_u32 (drop 20 header); total = kFrameHeaderBytes + payload_length;
               payload = take payload_length (drop kFrameHeaderBytes header) in
      if payload_length > max_frame_payload_bytes lim then FrameRefused CapacityExceeded
      else if length header < total then FrameIncomplete
      else if crc_update 0xFFFFFFFF payload XOR 0xFFFFFFFF \<noteq> checksum then FrameRefused InvalidArgument
      else FrameTaken \<lparr>fr_sequence = sequence, fr_payload = payload\<rparr> total)"

lemma frame_at_taken: "frame_at lim b = FrameTaken f n \<Longrightarrow> 0 < n \<and> n \<le> length b"
  by (auto simp: frame_at_def kFrameHeaderBytes_def Let_def split: if_splits)

function feed_frames ::
  "Limits \<Rightarrow> bytes \<Rightarrow> nat \<Rightarrow> Frame list \<Rightarrow> Status \<times> nat \<times> Frame list" where
  "feed_frames lim buffer offset out =
     (case frame_at lim (drop offset buffer) of
        FrameIncomplete \<Rightarrow> (Ok, offset, out)
      | FrameRefused e \<Rightarrow> (e, offset, out)
      | FrameTaken f taken \<Rightarrow> feed_frames lim buffer (offset + taken) (out @ [f]))"
  by pat_completeness auto

termination
  by (relation "measure (\<lambda>(lim, buffer, offset, out). length buffer - offset)") (auto dest: frame_at_taken)

declare feed_frames.simps [simp del]

text \<open>\<open>FrameCodec::feed\<close>: the status, the frames that were appended to \<open>out\<close>, and the codec.\<close>

definition feed :: "bytes \<Rightarrow> FrameCodec \<Rightarrow> Status \<times> Frame list \<times> FrameCodec" where
  "feed data c =
     (if fc_failed c then (InvalidArgument, [], c)
      else let buffer = fc_buffer c @ data;
               (status, offset, frames) = feed_frames (fc_limits c) buffer 0 [] in
      if status \<noteq> Ok then (status, frames, c\<lparr>fc_buffer := buffer, fc_failed := True\<rparr>)
      else let rest = drop offset buffer in
      if length rest > max_frame_payload_bytes (fc_limits c) + kFrameHeaderBytes
      then (CapacityExceeded, frames, c\<lparr>fc_buffer := rest, fc_failed := True\<rparr>)
      else (Ok, frames, c\<lparr>fc_buffer := rest\<rparr>))"

definition pending_bytes :: "FrameCodec \<Rightarrow> nat" where
  "pending_bytes c = length (fc_buffer c)"

definition stream_failed :: "FrameCodec \<Rightarrow> bool" where
  "stream_failed c = fc_failed c"

text \<open>The pieces of a stream one after the other, and all the frames they gave.\<close>

fun feed_all :: "bytes list \<Rightarrow> FrameCodec \<Rightarrow> Frame list \<times> FrameCodec" where
  "feed_all [] c = ([], c)"
| "feed_all (d # ds) c =
     (let (_, frames, c') = feed d c; (more, c'') = feed_all ds c' in (frames @ more, c''))"

section \<open>Streams of frames\<close>

text \<open>What a receiver may rely on: a frame or a violation that the bytes so far show stays what it is,
  whatever bytes follow.\<close>

locale framing =
  fixes step :: "'b list \<Rightarrow> ('f, 'e) FrameStep"
  assumes taken_bounds: "step b = FrameTaken f n \<Longrightarrow> 0 < n \<and> n \<le> length b"
    and taken_stays: "step b = FrameTaken f n \<Longrightarrow> step (b @ d) = FrameTaken f n"
    and refused_stays: "step b = FrameRefused e \<Longrightarrow> step (b @ d) = FrameRefused e"
begin

text \<open>The frames at the front of some bytes, the bytes after them, and the violation they end with, if any.\<close>

inductive drains :: "'b list \<Rightarrow> 'f list \<Rightarrow> 'b list \<Rightarrow> 'e option \<Rightarrow> bool" where
  wait: "step b = FrameIncomplete \<Longrightarrow> drains b [] b None"
| refuse: "step b = FrameRefused e \<Longrightarrow> drains b [] b (Some e)"
| deliver: "step b = FrameTaken f n \<Longrightarrow> drains (drop n b) fs r e \<Longrightarrow> drains b (f # fs) r e"

inductive_cases drains_cases: "drains b fs r e"

lemma drains_unique: "drains b fs r e \<Longrightarrow> drains b fs' r' e' \<Longrightarrow> fs' = fs \<and> r' = r \<and> e' = e"
proof (induction arbitrary: fs' r' e' rule: drains.induct)
  case (deliver b f n fs r e)
  from deliver.prems deliver.hyps(1) obtain gs where "fs' = f # gs" "drains (drop n b) gs r' e'"
    by (cases rule: drains.cases) auto
  then show ?case using deliver.IH by blast
qed (auto elim: drains_cases)

lemma drains_more:
  "drains b fs r e \<Longrightarrow> e = None \<Longrightarrow> drains (r @ d) gs r' e' \<Longrightarrow> drains (b @ d) (fs @ gs) r' e'"
proof (induction rule: drains.induct)
  case (deliver b f n fs r e)
  then have "drains (drop n (b @ d)) (fs @ gs) r' e'" using taken_bounds by simp
  then show ?case using drains.deliver [OF taken_stays [OF deliver.hyps(1)]] by simp
qed auto

lemma drains_refused: "drains b fs r e \<Longrightarrow> e = Some x \<Longrightarrow> drains (b @ d) fs (r @ d) e"
proof (induction rule: drains.induct)
  case (deliver b f n fs r e)
  then have "drains (drop n (b @ d)) fs (r @ d) e" using taken_bounds by simp
  then show ?case by (rule drains.deliver [OF taken_stays [OF deliver.hyps(1)]])
qed (auto intro: drains.refuse refused_stays)

lemma drains_suffix: "drains b fs r e \<Longrightarrow> \<exists>p. b = p @ r"
  by (induction rule: drains.induct) (auto, metis append.assoc append_take_drop_id)

end

text \<open>The integers of a header depend on its own bytes only.\<close>

lemma reads_front:
  "4 \<le> length b \<Longrightarrow> read_u32 (b @ d) = read_u32 b" "2 \<le> length b \<Longrightarrow> read_u16 (b @ d) = read_u16 b"
  "8 \<le> length b \<Longrightarrow> read_u64 (b @ d) = read_u64 b"
  by (auto simp: read_u32_def read_u16_def read_u64_def upt_rec nth_append)

lemma frame_at_more:
  assumes "frame_at lim b \<noteq> FrameIncomplete" shows "frame_at lim (b @ d) = frame_at lim b"
proof -
  have "24 \<le> length b" using assms by (auto simp: frame_at_def kFrameHeaderBytes_def split: if_splits)
  then have "read_u32 (b @ d) = read_u32 b" "read_u16 (drop 4 (b @ d)) = read_u16 (drop 4 b)"
    "read_u64 (drop 8 (b @ d)) = read_u64 (drop 8 b)" "read_u32 (drop 16 (b @ d)) = read_u32 (drop 16 b)"
    "read_u32 (drop 20 (b @ d)) = read_u32 (drop 20 b)"
    by (simp_all add: reads_front)
  then show ?thesis
    using assms by (auto simp: frame_at_def Let_def kFrameHeaderBytes_def split: if_splits)
qed

interpretation frames: framing "frame_at lim" for lim
  by unfold_locales (auto dest: frame_at_taken simp: frame_at_more)

lemma feed_frames_drains:
  "feed_frames lim buffer offset out = (status, offset', out') \<Longrightarrow>
   \<exists>fs. out' = out @ fs \<and> offset \<le> offset' \<and>
     frames.drains lim (drop offset buffer) fs (drop offset' buffer) (if status = Ok then None else Some status)"
proof (induction lim buffer offset out rule: feed_frames.induct)
  case (1 lim buffer offset out)
  have refused: "e \<noteq> Ok" if "frame_at lim (drop offset buffer) = FrameRefused e" for e
    using that by (auto simp: frame_at_def Let_def split: if_splits)
  show ?case
  proof (cases "frame_at lim (drop offset buffer)")
    case FrameIncomplete
    then show ?thesis using 1(2) by (auto simp: feed_frames.simps intro: frames.wait)
  next
    case (FrameRefused e)
    then show ?thesis using 1(2) refused by (auto simp: feed_frames.simps intro: frames.refuse)
  next
    case (FrameTaken f n)
    then have "feed_frames lim buffer (offset + n) (out @ [f]) = (status, offset', out')"
      using 1(2) by (simp add: feed_frames.simps [of lim buffer offset])
    from 1(1) [OF FrameTaken this] obtain fs where fs: "out' = out @ f # fs" "offset + n \<le> offset'"
      "frames.drains lim (drop (offset + n) buffer) fs (drop offset' buffer) (if status = Ok then None else Some status)"
      by auto
    then have "frames.drains lim (drop offset buffer) (f # fs) (drop offset' buffer) (if status = Ok then None else Some status)"
      by (intro frames.deliver [OF FrameTaken]) (simp add: add.commute)
    then show ?thesis using fs(1,2) by (intro exI [of _ "f # fs"]) simp
  qed
qed

lemma drains_rest: "frames.drains lim b fs r None \<Longrightarrow> frame_at lim r = FrameIncomplete"
  by (induction b fs r "None :: ErrorCode option" rule: frames.drains.induct) simp_all

text \<open>What one call does, without the details of the loop. The last check of the code never fires.\<close>

lemma feed_drains:
  assumes live: "\<not> fc_failed c"
  obtains fs r e where "frames.drains (fc_limits c) (fc_buffer c @ data) fs r e"
    "feed data c = (case e of
       None \<Rightarrow> (Ok, fs, c\<lparr>fc_buffer := r\<rparr>)
     | Some x \<Rightarrow> (x, fs, c\<lparr>fc_buffer := fc_buffer c @ data, fc_failed := True\<rparr>))"
proof -
  let ?b = "fc_buffer c @ data"
  obtain status offset' out' where run: "feed_frames (fc_limits c) ?b 0 [] = (status, offset', out')"
    by (metis prod_cases3)
  from feed_frames_drains [OF this]
  have drains: "frames.drains (fc_limits c) ?b out' (drop offset' ?b) (if status = Ok then None else Some status)"
    by auto
  have "length (drop offset' ?b) \<le> max_frame_payload_bytes (fc_limits c) + kFrameHeaderBytes" if "status = Ok"
  proof -
    have "frame_at (fc_limits c) (drop offset' ?b) = FrameIncomplete" using drains that drains_rest by auto
    then show ?thesis by (auto simp: frame_at_def Let_def split: if_splits)
  qed
  then have "feed data c = (case if status = Ok then None else Some status of
       None \<Rightarrow> (Ok, out', c\<lparr>fc_buffer := drop offset' ?b\<rparr>)
     | Some x \<Rightarrow> (x, out', c\<lparr>fc_buffer := ?b, fc_failed := True\<rparr>))"
    using live run by (auto simp: feed_def Let_def)
  then show ?thesis using that drains by blast
qed

lemma feed_failed: "fc_failed c \<Longrightarrow> feed_all ds c = ([], c)"
  by (induction ds) (simp_all add: feed_def)

lemma feed_all_drains:
  assumes "\<not> fc_failed c" "frame_at (fc_limits c) (fc_buffer c) = FrameIncomplete"
  shows "\<exists>r e. frames.drains (fc_limits c) (fc_buffer c @ concat ds) (fst (feed_all ds c)) r e \<and>
    (fc_failed (snd (feed_all ds c)) \<longleftrightarrow> e \<noteq> None) \<and>
    (e = None \<longrightarrow> snd (feed_all ds c) = c\<lparr>fc_buffer := r\<rparr>)"
  using assms
proof (induction ds arbitrary: c)
  case Nil
  then show ?case by (auto intro!: exI [of _ "fc_buffer c"] exI [of _ None] frames.wait)
next
  case (Cons d ds)
  from feed_drains [OF Cons.prems(1)] obtain fs r e
    where first: "frames.drains (fc_limits c) (fc_buffer c @ d) fs r e"
      and fed: "feed d c = (case e of
        None \<Rightarrow> (Ok, fs, c\<lparr>fc_buffer := r\<rparr>)
      | Some x \<Rightarrow> (x, fs, c\<lparr>fc_buffer := fc_buffer c @ d, fc_failed := True\<rparr>))"
    by metis
  show ?case
  proof (cases e)
    case (Some x)
    have "frames.drains (fc_limits c) (fc_buffer c @ concat (d # ds)) fs (r @ concat ds) e"
      using frames.drains_refused [OF first Some, of "concat ds"] by simp
    then show ?thesis using Some by (auto simp: fed feed_failed intro!: exI [of _ "r @ concat ds"] exI [of _ e])
  next
    case None
    let ?c = "c\<lparr>fc_buffer := r\<rparr>"
    have "frame_at (fc_limits ?c) (fc_buffer ?c) = FrameIncomplete" using first None drains_rest by simp
    with Cons.IH [of ?c] Cons.prems(1) obtain r' e' where
      rest: "frames.drains (fc_limits c) (r @ concat ds) (fst (feed_all ds ?c)) r' e'"
      "fc_failed (snd (feed_all ds ?c)) \<longleftrightarrow> e' \<noteq> None"
      "e' = None \<longrightarrow> snd (feed_all ds ?c) = ?c\<lparr>fc_buffer := r'\<rparr>"
      by auto
    have "frames.drains (fc_limits c) (fc_buffer c @ concat (d # ds)) (fs @ fst (feed_all ds ?c)) r' e'"
      using frames.drains_more [OF first None rest(1)] by simp
    then show ?thesis using rest(2,3) None by (auto simp: fed case_prod_beta intro!: exI [of _ r'] exI [of _ e'])
  qed
qed

lemma new_codec_waits: "frame_at lim [] = FrameIncomplete"
  by (simp add: frame_at_def kFrameHeaderBytes_def)

text \<open>A frame that the receiver's bound admits.\<close>

definition frame_fits :: "Limits \<Rightarrow> Frame \<Rightarrow> bool" where
  "frame_fits lim f \<longleftrightarrow> length (fr_payload f) \<le> max_frame_payload_bytes lim \<and> length (fr_payload f) < 2 ^ 32"

definition frame_bytes :: "Frame \<Rightarrow> bytes" where
  "frame_bytes f = encode_frame (fr_sequence f) (fr_payload f)"

lemma frame_bytes_reads:
  "read_u32 (frame_bytes f @ d) = kFrameMagic" "read_u16 (drop 4 (frame_bytes f @ d)) = kFrameVersion"
  "read_u64 (drop 8 (frame_bytes f @ d)) = fr_sequence f"
  "read_u32 (drop 16 (frame_bytes f @ d)) = of_nat (length (fr_payload f))"
  "read_u32 (drop 20 (frame_bytes f @ d)) = crc_update 0xFFFFFFFF (fr_payload f) XOR 0xFFFFFFFF"
  "drop kFrameHeaderBytes (frame_bytes f @ d) = fr_payload f @ d"
  by (simp_all add: frame_bytes_def encode_frame_def kFrameHeaderBytes_def)

lemma length_frame_bytes: "length (frame_bytes f) = kFrameHeaderBytes + length (fr_payload f)"
  by (simp add: frame_bytes_def encode_frame_def kFrameHeaderBytes_def)

lemma fits_narrow: "n < 2 ^ 32 \<Longrightarrow> unat (of_nat n :: u32) = n"
  by (simp add: unat_of_nat take_bit_nat_eq_self)

lemma frame_at_frame:
  assumes "frame_fits lim f"
  shows "frame_at lim (frame_bytes f @ d) = FrameTaken f (length (frame_bytes f))"
proof -
  have "unat (of_nat (length (fr_payload f)) :: u32) = length (fr_payload f)" "length (fr_payload f) \<le> max_frame_payload_bytes lim"
    using assms by (simp_all add: frame_fits_def fits_narrow)
  moreover have "\<lparr>fr_sequence = fr_sequence f, fr_payload = fr_payload f\<rparr> = f" by simp
  ultimately show ?thesis
    by (simp add: frame_at_def Let_def frame_bytes_reads length_frame_bytes del: drop_append)
qed

lemma frame_at_cut:
  assumes "frame_fits lim f" "k < length (frame_bytes f)"
  shows "frame_at lim (take k (frame_bytes f)) = FrameIncomplete"
proof (rule ccontr)
  let ?b = "take k (frame_bytes f)"
  assume "frame_at lim ?b \<noteq> FrameIncomplete"
  then have "frame_at lim (?b @ drop k (frame_bytes f)) = frame_at lim ?b" by (rule frame_at_more)
  then have "frame_at lim ?b = FrameTaken f (length (frame_bytes f))"
    using frame_at_frame [OF assms(1), of "[]"] by simp
  then show False using frame_at_taken [of lim ?b] assms(2) by auto
qed

lemma drains_frames:
  assumes "list_all (frame_fits lim) fs" "frame_at lim r = FrameIncomplete"
  shows "frames.drains lim (concat (map frame_bytes fs) @ r) fs r None"
  using assms by (induction fs) (auto intro: frames.wait frames.deliver [OF frame_at_frame])

text \<open>Every way to cut the stream gives the same frames and the same state of the codec.\<close>

lemma feed_all_stream:
  assumes "list_all (frame_fits lim) fs" "frame_at lim r = FrameIncomplete" "concat ds = concat (map frame_bytes fs) @ r"
  shows "feed_all ds (new_codec lim) = (fs, (new_codec lim)\<lparr>fc_buffer := r\<rparr>)"
proof -
  from feed_all_drains [of "new_codec lim" ds] obtain r' e
    where run: "frames.drains lim (concat ds) (fst (feed_all ds (new_codec lim))) r' e"
      "e = None \<longrightarrow> snd (feed_all ds (new_codec lim)) = (new_codec lim)\<lparr>fc_buffer := r'\<rparr>"
    by (auto simp: new_codec_def new_codec_waits)
  from frames.drains_unique [OF run(1) [unfolded assms(3)] drains_frames [OF assms(1,2)]] run(2)
  show ?thesis by (cases "feed_all ds (new_codec lim)") auto
qed

lemma feed_all_chunks:
  assumes "concat ds = concat ds'"
  shows "fst (feed_all ds (new_codec lim)) = fst (feed_all ds' (new_codec lim)) \<and>
    stream_failed (snd (feed_all ds (new_codec lim))) = stream_failed (snd (feed_all ds' (new_codec lim)))"
proof -
  have run: "\<exists>r e. frames.drains lim (concat cs) (fst (feed_all cs (new_codec lim))) r e \<and>
      (stream_failed (snd (feed_all cs (new_codec lim))) \<longleftrightarrow> e \<noteq> None)" for cs
    using feed_all_drains [of "new_codec lim" cs] by (auto simp: new_codec_def new_codec_waits stream_failed_def)
  from run [of ds] run [of ds'] assms show ?thesis by (metis frames.drains_unique)
qed

text \<open>The codec never keeps more than one frame of the largest size.\<close>

lemma feed_bounded:
  assumes "\<not> fc_failed c"
  shows "fst (feed data c) = Ok \<Longrightarrow> pending_bytes (snd (snd (feed data c))) \<le> max_frame_payload_bytes (fc_limits c) + kFrameHeaderBytes"
  using assms by (auto simp: feed_def pending_bytes_def Let_def split: prod.splits if_splits)

section \<open>Messages survive the wire\<close>

lemma serialize_render:
  "serialize m = pm_operation m @ newline # render ((''request_id'', pm_request_id m) # pm_fields m)"
  by (simp add: serialize_def render_def field_line_def)

definition message_sound :: "Limits \<Rightarrow> ProtocolMessage \<Rightarrow> bool" where
  "message_sound lim m \<longleftrightarrow>
     plain_key (pm_operation m) \<and> (\<forall>f \<in> set (pm_fields m). plain_key (fst f)) \<and>
     distinct (''request_id'' # map fst (pm_fields m)) \<and>
     length (pm_fields m) < kMaxFields \<and> length (pm_fields m) < max_journal_records lim"

lemma take_all: "map fst (filter (\<lambda>(f, c). \<not> c) (zip fs (replicate (length fs) False))) = fs"
  by (induction fs) auto

lemma parse_serialize:
  assumes "message_sound lim m"
  shows "parse_message (serialize m) lim = Inr m"
proof -
  let ?fs = "(''request_id'', pm_request_id m) # pm_fields m"
  have "plain_key ''request_id''" by (simp add: plain_key_def)
  then have "reader_parse (serialize m) lim = Inr (new_reader (pm_operation m) ?fs)"
    using assms reader_parse_render [of "pm_operation m" ?fs lim] by (simp add: serialize_render message_sound_def)
  then show ?thesis
    by (simp add: parse_message_def require_string_def new_reader_def compose_key_def compose_prefixes_def
        take_remaining_def take_all)
qed

lemma remaining_fields:
  assumes "well_formed_fields fs"
  shows "well_formed_fields (map fst (filter (\<lambda>(f, c). \<not> c) (zip fs cs)))"
proof -
  have "set (map fst (filter P (zip fs cs))) \<subseteq> set fs \<and> length (filter P (zip fs cs)) \<le> length fs \<and>
      (distinct (map fst fs) \<longrightarrow> distinct (map (fst \<circ> fst) (filter P (zip fs cs))))" for P
  proof (induction fs arbitrary: cs)
    case (Cons f fs)
    show ?case using Cons.IH [of "tl cs"] by (cases cs) (auto simp: image_iff, force)
  qed simp
  from this [of "\<lambda>(f, c). \<not> c"] assms show ?thesis
    by (auto simp: well_formed_fields_def dest!: set_zip_leftD)
qed

text \<open>What \<open>parse_message\<close> accepts has distinct plain keys.\<close>

lemma parse_message_sound:
  assumes "parse_message s lim = Inr m"
  shows "plain_key (pm_operation m) \<and> well_formed_fields (pm_fields m)"
proof -
  obtain rd v rd' where rd: "reader_parse s lim = Inr rd" and req: "require_string ''request_id'' rd = Inr (v, rd')"
    and m: "m = \<lparr>pm_operation = rd_token rd, pm_request_id = v, pm_fields = fst (take_remaining rd')\<rparr>"
    using assms by (auto simp: parse_message_def split: sum.splits)
  have fields: "rd_fields rd' = rd_fields rd"
    using req by (auto simp: require_string_def split: option.splits)
  have "well_formed_fields (pm_fields m)"
    using remaining_fields [of "rd_fields rd" "rd_consumed rd'"] reader_parse_well_formed [OF rd]
    by (simp add: m take_remaining_def fields)
  then show ?thesis using reader_parse_well_formed [OF rd] by (simp add: m)
qed

end
