(* ===== verification/Server.thy ===== *)
theory Server
  imports Reports Protocol "HOL-Library.Monad_Syntax"
begin

text \<open>
  The request dispatcher (\<open>server.cpp\<close>): the fields of a request are read and checked, one operation of
  the runtime is called, and its result becomes the fields of the response.

  The flag \<open>ok\<close> that the readers of the source clear is an option here: a request that clears it is answered
  without calling the runtime. \<open>Circumstances\<close> holds what the request does not determine: the outcomes of the
  store, the planner's proposal, the states in which the calls before the operation itself saw the runtime
  (other connections may be served in between), and the detail text of the result, which the
  operations of the model leave out.
\<close>

section \<open>Tokens\<close>

fun error_to_string :: "ErrorCode \<Rightarrow> string" where
  "error_to_string Ok = ''ok''"
| "error_to_string InvalidArgument = ''invalid_argument''"
| "error_to_string NameInvalid = ''name_invalid''"
| "error_to_string IdentityCollision = ''identity_collision''"
| "error_to_string NotFound = ''not_found''"
| "error_to_string AlreadyExists = ''already_exists''"
| "error_to_string CapacityExceeded = ''capacity_exceeded''"
| "error_to_string Unsupported = ''unsupported''"
| "error_to_string UnsupportedBoundary = ''unsupported_boundary''"
| "error_to_string IllegalTransition = ''illegal_transition''"
| "error_to_string StaleGeneration = ''stale_generation''"
| "error_to_string StaleEpoch = ''stale_epoch''"
| "error_to_string StaleIncarnation = ''stale_incarnation''"
| "error_to_string StaleEvidence = ''stale_evidence''"
| "error_to_string MissingEvidence = ''missing_evidence''"
| "error_to_string ConflictingEvidence = ''conflicting_evidence''"
| "error_to_string ConflictingClaim = ''conflicting_claim''"
| "error_to_string ReservationExpired = ''reservation_expired''"
| "error_to_string ReservationNotHeld = ''reservation_not_held''"
| "error_to_string AttemptConflict = ''attempt_conflict''"
| "error_to_string NotAuthoritative = ''not_authoritative''"
| "error_to_string InvariantViolation = ''invariant_violation''"
| "error_to_string StoreLocked = ''store_locked''"
| "error_to_string StoreCorrupt = ''store_corrupt''"
| "error_to_string StoreVersionUnsupported = ''store_version_unsupported''"
| "error_to_string StoreIo = ''store_io''"
| "error_to_string Closed = ''closed''"
| "error_to_string Internal = ''internal''"

fun topology_outcome_to_string :: "TopologyOutcome \<Rightarrow> string" where
  "topology_outcome_to_string Registered = ''registered''"
| "topology_outcome_to_string AlreadyRegistered = ''already_registered''"
| "topology_outcome_to_string TopologyRefused = ''refused''"

fun intent_outcome_to_string :: "IntentOutcome \<Rightarrow> string" where
  "intent_outcome_to_string IntentAccepted = ''accepted''"
| "intent_outcome_to_string IntentDuplicate = ''duplicate''"
| "intent_outcome_to_string IntentRefused = ''refused''"

fun recovery_status_to_string :: "RecoveryStatus \<Rightarrow> string" where
  "recovery_status_to_string RsMemoryOnly = ''memory-only''"
| "recovery_status_to_string RsCreated = ''created''"
| "recovery_status_to_string RsClean = ''clean''"
| "recovery_status_to_string RsTailDiscarded = ''tail-discarded''"
| "recovery_status_to_string RsRejected = ''rejected''"

fun outcome_token :: "OutcomeCode \<Rightarrow> string" where
  "outcome_token Applied = ''applied''"
| "outcome_token IdempotentReplay = ''idempotent_replay''"
| "outcome_token AlreadySatisfied = ''already_satisfied''"
| "outcome_token Refused = ''refused''"

definition version_string :: string where "version_string = ''1.0.0''"

section \<open>Reading the fields of a request\<close>

definition parse_u64_field :: "ProtocolMessage \<Rightarrow> string \<Rightarrow> u64 \<Rightarrow> u64 option" where
  "parse_u64_field m key fallback =
     (case message_find m key of None \<Rightarrow> Some fallback | Some found \<Rightarrow> parse_u64 found)"

definition require_u64_field :: "ProtocolMessage \<Rightarrow> string \<Rightarrow> u64 option" where
  "require_u64_field m key = (case message_find m key of None \<Rightarrow> None | Some found \<Rightarrow> parse_u64 found)"

text \<open>The text of an identity: bare hexadecimal digits, a resource reference whose kind is not looked at, or
  decimal digits.\<close>

definition parse_id :: "string \<Rightarrow> u64 option" where
  "parse_id found =
     (case parse_hex_u64 found of
        Some i \<Rightarrow> Some i
      | None \<Rightarrow>
         (case ref_parse found of
            Some reference \<Rightarrow> Some (ref_id reference)
          | None \<Rightarrow> if found \<noteq> [] \<and> length found \<le> 20 then parse_u64 found else None))"

definition require_id :: "ProtocolMessage \<Rightarrow> string \<Rightarrow> u64 option" where
  "require_id m key = (case message_find m key of None \<Rightarrow> None | Some found \<Rightarrow> parse_id found)"

definition require_resource :: "ProtocolMessage \<Rightarrow> string \<Rightarrow> ResourceRef option" where
  "require_resource m key = (case message_find m key of None \<Rightarrow> None | Some found \<Rightarrow> ref_parse found)"

definition parse_sharing :: "ProtocolMessage \<Rightarrow> SharingMode option" where
  "parse_sharing m =
     (let val = message_get m ''sharing'' ''exclusive'' in
      if val = ''exclusive'' then Some Exclusive else if val = ''channelized'' then Some Channelized else None)"

definition parse_scope :: "ProtocolMessage \<Rightarrow> AuthorityScope option" where
  "parse_scope m =
     (let kind = message_get m ''scope_kind'' ''global'' in
      if kind = ''global'' then Some scope_global
      else if kind = ''site'' then map_option of_site (require_id m ''scope_site'') else None)"

definition parse_authority :: "ProtocolMessage \<Rightarrow> AuthorityToken option" where
  "parse_authority m =
     do {
       grant \<leftarrow> require_id m ''grant'';
       holder \<leftarrow> require_id m ''holder'';
       ep \<leftarrow> require_u64_field m ''epoch'';
       gen \<leftarrow> parse_u64_field m ''authority_generation'' 0;
       scope \<leftarrow> parse_scope m;
       boot \<leftarrow> parse_u64_field m ''incarnation_boot'' 0;
       Some \<lparr>tok_grant = grant, tok_holder = holder, tok_epoch = ep,
         tok_incarnation = nil_incarnation\<lparr>boot_sequence := boot\<rparr>, tok_scope = scope, tok_generation = gen\<rparr>
     }"

definition require_kind_field :: "ProtocolMessage \<Rightarrow> string \<Rightarrow> bool \<Rightarrow> bool" where
  "require_kind_field m key fallback =
     (case message_find m key of None \<Rightarrow> fallback | Some found \<Rightarrow> found = ''1'' \<or> found = ''true'')"

text \<open>The loops over a list of identities separated by commas; empty tokens are skipped.\<close>

function parse_id_list :: "string \<Rightarrow> u64 list option" where
  "parse_id_list s =
     (let token = takeWhile (\<lambda>c. c \<noteq> CHR '','') s in
      case (if token = [] then Some [] else map_option (\<lambda>i. [i]) (parse_hex_u64 token)) of
        None \<Rightarrow> None
      | Some ids \<Rightarrow>
         (case dropWhile (\<lambda>c. c \<noteq> CHR '','') s of
            [] \<Rightarrow> Some ids
          | comma # rest \<Rightarrow> map_option (append ids) (parse_id_list rest)))"
  by pat_completeness auto

termination
proof (relation "measure length")
  fix s token ids comma rest
  assume "dropWhile (\<lambda>c. c \<noteq> CHR '','') s = comma # rest"
  then show "(rest, s) \<in> measure length"
    using length_dropWhile_le [of "\<lambda>c. c \<noteq> CHR '',''" s] by simp
qed simp

declare parse_id_list.simps [simp del]

section \<open>Responses\<close>

definition set_field :: "string \<Rightarrow> string \<Rightarrow> ProtocolMessage \<Rightarrow> ProtocolMessage" where
  "set_field key val m = m\<lparr>pm_fields := pm_fields m @ [(key, val)]\<rparr>"

definition base_response :: "ProtocolMessage \<Rightarrow> ProtocolMessage" where
  "base_response request =
     \<lparr>pm_operation = pm_operation request, pm_request_id = pm_request_id request, pm_fields = []\<rparr>"

text \<open>The base response and the calls of \<open>set_field\<close> that follow, in their order.\<close>

definition answer :: "ProtocolMessage \<Rightarrow> field list \<Rightarrow> ProtocolMessage" where
  "answer request fs = foldl (\<lambda>m (k, v). set_field k v m) (base_response request) fs"

definition failure_response :: "ProtocolMessage \<Rightarrow> string \<Rightarrow> string \<Rightarrow> ProtocolMessage" where
  "failure_response request code detail =
     answer request [(''status'', ''refused''), (''refusal'', code), (''detail'', detail)]"

definition detail_field :: "string \<Rightarrow> field list" where
  "detail_field detail = (if detail = [] then [] else [(''detail'', detail)])"

definition size_text :: "nat \<Rightarrow> string" where
  "size_text n = to_decimal (of_nat n)"

text \<open>\<open>add_outcome\<close> and \<open>add_authority_fields\<close>.\<close>

definition outcome_fields :: "OutcomeCode \<Rightarrow> RefusalCode \<Rightarrow> string \<Rightarrow> field list" where
  "outcome_fields outcome refusal detail =
     [(''status'', if outcome = Refused then ''refused'' else ''ok''), (''outcome'', outcome_token outcome),
      (''refusal'', refusal_to_string refusal)] @ detail_field detail"

definition authority_fields :: "AuthorityToken \<Rightarrow> field list" where
  "authority_fields t =
     [(''grant'', hex_encode (tok_grant t)), (''holder'', hex_encode (tok_holder t)),
      (''epoch'', to_decimal (tok_epoch t)), (''authority_generation'', to_decimal (tok_generation t)),
      (''scope_kind'', if scope_kind (tok_scope t) = ScopeSite then ''site'' else ''global'')] @
     (if scope_kind (tok_scope t) = ScopeSite then [(''scope_site'', hex_encode (scope_site (tok_scope t)))] else []) @
     [(''incarnation_boot'', to_decimal (boot_sequence (tok_incarnation t)))]"

section \<open>The requests\<close>

record Circumstances =
  cx_io :: StoreIo
  cx_io_link :: StoreIo
  cx_planner :: "RouteProposal result option"
  cx_before :: Fabric
  cx_between :: Fabric
  cx_recovery_status :: RecoveryStatus
  cx_detail :: string
  cx_check_detail :: "nat \<Rightarrow> string"

type_synonym handler = "Circumstances \<Rightarrow> ProtocolMessage \<Rightarrow> Fabric \<Rightarrow> ProtocolMessage \<times> Fabric"

text \<open>A request whose fields are malformed is answered with a failure; otherwise the rest of its branch runs.\<close>

definition with_fields ::
  "string \<Rightarrow> 'q option \<Rightarrow> ProtocolMessage \<Rightarrow> ('q \<Rightarrow> Fabric \<Rightarrow> ProtocolMessage \<times> Fabric) \<Rightarrow> Fabric \<Rightarrow>
   ProtocolMessage \<times> Fabric" where
  "with_fields detail parsed request branch F =
     (case parsed of
        None \<Rightarrow> (failure_response request ''invalid_argument'' detail, F)
      | Some q \<Rightarrow> branch q F)"

subsection \<open>Session\<close>

text \<open>The answer is put together from calls that lock one after the other: the epoch and the tick may be those of earlier
  states. The incarnation and the mode of the store never change while a process runs.\<close>

definition dispatch_hello :: handler where
  "dispatch_hello cx request F =
     (answer request
        [(''status'', ''ok''), (''version'', version_string),
         (''boot_sequence'', to_decimal (boot_sequence (incarnation F))),
         (''instance'', digest_to_string (inc_instance (incarnation F))), (''epoch'', to_decimal (epoch (cx_before cx))),
         (''tick'', to_decimal (tick (cx_between cx))), (''generation'', to_decimal (generation F)),
         (''recovery_status'', recovery_status_to_string (cx_recovery_status cx)),
         (''memory_only'', flag_text (memory_only F))], F)"

definition dispatch_shutdown :: handler where
  "dispatch_shutdown cx request F =
     (answer request [(''status'', ''ok''), (''detail'', ''shutdown accepted'')], F)"

subsection \<open>Topology\<close>

definition registration_response :: "Circumstances \<Rightarrow> ProtocolMessage \<Rightarrow> RegistrationResult \<Rightarrow> ProtocolMessage" where
  "registration_response cx request r =
     answer request
       ([(''status'', if reg_outcome r = TopologyRefused then ''refused'' else ''ok''),
         (''outcome'', topology_outcome_to_string (reg_outcome r)), (''refusal'', refusal_to_string (reg_refusal r)),
         (''resource'', ref_to_string (reg_resource r)), (''generation'', to_decimal (reg_generation r))] @
        detail_field (cx_detail cx))"

text \<open>A registration request: its fields, and the call that registers the resource.\<close>

definition dispatch_registration ::
  "'q option \<Rightarrow> ('q \<Rightarrow> Fabric \<Rightarrow> RegistrationResult \<times> Fabric) \<Rightarrow> handler" where
  "dispatch_registration parsed register cx request F =
     with_fields ''the registration fields are malformed'' parsed request
       (\<lambda>q F. let (r, F') = register q F in (registration_response cx request r, F')) F"

definition site_fields :: "ProtocolMessage \<Rightarrow> SiteRegistration option" where
  "site_fields m = do {
     sharing \<leftarrow> parse_sharing m;
     Some \<lparr>site_name = message_get m ''name'' [], site_region = message_get m ''region'' [], site_sharing = sharing,
       site_description = []\<rparr> }"

definition node_fields :: "ProtocolMessage \<Rightarrow> OpticalNodeRegistration option" where
  "node_fields m = do {
     site \<leftarrow> require_id m ''site'';
     sharing \<leftarrow> parse_sharing m;
     Some \<lparr>node_name = message_get m ''name'' [], node_site = site, node_role = message_get m ''role'' [],
       node_sharing = sharing\<rparr> }"

definition port_fields :: "ProtocolMessage \<Rightarrow> PortRegistration option" where
  "port_fields m = do {
     node \<leftarrow> require_id m ''node'';
     sharing \<leftarrow> parse_sharing m;
     Some \<lparr>port_name = message_get m ''name'' [], port_node = node, port_role = message_get m ''role'' [],
       port_sharing = sharing\<rparr> }"

definition span_fields :: "ProtocolMessage \<Rightarrow> SpanRegistration option" where
  "span_fields m = do {
     a \<leftarrow> require_id m ''endpoint_a'';
     b \<leftarrow> require_id m ''endpoint_b'';
     metres \<leftarrow> parse_u64_field m ''length'' 0;
     sharing \<leftarrow> parse_sharing m;
     Some \<lparr>span_name = message_get m ''name'' [], span_endpoint_a = a, span_endpoint_b = b,
       span_declared_length_metres = metres, span_sharing = sharing\<rparr> }"

definition line_fields :: "ProtocolMessage \<Rightarrow> LineSystemRegistration option" where
  "line_fields m = do {
     spans \<leftarrow> parse_id_list (message_get m ''spans'' []);
     endpoints \<leftarrow> parse_id_list (message_get m ''endpoints'' []);
     sharing \<leftarrow> parse_sharing m;
     Some \<lparr>line_name = message_get m ''name'' [], line_spans = spans, line_endpoints = endpoints,
       line_sharing = sharing\<rparr> }"

definition cross_connect_fields :: "ProtocolMessage \<Rightarrow> CrossConnectRegistration option" where
  "cross_connect_fields m = do {
     node \<leftarrow> require_id m ''node'';
     ingress \<leftarrow> require_id m ''ingress'';
     egress \<leftarrow> require_id m ''egress'';
     sharing \<leftarrow> parse_sharing m;
     Some \<lparr>xc_name = message_get m ''name'' [], xc_node = node, xc_ingress = ingress, xc_egress = egress,
       xc_sharing = sharing\<rparr> }"

definition channel_fields :: "ProtocolMessage \<Rightarrow> ChannelRegistration option" where
  "channel_fields m = do {
     index \<leftarrow> parse_u64_field m ''index'' 0;
     frequency \<leftarrow> parse_u64_field m ''frequency'' 0;
     sharing \<leftarrow> parse_sharing m;
     Some \<lparr>ch_name = message_get m ''name'' [], ch_index = ucast index, ch_nominal_frequency_ghz = frequency,
       ch_band = message_get m ''band'' [], ch_sharing = sharing\<rparr> }"

definition dispatch_describe_resource :: handler where
  "dispatch_describe_resource cx request F =
     with_fields ''the resource reference is malformed'' (require_resource request ''resource'') request
       (\<lambda>resource F. case describe_resource F resource of
          Inl e \<Rightarrow> (failure_response request (error_to_string e) (cx_detail cx), F)
        | Inr view \<Rightarrow>
            (answer request
               [(''status'', ''ok''), (''name'', vw_name view), (''generation'', to_decimal (vw_generation view)),
                (''sharing'', sharing_to_string (vw_sharing view))], F)) F"

subsection \<open>Evidence\<close>

definition ingest_response :: "Circumstances \<Rightarrow> ProtocolMessage \<Rightarrow> u64 result \<Rightarrow> ProtocolMessage" where
  "ingest_response cx request ingested =
     (case ingested of
        Inl e \<Rightarrow>
          answer request [(''status'', ''refused''), (''refusal'', error_to_string e), (''detail'', cx_detail cx)]
      | Inr i \<Rightarrow> answer request [(''status'', ''ok''), (''evidence'', hex_encode i)])"

definition dispatch_ingest_evidence :: handler where
  "dispatch_ingest_evidence cx request F =
     (case message_find request ''record'' of
        None \<Rightarrow> (failure_response request ''invalid_argument'' ''the evidence record is missing'', F)
      | Some block \<Rightarrow>
         (case reader_parse block (limits F) of
            Inl e \<Rightarrow> (failure_response request ''invalid_argument'' (cx_detail cx), F)
          | Inr reader \<Rightarrow>
             (case decode_evidence reader of
                Inl e \<Rightarrow> (failure_response request ''invalid_argument'' (cx_detail cx), F)
              | Inr (record, reader') \<Rightarrow>
                  let (ingested, F') = ingest_evidence (cx_io cx) record F in
                  (ingest_response cx request ingested, F'))))"

definition observation_digest :: "EvidenceRecord \<Rightarrow> Digest128" where
  "observation_digest r =
     hasher_digest (add_field_u64 ''sequence'' (source_sequence (ev_provenance r))
       (add_field ''state'' (evidence_state_to_string (ev_state r))
       (add_field ''kind'' (evidence_kind_to_string (ev_kind r))
       (add_field ''subject'' (ref_to_string (ev_subject r))
       (add_field ''runtime'' (source_runtime (ev_provenance r)) hasher_init)))))"

text \<open>The observation of a remote producer; the clock is read twice before the record is ingested.\<close>

definition observation_fields :: "Circumstances \<Rightarrow> ProtocolMessage \<Rightarrow> EvidenceRecord option" where
  "observation_fields cx m = do {
     subject \<leftarrow> require_resource m ''subject'';
     kind \<leftarrow> evidence_kind_from_string (message_get m ''kind'' []);
     state \<leftarrow> evidence_state_from_string (message_get m ''state'' ''known'');
     source \<leftarrow> require_id m ''source'';
     sequence \<leftarrow> require_u64_field m ''sequence'';
     span \<leftarrow> require_u64_field m ''validity'';
     (if span = 0 then None
      else let record = \<lparr>ev_id = 0, ev_subject = subject, ev_kind = kind, ev_state = state,
             ev_provenance = \<lparr>source_runtime = message_get m ''runtime'' [],
               source_instance = message_get m ''instance'' [], source_id = source, source_sequence = sequence,
               source_epoch = 0, ingested_incarnation = nil_incarnation, observed_generation = 0,
               observed_tick = tick (cx_before cx), valid_until_tick = tick (cx_between cx) + span,
               content_digest = nil_digest\<rparr>,
             ev_detail = message_get m ''detail'' [], ev_advisory = require_kind_field m ''advisory'' False\<rparr>
           in Some (record\<lparr>ev_provenance := (ev_provenance record)\<lparr>content_digest := observation_digest record\<rparr>\<rparr>)) }"

definition dispatch_ingest_observation :: handler where
  "dispatch_ingest_observation cx request F =
     with_fields ''the observation fields are malformed'' (observation_fields cx request) request
       (\<lambda>record F. let (ingested, F') = ingest_evidence (cx_io cx) record F in
          (ingest_response cx request ingested, F')) F"

subsection \<open>Authority\<close>

definition dispatch_fence :: "u64 \<Rightarrow> AuthorityScope \<Rightarrow> u64 \<Rightarrow> u64 \<Rightarrow> handler" where
  "dispatch_fence holder scope lease attempt cx request F =
     with_fields ''the fence reason is unknown''
       (fence_reason_from_string (message_get request ''reason'' ''explicit_operator_fence'')) request
       (\<lambda>reason F.
          let (r, F') = fence (cx_io cx)
                \<lparr>fq_attempt = attempt, fq_holder = holder, fq_scope = scope, fq_lease_ticks = lease, fq_reason = reason,
                 fq_detail = message_get request ''detail'' []\<rparr> F in
          (answer request
             (outcome_fields (fe_outcome r) (fe_refusal r) (cx_detail cx) @ authority_fields (fe_token r) @
              [(''fenced'', flag_text (fe_fenced_anything r)), (''fenced_grant'', hex_encode (fr_grant (fe_fenced r))),
               (''fenced_boot'', to_decimal (fr_fenced_boot (fe_fenced r))),
               (''fence_reason'', fence_reason_to_string (fr_reason (fe_fenced r)))]), F')) F"

definition dispatch_grant :: "u64 \<Rightarrow> AuthorityScope \<Rightarrow> u64 \<Rightarrow> u64 \<Rightarrow> handler" where
  "dispatch_grant holder scope lease attempt cx request F =
     (let q = \<lparr>aq_attempt = attempt, aq_holder = holder, aq_scope = scope, aq_lease_ticks = lease,
               aq_reason = message_get request ''reason'' []\<rparr>;
          (r, F') = (if pm_operation request = ''renew_authority'' then renew_authority (cx_io cx) q F
                     else acquire_authority (cx_io cx) q F)
      in (answer request
            (outcome_fields (au_outcome r) (au_refusal r) (cx_detail cx) @ authority_fields (au_token r) @
             [(''expiry_tick'', to_decimal (gv_expiry_tick (au_grant r)))]), F'))"

definition dispatch_authority :: handler where
  "dispatch_authority cx request =
     with_fields ''the authority holder is missing'' (require_id request ''holder'') request (\<lambda>holder.
     with_fields ''the authority scope is malformed'' (parse_scope request) request (\<lambda>scope.
     with_fields ''the authority request is malformed''
       (do { lease \<leftarrow> parse_u64_field request ''lease'' 256; attempt \<leftarrow> require_id request ''attempt''; Some (lease, attempt) })
       request (\<lambda>(lease, attempt).
         if pm_operation request = ''fence'' then dispatch_fence holder scope lease attempt cx request
         else dispatch_grant holder scope lease attempt cx request)))"

subsection \<open>Intents and the clock\<close>

definition intent_fields :: "ProtocolMessage \<Rightarrow> ConnectivityIntent option" where
  "intent_fields m = do {
     source \<leftarrow> require_id m ''source'';
     destination \<leftarrow> require_id m ''destination'';
     channel \<leftarrow> (if message_has m ''channel'' then require_id m ''channel'' else Some 0);
     direction \<leftarrow> direction_from_string (message_get m ''direction'' ''forward'');
     ttl \<leftarrow> parse_u64_field m ''ttl'' 64;
     Some \<lparr>in_name = message_get m ''name'' [], in_owner = message_get m ''owner'' [], in_source_port = source,
       in_destination_port = destination, in_channel = channel, in_direction = direction,
       in_requirements = \<lparr>require_capability_evidence = require_kind_field m ''require_capability'' True,
         require_operational_evidence = require_kind_field m ''require_operational'' True,
         require_attachment_evidence = require_kind_field m ''require_attachment'' False,
         additional_required_kinds = [], allow_unsupported_advisory = True\<rparr>,
       in_reservation_ttl_ticks = ttl\<rparr> }"

definition dispatch_submit_intent :: handler where
  "dispatch_submit_intent cx request F =
     with_fields ''the intent fields are malformed'' (intent_fields request) request
       (\<lambda>it F. let (r, F') = submit_intent (cx_io cx) (cx_planner cx) (cx_before cx) (cx_between cx) it F in
          (answer request
             ([(''status'', if is_outcome r = IntentRefused then ''refused'' else ''ok''),
               (''outcome'', intent_outcome_to_string (is_outcome r)), (''refusal'', refusal_to_string (is_refusal r))] @
              detail_field (cx_detail cx) @
              [(''connectivity'', hex_encode (is_connectivity r)),
               (''path_identity'', digest_to_string (is_path_identity r)), (''state'', state_to_string (is_state r)),
               (''generation'', to_decimal (is_generation r)), (''created'', flag_text (is_created r))]), F')) F"

definition dispatch_advance_tick :: handler where
  "dispatch_advance_tick cx request F =
     with_fields ''the tick delta is missing'' (require_u64_field request ''delta'') request
       (\<lambda>delta F. let (advanced, F') = advance_tick (cx_io cx) delta F in
          (case advanced of
             Inl e \<Rightarrow>
               answer request [(''status'', ''refused''), (''refusal'', error_to_string e), (''detail'', cx_detail cx)]
           | Inr now \<Rightarrow> answer request [(''status'', ''ok''), (''tick'', to_decimal now)], F')) F"

subsection \<open>Connectivity\<close>

text \<open>The target of an operation, the attempt and the authority token: three fields that the requests on an object
  or a reservation share.\<close>

definition target_fields :: "string \<Rightarrow> ProtocolMessage \<Rightarrow> (u64 \<times> u64 \<times> AuthorityToken) option" where
  "target_fields key m = do {
     target \<leftarrow> require_id m key;
     attempt \<leftarrow> require_id m ''attempt'';
     authority \<leftarrow> parse_authority m;
     Some (target, attempt, authority) }"

definition with_request ::
  "'q option \<Rightarrow> ('q \<Rightarrow> Fabric \<Rightarrow> field list \<times> Fabric) \<Rightarrow> ProtocolMessage \<Rightarrow> Fabric \<Rightarrow> ProtocolMessage \<times> Fabric" where
  "with_request parsed call request F =
     with_fields ''the request fields are malformed'' parsed request
       (\<lambda>q F. let (fs, F') = call q F in (answer request fs, F')) F"

definition dispatch_validate :: handler where
  "dispatch_validate cx request =
     with_request (target_fields ''connectivity'' request)
       (\<lambda>(connectivity, attempt, authority) F.
          let (r, F') = validate (cx_io cx)
                \<lparr>vq_attempt = attempt, vq_connectivity = connectivity, vq_authority = authority\<rparr> F in
          (outcome_fields (vr_outcome r) (vr_refusal r) (cx_detail cx) @
           [(''state'', state_to_string (vr_state r)), (''generation'', to_decimal (vr_generation r)),
            (''evidence'', evidence_state_to_string (as_aggregate (vr_assessment r)))], F')) request"

definition dispatch_reserve :: handler where
  "dispatch_reserve cx request =
     with_request (do { t \<leftarrow> target_fields ''connectivity'' request; ttl \<leftarrow> parse_u64_field request ''ttl'' 64; Some (t, ttl) })
       (\<lambda>((connectivity, attempt, authority), ttl) F.
          let (r, F') = reserve (cx_io cx)
                \<lparr>rsq_attempt = attempt, rsq_connectivity = connectivity, rsq_authority = authority, rsq_ttl_ticks = ttl\<rparr> F in
          (outcome_fields (rr_outcome r) (rr_refusal r) (cx_detail cx) @
           [(''reservation'', hex_encode (rv_id (rr_reservation r))),
            (''expiry_tick'', to_decimal (rv_expiry_tick (rr_reservation r))),
            (''generation'', to_decimal (rr_generation r)),
            (''resources'', size_text (length (rv_resources (rr_reservation r))))], F')) request"

definition dispatch_renew_reservation :: handler where
  "dispatch_renew_reservation cx request =
     with_request (do { t \<leftarrow> target_fields ''reservation'' request; ticks \<leftarrow> parse_u64_field request ''extend'' 64; Some (t, ticks) })
       (\<lambda>((reservation, attempt, authority), ticks) F.
          let (r, F') = renew_reservation (cx_io cx)
                \<lparr>rnq_attempt = attempt, rnq_reservation = reservation, rnq_authority = authority,
                 rnq_extend_ticks = ticks\<rparr> F in
          (outcome_fields (rr_outcome r) (rr_refusal r) (cx_detail cx) @
           [(''expiry_tick'', to_decimal (rv_expiry_tick (rr_reservation r)))], F')) request"

definition dispatch_release_reservation :: handler where
  "dispatch_release_reservation cx request =
     with_request (target_fields ''reservation'' request)
       (\<lambda>(reservation, attempt, authority) F.
          let (r, F') = release_reservation (cx_io cx)
                \<lparr>rlq_attempt = attempt, rlq_reservation = reservation, rlq_authority = authority,
                 rlq_reason = message_get request ''reason'' []\<rparr> F in
          (outcome_fields (rl_outcome r) (rl_refusal r) (cx_detail cx) @
           [(''released'', size_text (length (rl_released r)))], F')) request"

definition dispatch_begin_activation :: handler where
  "dispatch_begin_activation cx request =
     with_request (target_fields ''connectivity'' request)
       (\<lambda>(connectivity, attempt, authority) F.
          let (r, F') = begin_activation (cx_io cx)
                \<lparr>acq_attempt = attempt, acq_connectivity = connectivity, acq_authority = authority\<rparr> F in
          (outcome_fields (av_outcome r) (av_refusal r) (cx_detail cx) @
           [(''state'', state_to_string (av_state r)), (''activation_digest'', digest_to_string (av_activation_digest r)),
            (''generation'', to_decimal (av_generation r)),
            (''evidence'', evidence_state_to_string (as_aggregate (av_assessment r)))], F')) request"

definition dispatch_commit_activation :: handler where
  "dispatch_commit_activation cx request =
     with_request (do { t \<leftarrow> target_fields ''connectivity'' request;
         digest \<leftarrow> digest_parse (message_get request ''activation_digest'' []); Some (t, digest) })
       (\<lambda>((connectivity, attempt, authority), digest) F.
          let (r, F') = commit_activation (cx_io cx)
                \<lparr>cmq_attempt = attempt, cmq_connectivity = connectivity, cmq_authority = authority,
                 cmq_activation_digest = digest\<rparr> F in
          (outcome_fields (av_outcome r) (av_refusal r) (cx_detail cx) @
           [(''state'', state_to_string (av_state r)), (''generation'', to_decimal (av_generation r)),
            (''activated_tick'', to_decimal (av_activated_tick r)),
            (''committed'', size_text (length (av_committed r)))], F')) request"

definition dispatch_withdraw :: handler where
  "dispatch_withdraw cx request =
     with_request (target_fields ''connectivity'' request)
       (\<lambda>(connectivity, attempt, authority) F.
          let (r, F') = withdraw (cx_io cx)
                \<lparr>wdq_attempt = attempt, wdq_connectivity = connectivity, wdq_authority = authority,
                 wdq_reason = message_get request ''reason'' []\<rparr> F in
          (outcome_fields (wr_outcome r) (wr_refusal r) (cx_detail cx) @
           [(''state'', state_to_string (wr_state r)), (''generation'', to_decimal (wr_generation r)),
            (''released'', size_text (length (wr_released r))), (''terminal'', flag_text (wr_terminal r))], F')) request"

definition dispatch_revalidate :: handler where
  "dispatch_revalidate cx request =
     with_request (target_fields ''connectivity'' request)
       (\<lambda>(connectivity, attempt, authority) F.
          let (r, F') = revalidate (cx_io cx)
                \<lparr>rvq_attempt = attempt, rvq_connectivity = connectivity, rvq_authority = authority,
                 rvq_withdraw_on_failure = require_kind_field request ''withdraw_on_failure'' True\<rparr> F in
          (outcome_fields (rw_outcome r) (rw_refusal r) (cx_detail cx) @
           [(''state'', state_to_string (rw_state r)), (''generation'', to_decimal (rw_generation r)),
            (''authority_confirmed'', flag_text (rw_authority_confirmed r)),
            (''evidence'', evidence_state_to_string (as_aggregate (rw_assessment r)))], F')) request"

definition dispatch_health :: handler where
  "dispatch_health cx request =
     with_request (do { t \<leftarrow> target_fields ''connectivity'' request;
         observed \<leftarrow> evidence_state_from_string (message_get request ''observed'' ''known''); Some (t, observed) })
       (\<lambda>((connectivity, attempt, authority), observed) F.
          let q = \<lparr>hrq_attempt = attempt, hrq_connectivity = connectivity, hrq_authority = authority,
                   hrq_observed = observed, hrq_detail = message_get request ''detail'' []\<rparr>;
              (r, F') = (if pm_operation request = ''report_degraded'' then report_degraded (cx_io cx) q F
                         else report_failed (cx_io cx) q F) in
          (outcome_fields (hr_outcome r) (hr_refusal r) (cx_detail cx) @
           [(''state'', state_to_string (hr_state r)), (''generation'', to_decimal (hr_generation r))], F')) request"

subsection \<open>Queries\<close>

definition dispatch_describe_connectivity :: handler where
  "dispatch_describe_connectivity cx request F =
     with_fields ''the connectivity identity is missing'' (require_id request ''connectivity'') request
       (\<lambda>i F. (case describe_connectivity F i of
          Inl e \<Rightarrow> failure_response request (error_to_string e) (cx_detail cx)
        | Inr view \<Rightarrow> answer request
            [(''status'', ''ok''), (''state'', state_to_string (cv_state view)),
             (''generation'', to_decimal (cv_generation view)),
             (''path_identity'', digest_to_string (cv_path_identity view)),
             (''authority_confirmed'', flag_text (cv_authority_confirmed view)),
             (''activated_tick'', to_decimal (cv_activated_tick view)),
             (''refusal'', refusal_to_string (cv_last_refusal view)), (''segments'', cv_canonical_path view)], F)) F"

definition dispatch_explain :: handler where
  "dispatch_explain cx request F =
     with_fields ''the connectivity identity is missing'' (require_id request ''connectivity'') request
       (\<lambda>i F. (case explain F i of
          Inl e \<Rightarrow> failure_response request (error_to_string e) (cx_detail cx)
        | Inr e \<Rightarrow> answer request
            [(''status'', ''ok''), (''state'', state_to_string (pe_state e)),
             (''path_identity'', digest_to_string (pe_identity e)),
             (''evidence'', evidence_state_to_string (pe_evidence_aggregate e)),
             (''authority_confirmed'', flag_text (pe_authority_confirmed e)),
             (''segments'', size_text (length (pe_segments e))), (''history'', size_text (length (pe_history e)))], F)) F"

text \<open>The fields of an entry, each under \<open>entry.<index>\<close>; indices are decimal numbers.\<close>

definition entry_fields :: "ActivePathEntry \<Rightarrow> field list" where
  "entry_fields e =
     [(''.connectivity'', hex_encode (ap_connectivity e)), (''.state'', state_to_string (ap_state e)),
      (''.authorized'', flag_text (ap_authorized e)), (''.path_identity'', digest_to_string (ap_identity e)),
      (''.reason'', unauthorized_reason e)]"

definition dispatch_active_paths :: handler where
  "dispatch_active_paths cx request F =
     (let report = active_paths F in
      (answer request
         ([(''status'', ''ok''), (''active'', size_text (length (pr_active report))),
           (''authorized'', size_text (length (pr_authorized report))),
           (''diagnostics'', size_text (length (pr_diagnosed report))),
           (''digest'', digest_to_string (pr_digest report))] @
          indexed_fields ''entry'' entry_fields (pr_active report)), F))"

definition dispatch_snapshot :: handler where
  "dispatch_snapshot cx request F =
     (let s = snapshot F in
      (answer request
         [(''status'', ''ok''), (''epoch'', to_decimal (sn_epoch s)), (''tick'', to_decimal (sn_tick s)),
          (''generation'', to_decimal (sn_generation s)),
          (''topology_generation'', to_decimal (sn_topology_generation s)),
          (''boot_sequence'', to_decimal (boot_sequence (sn_incarnation s))),
          (''instance'', digest_to_string (inc_instance (sn_incarnation s))), (''sites'', size_text (sn_sites s)),
          (''ports'', size_text (sn_ports s)), (''spans'', size_text (sn_spans s)),
          (''cross_connects'', size_text (sn_cross_connects s)), (''channels'', size_text (sn_channels s)),
          (''objects'', size_text (sn_connectivity_objects s)), (''active'', size_text (sn_connectivity_active s)),
          (''reservations'', size_text (sn_reservations s)), (''claims'', size_text (sn_claims s)),
          (''evidence'', size_text (sn_evidence_records s)), (''grants'', size_text (sn_authority_grants s)),
          (''digest'', digest_to_string (sn_digest s))], F))"

definition dispatch_accounting :: handler where
  "dispatch_accounting cx request F =
     (let r = accounting F in
      (answer request
         [(''status'', ''ok''), (''resources'', size_text (ac_resources_registered r)),
          (''claims'', size_text (ac_claims r)), (''reservations_live'', size_text (ac_reservations_live r)),
          (''reservations_consumed'', size_text (ac_reservations_consumed r)),
          (''reservations_released'', size_text (ac_reservations_released r)),
          (''objects'', size_text (ac_objects_total r)), (''grants_live'', size_text (ac_grants_live r)),
          (''grants_fenced'', size_text (ac_grants_fenced r)), (''evidence'', size_text (ac_evidence_records r)),
          (''evidence_stale'', size_text (ac_evidence_stale r)), (''balanced'', flag_text (ac_balanced r))], F))"

text \<open>The names of the checks, in the order in which \<open>verify_invariants\<close> records them.\<close>

definition check_names :: "string list" where
  "check_names =
     [''no_resource_committed_to_incompatible_paths'', ''commit_index_matches_objects'',
      ''retired_objects_hold_no_claims'', ''reservation_index_matches_records'', ''committed_paths_are_well_formed'',
      ''at_most_one_current_grant_per_scope'', ''authority_confirmation_is_incarnation_bound'',
      ''evidence_identities_are_derived'', ''counters_are_consistent'', ''pending_activations_are_bound_to_a_digest'',
      ''reservation_windows_are_well_formed'', ''bounded_histories_stay_bounded'']"

definition check_fields :: "string \<times> bool \<times> string \<Rightarrow> field list" where
  "check_fields = (\<lambda>(name, holds, detail).
     [(''.name'', name), (''.holds'', flag_text holds), (''.detail'', detail)])"

definition dispatch_verify_invariants :: handler where
  "dispatch_verify_invariants cx request F =
     (let checks = verify_invariants F in
      (answer request
         ([(''status'', ''ok''), (''all_hold'', flag_text (all_hold checks)),
           (''checks'', size_text (length checks)), (''failures'', size_text (failures checks))] @
          indexed_fields ''check'' check_fields
            (zip check_names (zip checks (map (cx_check_detail cx) [0..<length checks])))), F))"

section \<open>The dispatcher\<close>

definition dispatch_request :: handler where
  "dispatch_request cx request =
     (let op = pm_operation request in
      if op = ''hello'' then dispatch_hello cx request
      else if op = ''shutdown'' then dispatch_shutdown cx request
      else if op = ''register_site'' then
        dispatch_registration (site_fields request) (register_site (cx_io cx)) cx request
      else if op = ''register_node'' then
        dispatch_registration (node_fields request) (register_optical_node (cx_io cx)) cx request
      else if op = ''register_port'' then
        dispatch_registration (port_fields request) (register_port (cx_io cx)) cx request
      else if op = ''register_span'' then
        dispatch_registration (span_fields request) (register_span (cx_io cx) (cx_io_link cx)) cx request
      else if op = ''register_line_system'' then
        dispatch_registration (line_fields request) (register_line_system (cx_io cx)) cx request
      else if op = ''register_cross_connect'' then
        dispatch_registration (cross_connect_fields request) (register_cross_connect (cx_io cx)) cx request
      else if op = ''register_channel'' then
        dispatch_registration (channel_fields request) (register_channel (cx_io cx)) cx request
      else if op = ''ingest_evidence'' then dispatch_ingest_evidence cx request
      else if op = ''ingest_observation'' then dispatch_ingest_observation cx request
      else if op = ''describe_resource'' then dispatch_describe_resource cx request
      else if op = ''acquire_authority'' \<or> op = ''renew_authority'' \<or> op = ''fence'' then dispatch_authority cx request
      else if op = ''submit_intent'' then dispatch_submit_intent cx request
      else if op = ''advance_tick'' then dispatch_advance_tick cx request
      else if op = ''validate'' then dispatch_validate cx request
      else if op = ''reserve'' then dispatch_reserve cx request
      else if op = ''renew_reservation'' then dispatch_renew_reservation cx request
      else if op = ''release_reservation'' then dispatch_release_reservation cx request
      else if op = ''begin_activation'' then dispatch_begin_activation cx request
      else if op = ''commit_activation'' then dispatch_commit_activation cx request
      else if op = ''withdraw'' then dispatch_withdraw cx request
      else if op = ''revalidate'' then dispatch_revalidate cx request
      else if op = ''report_degraded'' \<or> op = ''report_failed'' then dispatch_health cx request
      else if op = ''describe_connectivity'' then dispatch_describe_connectivity cx request
      else if op = ''explain'' then dispatch_explain cx request
      else if op = ''active_paths'' then dispatch_active_paths cx request
      else if op = ''snapshot'' then dispatch_snapshot cx request
      else if op = ''accounting'' then dispatch_accounting cx request
      else if op = ''verify_invariants'' then dispatch_verify_invariants cx request
      else (\<lambda>F. (failure_response request ''unsupported_boundary''
                   ''the operation is not part of the control-plane surface'', F)))"

end
