(* ===== verification/Serving.thy ===== *)
theory Serving
  imports Server Machine
begin

text \<open>
  What the dispatcher guarantees: every response echoes its request and can be read back by the client,
  whatever the outcome; a request that is malformed, unknown or a query leaves the runtime as it was;
  and every other request is one operation of the runtime.
\<close>

section \<open>Responses\<close>

lemma answer_message:
  "answer request fs = \<lparr>pm_operation = pm_operation request, pm_request_id = pm_request_id request, pm_fields = fs\<rparr>"
proof -
  have "foldl (\<lambda>m (k, v). set_field k v m) m fs = m\<lparr>pm_fields := pm_fields m @ fs\<rparr>" for m
    by (induction fs arbitrary: m) (auto simp: set_field_def)
  then show ?thesis by (simp add: answer_def base_response_def)
qed

definition proper_fields :: "field list \<Rightarrow> bool" where
  "proper_fields fs \<longleftrightarrow> list_all (\<lambda>k. plain_key k \<and> k \<noteq> ''request_id'') (map fst fs) \<and> distinct (map fst fs)"

definition replies :: "ProtocolMessage \<Rightarrow> ProtocolMessage \<Rightarrow> bool" where
  "replies request r \<longleftrightarrow>
     pm_operation r = pm_operation request \<and> pm_request_id r = pm_request_id request \<and> proper_fields (pm_fields r)"

lemma replies_answer: "proper_fields fs \<Longrightarrow> replies request (answer request fs)"
  by (simp add: replies_def answer_message)

lemma replies_failure: "replies request (failure_response request code detail)"
  by (simp add: failure_response_def replies_def answer_message proper_fields_def plain_key_def)

lemma replies_with_fields:
  assumes "\<And>q G. parsed = Some q \<Longrightarrow> replies request (fst (branch q G))"
  shows "replies request (fst (with_fields detail parsed request branch F))"
  using assms by (simp add: with_fields_def replies_failure split: option.split)

lemma replies_with_request:
  assumes "\<And>q G. proper_fields (fst (call q G))"
  shows "replies request (fst (with_request parsed call request F))"
  unfolding with_request_def
  by (rule replies_with_fields) (simp add: case_prod_beta replies_answer assms)

text \<open>The fields of each kind of response.\<close>

lemmas proper_simps = proper_fields_def plain_key_def outcome_fields_def authority_fields_def detail_field_def

lemma registration_replies: "replies request (registration_response cx request r)"
  by (simp add: registration_response_def replies_answer proper_simps)

lemma ingest_replies: "replies request (ingest_response cx request r)"
  by (simp add: ingest_response_def replies_answer proper_simps split: sum.split)

lemma proper_indexed:
  assumes "proper_fields fs" "dotted f" "\<And>x. distinct (map fst (f x))" "\<And>x. list_all (\<lambda>k. CHR ''='' \<notin> set k \<and> newline \<notin> set k) (map fst (f x))"
    and pre: "plain_key pre" "CHR ''.'' \<notin> set pre" "list_all (\<lambda>k. head_of k \<noteq> pre) (map fst fs)" "pre \<noteq> ''request_id''"
  shows "proper_fields (fs @ indexed_fields pre f xs)"
proof -
  have "plain_key k \<and> k \<noteq> ''request_id''" if key: "k \<in> fst ` set (indexed_fields pre f xs)" for k
  proof -
    obtain i l where i: "l \<in> fst ` set (f (xs ! i))" "k = pre @ ''.'' @ dec_digits i @ l"
      using key unfolding keys_indexed by blast
    have "CHR ''='' \<notin> set l" "newline \<notin> set l" using i(1) assms(4) by (auto simp: list_all_iff)
    moreover have "CHR ''='' \<notin> set (dec_digits i)" "newline \<notin> set (dec_digits i)"
      using dec_digits_chars by fastforce+
    ultimately have "plain_key k" using pre(1) by (auto simp: i(2) plain_key_def)
    moreover have "head_of k = pre" using head_indexed [OF key pre(2)] .
    then have "k \<noteq> ''request_id''" using pre(4) by (auto simp: head_of_def)
    ultimately show ?thesis by blast
  qed
  moreover have "k \<notin> fst ` set (indexed_fields pre f xs)" if "k \<in> fst ` set fs" for k
  proof -
    have "head_of k \<noteq> pre" using that pre(3) by (auto simp: list_all_iff)
    then show ?thesis using head_indexed [OF _ pre(2)] by blast
  qed
  moreover have "distinct (map fst (indexed_fields pre f xs))" using assms(2,3) by (rule distinct_indexed)
  ultimately show ?thesis using assms(1) unfolding proper_fields_def list_all_iff by auto
qed

lemma session_replies:
  "replies request (fst (dispatch_hello cx request F))" "replies request (fst (dispatch_shutdown cx request F))"
  by (simp_all add: dispatch_hello_def dispatch_shutdown_def replies_answer proper_simps)

lemma topology_replies:
  "replies request (fst (dispatch_registration parsed register cx request F))"
  "replies request (fst (dispatch_describe_resource cx request F))"
  unfolding dispatch_registration_def dispatch_describe_resource_def
  by (rule replies_with_fields; simp add: registration_replies replies_failure replies_answer proper_simps
      split: prod.split sum.split)+

lemma evidence_replies:
  "replies request (fst (dispatch_ingest_evidence cx request F))"
  "replies request (fst (dispatch_ingest_observation cx request F))"
proof -
  show "replies request (fst (dispatch_ingest_evidence cx request F))"
    by (simp add: dispatch_ingest_evidence_def replies_failure ingest_replies split: prod.split sum.split option.split)
  show "replies request (fst (dispatch_ingest_observation cx request F))"
    unfolding dispatch_ingest_observation_def
    by (rule replies_with_fields) (simp add: ingest_replies split: prod.split)
qed

lemma authority_replies: "replies request (fst (dispatch_authority cx request F))"
proof -
  have fenced: "replies request (fst (dispatch_fence holder scope lease attempt cx request G))" for holder scope lease attempt G
    unfolding dispatch_fence_def
    by (rule replies_with_fields) (simp add: replies_answer proper_simps split: prod.split)
  have granted: "replies request (fst (dispatch_grant holder scope lease attempt cx request G))" for holder scope lease attempt G
    by (simp add: dispatch_grant_def Let_def replies_answer proper_simps split: prod.split)
  show ?thesis
    unfolding dispatch_authority_def
    by (intro replies_with_fields) (simp add: fenced granted split: prod.split)
qed

lemma intent_replies:
  "replies request (fst (dispatch_submit_intent cx request F))"
  "replies request (fst (dispatch_advance_tick cx request F))"
  unfolding dispatch_submit_intent_def dispatch_advance_tick_def
  by (rule replies_with_fields; simp add: replies_answer proper_simps split: prod.split sum.split)+

lemma connectivity_replies:
  "replies request (fst (dispatch_validate cx request F))"
  "replies request (fst (dispatch_reserve cx request F))"
  "replies request (fst (dispatch_renew_reservation cx request F))"
  "replies request (fst (dispatch_release_reservation cx request F))"
  "replies request (fst (dispatch_begin_activation cx request F))"
  "replies request (fst (dispatch_commit_activation cx request F))"
  "replies request (fst (dispatch_withdraw cx request F))"
  "replies request (fst (dispatch_revalidate cx request F))"
  "replies request (fst (dispatch_health cx request F))"
  unfolding dispatch_validate_def dispatch_reserve_def dispatch_renew_reservation_def
    dispatch_release_reservation_def dispatch_begin_activation_def dispatch_commit_activation_def
    dispatch_withdraw_def dispatch_revalidate_def dispatch_health_def
  by (rule replies_with_request; simp add: proper_simps Let_def split: prod.split)+

lemma query_replies:
  "replies request (fst (dispatch_describe_connectivity cx request F))"
  "replies request (fst (dispatch_explain cx request F))"
  unfolding dispatch_describe_connectivity_def dispatch_explain_def
  by (rule replies_with_fields; simp add: replies_failure replies_answer proper_simps split: sum.split)+

lemma summary_replies:
  "replies request (fst (dispatch_snapshot cx request F))" "replies request (fst (dispatch_accounting cx request F))"
  by (simp_all add: dispatch_snapshot_def dispatch_accounting_def Let_def replies_answer proper_simps)

lemma report_replies:
  "replies request (fst (dispatch_active_paths cx request F))"
  "replies request (fst (dispatch_verify_invariants cx request F))"
proof -
  have "dotted entry_fields" "dotted check_fields"
    by (auto simp: dotted_def entry_fields_def check_fields_def)
  then show "replies request (fst (dispatch_active_paths cx request F))"
    "replies request (fst (dispatch_verify_invariants cx request F))"
    unfolding dispatch_active_paths_def dispatch_verify_invariants_def Let_def fst_conv
    by - (rule replies_answer, rule proper_indexed;
        simp add: proper_simps entry_fields_def check_fields_def head_of_def split: prod.split)+
qed

lemma dispatch_replies: "replies request (fst (dispatch_request cx request F))"
  by (simp add: dispatch_request_def Let_def session_replies topology_replies evidence_replies authority_replies
      intent_replies connectivity_replies query_replies summary_replies report_replies replies_failure)

text \<open>A response that fits the bounds of the text format is read back by the client as it was built.\<close>

lemma replies_parse:
  assumes "replies request r" "plain_key (pm_operation request)"
    "length (pm_fields r) < kMaxFields" "length (pm_fields r) < max_journal_records lim"
  shows "parse_message (serialize r) lim = Inr r"
proof -
  have "message_sound lim r"
    using assms unfolding message_sound_def replies_def proper_fields_def by (auto simp: list_all_iff)
  then show ?thesis by (rule parse_serialize)
qed

section \<open>Effects\<close>

text \<open>What serving one request may do to the runtime.\<close>

definition served :: "Circumstances \<Rightarrow> Fabric \<Rightarrow> Fabric \<Rightarrow> bool" where
  "served cx F F' \<longleftrightarrow> F' = F \<or> operation F F' \<or>
     (\<exists>it. F' = snd (submit_intent (cx_io cx) (cx_planner cx) (cx_before cx) (cx_between cx) it F))"

lemma served_same [simp]: "served cx F F"
  by (simp add: served_def)

lemma served_operation: "operation F F' \<Longrightarrow> served cx F F'"
  by (simp add: served_def)

lemma served_with_fields:
  assumes "\<And>q. parsed = Some q \<Longrightarrow> served cx F (snd (branch q F))"
  shows "served cx F (snd (with_fields detail parsed request branch F))"
  using assms by (simp add: with_fields_def split: option.split)

lemma served_with_request:
  assumes "\<And>q. served cx F (snd (call q F))"
  shows "served cx F (snd (with_request parsed call request F))"
  unfolding with_request_def by (rule served_with_fields) (simp add: case_prod_beta assms)

lemma served_registration:
  assumes "\<And>q. operation F (snd (register q F))"
  shows "served cx F (snd (dispatch_registration parsed register cx request F))"
  unfolding dispatch_registration_def
  by (rule served_with_fields) (simp add: case_prod_beta served_operation assms)

lemma served_evidence:
  "served cx F (snd (dispatch_ingest_evidence cx request F))"
  "served cx F (snd (dispatch_ingest_observation cx request F))"
proof -
  have ingest: "served cx F (snd (ingest_evidence io r F))" for io r
    by (rule served_operation) (rule operation.ingest_evidence)
  show "served cx F (snd (dispatch_ingest_evidence cx request F))"
    by (simp add: dispatch_ingest_evidence_def case_prod_beta ingest split: option.split sum.split)
  show "served cx F (snd (dispatch_ingest_observation cx request F))"
    unfolding dispatch_ingest_observation_def by (rule served_with_fields) (simp add: case_prod_beta ingest)
qed

lemma served_authority: "served cx F (snd (dispatch_authority cx request F))"
proof -
  have fenced: "served cx F (snd (dispatch_fence holder scope lease attempt cx request F))" for holder scope lease attempt
    unfolding dispatch_fence_def
    by (rule served_with_fields) (simp add: case_prod_beta served_operation operation.fence)
  have granted: "served cx F (snd (dispatch_grant holder scope lease attempt cx request F))" for holder scope lease attempt
    by (simp add: dispatch_grant_def Let_def case_prod_beta served_operation operation.intros)
  show ?thesis
    unfolding dispatch_authority_def
    by (intro served_with_fields) (simp add: fenced granted split: prod.split)
qed

lemma served_intent:
  "served cx F (snd (dispatch_submit_intent cx request F))"
  "served cx F (snd (dispatch_advance_tick cx request F))"
proof -
  have "served cx F (snd (submit_intent (cx_io cx) (cx_planner cx) (cx_before cx) (cx_between cx) it F))" for it
    by (auto simp: served_def)
  then show "served cx F (snd (dispatch_submit_intent cx request F))"
    unfolding dispatch_submit_intent_def by - (rule served_with_fields, simp add: case_prod_beta)
  show "served cx F (snd (dispatch_advance_tick cx request F))"
    unfolding dispatch_advance_tick_def
    by (rule served_with_fields) (simp add: case_prod_beta served_operation operation.advance_tick)
qed

lemma served_handled: "handled F F' \<Longrightarrow> served cx F F'"
  by (rule served_operation) (rule operation.handler)

lemma served_connectivity:
  "served cx F (snd (dispatch_validate cx request F))"
  "served cx F (snd (dispatch_reserve cx request F))"
  "served cx F (snd (dispatch_renew_reservation cx request F))"
  "served cx F (snd (dispatch_release_reservation cx request F))"
  "served cx F (snd (dispatch_begin_activation cx request F))"
  "served cx F (snd (dispatch_commit_activation cx request F))"
  "served cx F (snd (dispatch_withdraw cx request F))"
  "served cx F (snd (dispatch_revalidate cx request F))"
  "served cx F (snd (dispatch_health cx request F))"
  unfolding dispatch_validate_def dispatch_reserve_def dispatch_renew_reservation_def
    dispatch_release_reservation_def dispatch_begin_activation_def dispatch_commit_activation_def
    dispatch_withdraw_def dispatch_revalidate_def dispatch_health_def
  by (rule served_with_request; simp add: case_prod_beta Let_def served_handled handled.intros)+

text \<open>Queries look and do not touch.\<close>

lemma queries_keep:
  "snd (dispatch_hello cx request F) = F" "snd (dispatch_shutdown cx request F) = F"
  "snd (dispatch_describe_resource cx request F) = F" "snd (dispatch_describe_connectivity cx request F) = F"
  "snd (dispatch_explain cx request F) = F" "snd (dispatch_active_paths cx request F) = F"
  "snd (dispatch_snapshot cx request F) = F" "snd (dispatch_accounting cx request F) = F"
  "snd (dispatch_verify_invariants cx request F) = F"
  by (simp_all add: dispatch_hello_def dispatch_shutdown_def dispatch_describe_resource_def
      dispatch_describe_connectivity_def dispatch_explain_def dispatch_active_paths_def dispatch_snapshot_def
      dispatch_accounting_def dispatch_verify_invariants_def with_fields_def Let_def split: option.split sum.split)

lemma dispatch_served: "served cx F (snd (dispatch_request cx request F))"
  by (simp add: dispatch_request_def Let_def queries_keep served_registration operation.intros served_evidence
      served_authority served_intent served_connectivity)

section \<open>Requests without effect\<close>

definition query_operations :: "string list" where
  "query_operations =
     [''hello'', ''shutdown'', ''describe_resource'', ''describe_connectivity'', ''explain'', ''active_paths'', ''snapshot'',
      ''accounting'', ''verify_invariants'']"

definition object_operations :: "string list" where
  "object_operations =
     [''validate'', ''reserve'', ''begin_activation'', ''commit_activation'', ''withdraw'', ''revalidate'',
      ''report_degraded'', ''report_failed'']"

definition reservation_operations :: "string list" where
  "reservation_operations = [''renew_reservation'', ''release_reservation'']"

definition other_operations :: "string list" where
  "other_operations =
     [''register_site'', ''register_node'', ''register_port'', ''register_span'', ''register_line_system'',
      ''register_cross_connect'', ''register_channel'', ''ingest_evidence'', ''ingest_observation'', ''acquire_authority'',
      ''renew_authority'', ''fence'', ''submit_intent'', ''advance_tick'']"

lemmas operation_lists =
  query_operations_def object_operations_def reservation_operations_def other_operations_def

lemma query_keeps: "pm_operation request \<in> set query_operations \<Longrightarrow> snd (dispatch_request cx request F) = F"
  by (auto simp: operation_lists dispatch_request_def queries_keep)

lemma unknown_refused:
  "pm_operation request \<notin> set (query_operations @ object_operations @ reservation_operations @ other_operations) \<Longrightarrow>
   dispatch_request cx request F =
     (failure_response request ''unsupported_boundary'' ''the operation is not part of the control-plane surface'', F)"
  by (simp add: operation_lists dispatch_request_def Let_def)

lemma target_required:
  "target_fields ''connectivity'' request = None \<Longrightarrow> pm_operation request \<in> set object_operations \<Longrightarrow>
   dispatch_request cx request F = (failure_response request ''invalid_argument'' ''the request fields are malformed'', F)"
  "target_fields ''reservation'' request = None \<Longrightarrow> pm_operation request \<in> set reservation_operations \<Longrightarrow>
   dispatch_request cx request F = (failure_response request ''invalid_argument'' ''the request fields are malformed'', F)"
  by (auto simp: operation_lists dispatch_request_def dispatch_validate_def dispatch_reserve_def
      dispatch_renew_reservation_def dispatch_release_reservation_def dispatch_begin_activation_def
      dispatch_commit_activation_def dispatch_withdraw_def dispatch_revalidate_def dispatch_health_def
      with_request_def with_fields_def)

end
