(* ===== verification/Lives.thy ===== *)
theory Lives
  imports Restart
begin

text \<open>
  Process lives on a store that is not empty. A process constructs the runtime on whatever records its store
  holds; when it comes up open, recovery has run. What every such start has and every operation keeps holds
  through the whole life of the process, whatever earlier lives left behind: \<open>life_invariant\<close> is that contract,
  interpreted for the bounds of histories and logs and for the confirmations of committed paths.
\<close>

section \<open>Starting on any store\<close>

definition process_start :: "Fabric list \<Rightarrow> bool" where
  "process_start hs \<longleftrightarrow> (\<exists>io inst op opened records F. construct io inst op opened records = Inr F \<and> hs = [F])"

definition opened_start :: "Fabric list \<Rightarrow> bool" where
  "opened_start hs \<longleftrightarrow> process_start hs \<and> \<not> closed (hd hs)"

text \<open>The stages of a start that succeeds: replay, recovery in memory, and the bundle that records it.\<close>

lemma opened_stages:
  assumes "construct io inst op opened records = Inr F" "\<not> closed F"
  obtains F1 G recovered j where
    "replay records ((initial_fabric op)\<lparr>store_open := True, journal := records\<rparr>) = (Ok, F1)"
    "G = next_incarnation inst (op_host_label op) (start_counters F1)"
    "fst (apply_decoded (recovery_items recovered G) (recovery_prepared recovered G)) = Ok"
    "F = (snd (apply_decoded (recovery_items recovered G) (recovery_prepared recovered G)))\<lparr>journal := j\<rparr>"
    "limits_validate (op_limits op) = Ok"
proof -
  obtain st F1 where r: "replay records ((initial_fabric op)\<lparr>store_open := True, journal := records\<rparr>) = (st, F1)"
    by fastforce
  define G where "G = next_incarnation inst (op_host_label op) (start_counters F1)"
  define recovered where "recovered \<longleftrightarrow> boot F1 \<noteq> 0"
  let ?C = "commit io RkRuntimeState (recovery_items recovered G) (recovery_prepared recovered G)"
  have st: "st = Ok" "fst ?C = Ok" "fst (write_checkpoint io (snd ?C)) = Ok" "F = snd (write_checkpoint io (snd ?C))"
      "limits_validate (op_limits op) = Ok"
    using assms
    by (auto simp: construct_def open_and_recover_def r Let_def case_prod_beta mark_recovery_conservative_def
        G_def recovered_def split: if_splits)
  obtain j where "snd ?C = (snd (apply_decoded (recovery_items recovered G) (recovery_prepared recovered G)))\<lparr>journal := j\<rparr>"
    using commit_Ok(4) [OF st(2)] by blast
  moreover obtain j' where "snd (write_checkpoint io (snd ?C)) = (snd ?C)\<lparr>journal := j'\<rparr>"
    by (rule write_checkpoint_Ok [OF st(3)])
  ultimately have "F = (snd (apply_decoded (recovery_items recovered G) (recovery_prepared recovered G)))\<lparr>journal := j'\<rparr>"
    using st(4) by simp
  then show ?thesis using that r st G_def commit_Ok(3) [OF st(2)] by blast
qed

context commit_invariant
begin

lemma replay_inv:
  assumes "inv F" "\<And>i G. ok i G"
  shows "inv (snd (replay records F))"
  using assms(1)
proof (induction records arbitrary: F)
  case (Cons e records)
  have ok: "all_ok ok items G" for items G by (induction items arbitrary: G) (simp_all add: assms(2))
  show ?case
    using Cons apply_decoded_inv [OF Cons.prems ok] by (cases e) (simp add: case_prod_beta Let_def)
qed simp

end

section \<open>What the decoders enforce\<close>

text \<open>Whatever is replayed: records are filed under their identities, histories are within the bound, the logs are
  trimmed. Nothing is asked of the items.\<close>

definition short_record :: "Limits \<Rightarrow> u64 \<Rightarrow> ConnectivityRecord \<Rightarrow> bool" where
  "short_record lim b r \<longleftrightarrow> length (cr_history r) \<le> max_attempt_history_per_object lim \<and>
     length (cr_attempt_log r) \<le> max_attempt_history_per_object lim"

definition filed :: "Fabric \<Rightarrow> bool" where
  "filed F \<longleftrightarrow> ordered_keys (objects F) \<and> (\<forall>e \<in> set (objects F). cr_id (snd e) = fst e) \<and> reservation_ids F \<and> logs_inv F"

lemma reload_short: "reload_connectivity lim r = Some r' \<Longrightarrow> short_record lim b r' \<and> cr_id r' = cr_id r"
  by (auto simp: reload_connectivity_def short_record_def split: if_splits sum.splits)

lemma filed_put:
  assumes "filed F" "cr_id r = i"
  shows "filed (F\<lparr>objects := map_put i r (objects F)\<rparr>)"
  using assms set_map_put [of i r "objects F"] by (fastforce simp: filed_def reservation_ids_def logs_inv_def)

interpretation filing: stable_invariant filed "\<lambda>i F. True"
proof
  show "filed (snd (apply_item i F))" if "filed F" for i F
  proof -
    have logs: "logs_inv (snd (apply_item i F))" using that by (intro logs.apply_inv) (simp_all add: filed_def)
    show ?thesis
    proof (cases i)
      case (ConnectivityItem r)
      show ?thesis
      proof (cases "reload_connectivity (limits F) r")
        case (Some r')
        have "filed (F\<lparr>objects := map_put (cr_id r') r' (objects F)\<rparr>)" using that by (rule filed_put) simp
        then show ?thesis
          using logs Some ConnectivityItem by (simp add: apply_item.simps filed_def reservation_ids_def)
      qed (use that ConnectivityItem in \<open>simp add: apply_item.simps\<close>)
    next
      case (ReservationItem v)
      then show ?thesis
        using that logs
        by (auto simp: apply_item.simps filed_def reservation_ids_def reload_reservation_def split: option.splits if_splits)
    qed (use that logs in \<open>auto simp: apply_item.simps filed_def reservation_ids_def Let_def split: option.splits\<close>)
  qed
  show "filed F \<Longrightarrow> filed (note_diagnostic d F)" for F d
    using logs.diagnostic_inv by (auto simp: filed_def reservation_ids_def)
qed (simp_all add: filed_def reservation_ids_def logs_inv_def)

interpretation brief: stable_invariant "every_object short_record" "\<lambda>i F. True"
proof
  show "every_object short_record (snd (apply_item i F))" if "every_object short_record F" for i F
  proof (cases i)
    case (ConnectivityItem r)
    show ?thesis
    proof (cases "reload_connectivity (limits F) r")
      case (Some r')
      have "every_object short_record (F\<lparr>objects := map_put (cr_id r') r' (objects F)\<rparr>)"
        using that reload_short [OF Some] by (blast intro: every_object_put)
      then show ?thesis using Some ConnectivityItem by (simp add: apply_item.simps every_object_def)
    qed (use that ConnectivityItem in \<open>simp add: apply_item.simps\<close>)
  qed (use that in \<open>auto simp: apply_item.simps every_object_def short_record_def Let_def split: option.splits\<close>)
qed (simp_all add: every_object_def)

text \<open>After items were applied an object is within the bound, or no item wrote it.\<close>

lemma apply_decoded_short:
  assumes "fst (apply_decoded items F) = Ok" "map_of (objects (snd (apply_decoded items F))) i = Some r"
  shows "short_record (limits F) b r \<or>
    map_of (objects F) i = Some r \<and> (\<forall>u. ConnectivityItem u \<in> set items \<longrightarrow> cr_id u \<noteq> i)"
  using assms
proof (induction items arbitrary: F)
  case (Cons a items)
  let ?G = "snd (apply_item a F)"
  have G: "fst (apply_item a F) = Ok" "fst (apply_decoded items ?G) = Ok"
      "map_of (objects (snd (apply_decoded items ?G))) i = Some r"
    using Cons.prems by (auto simp: Let_def case_prod_beta split: if_splits)
  from Cons.IH [OF G(2,3)] show ?case
  proof (elim disjE conjE)
    assume later: "map_of (objects ?G) i = Some r" "\<forall>u. ConnectivityItem u \<in> set items \<longrightarrow> cr_id u \<noteq> i"
    show ?case
    proof (cases a)
      case (ConnectivityItem u)
      then obtain u' where u': "reload_connectivity (limits F) u = Some u'"
        using G(1) by (auto simp: apply_item.simps split: option.splits)
      then show ?thesis
        using later ConnectivityItem reload_short [OF u'] by (auto simp: apply_item.simps split: if_splits)
    qed (use later in \<open>auto simp: apply_item.simps Let_def split: option.splits\<close>)
  qed simp
qed simp

section \<open>A start is within its bounds\<close>

lemma recovered_record_id [simp]: "cr_id (recovered_record F r) = cr_id r"
  by (simp add: recovered_record_def split: RecoveryChange.split)

lemma length_pushes: "length fs \<le> n \<Longrightarrow> length (foldl (\<lambda>fs f. push_bounded n f fs) fs gs) \<le> n"
  by (induction gs arbitrary: fs) (simp_all add: length_push_bounded)

lemma recovery_prepared_filed:
  assumes "filed F"
  shows "filed (recovery_prepared recovered F)"
proof -
  have "ordered_keys (map (\<lambda>(i, r). (i, f r)) m) = ordered_keys m" for f and m :: "(u64, ConnectivityRecord) omap"
    by (simp add: ordered_keys_def case_prod_beta comp_def)
  then show ?thesis
    using assms
    by (auto simp: filed_def recovery_prepared_def recovery_epoch_def recovery_fences_def reservation_ids_def
        logs_inv_def rebuild_indices_def length_pushes Let_def)
qed

lemma filed_next: "filed F \<Longrightarrow> filed (next_incarnation inst label (start_counters F))"
  by (simp add: filed_def reservation_ids_def logs_inv_def next_incarnation_def start_counters_def)

lemma replay_limits: "limits (snd (replay records F)) = limits F"
proof (induction records arbitrary: F)
  case (Cons e records)
  then show ?case by (cases e) (simp add: case_prod_beta Let_def)
qed simp

lemma opened_bounds:
  assumes "construct io inst op opened records = Inr F" "\<not> closed F"
  shows "filed F \<and> every_object short_record F \<and> valid_limits F"
proof -
  let ?F0 = "(initial_fabric op)\<lparr>store_open := True, journal := records\<rparr>"
  obtain F1 G recovered j where r: "replay records ?F0 = (Ok, F1)"
    and G: "G = next_incarnation inst (op_host_label op) (start_counters F1)"
    and ok: "fst (apply_decoded (recovery_items recovered G) (recovery_prepared recovered G)) = Ok"
    and F: "F = (snd (apply_decoded (recovery_items recovered G) (recovery_prepared recovered G)))\<lparr>journal := j\<rparr>"
    and valid: "limits_validate (op_limits op) = Ok"
    by (rule opened_stages [OF assms])
  have "filed ?F0" "every_object short_record ?F0"
    by (simp_all add: initial_fabric_def filed_def reservation_ids_def logs_inv_def every_object_def)
  then have F1: "filed F1" "every_object short_record F1" "limits F1 = op_limits op"
    using filing.replay_inv [of ?F0 records] brief.replay_inv [of ?F0 records] replay_limits [of records ?F0] r
    by (simp_all add: initial_fabric_def)
  let ?P = "recovery_prepared recovered G"
  let ?items = "recovery_items recovered G"
  let ?E = "recovery_epoch recovered G"
  have "filed G" unfolding G by (rule filed_next [OF F1(1)])
  moreover have "objects G = objects F1" "limits G = limits F1" by (simp_all add: G next_incarnation_def start_counters_def)
  ultimately have objs: "objects G = objects F1" "limits G = limits F1" "filed G" by blast+
  have lim: "limits ?P = limits F1" "objects ?P = map (\<lambda>(i, r). (i, recovered_record ?E r)) (objects G)"
    by (simp_all add: recovery_prepared_def recovery_epoch_def objs Let_def)
  have "filed F"
    using filing.apply_decoded_inv [OF recovery_prepared_filed [OF objs(3)], of ?items recovered]
    by (simp add: F all_ok_stable)
  moreover have "short_record (limits F) b r" if "(i, r) \<in> set (objects F)" for i r b
  proof (rule ccontr)
    assume long: "\<not> short_record (limits F) b r"
    have limF: "limits F = limits ?P" by (simp add: F)
    have "map_of (objects F) i = Some r" using that \<open>filed F\<close> by (simp add: filed_def ordered_entry_iff)
    then have "map_of (objects ?P) i = Some r" "\<forall>u. ConnectivityItem u \<in> set ?items \<longrightarrow> cr_id u \<noteq> i"
      using apply_decoded_short [OF ok, of i r b] long by (simp_all add: F limF)
    then obtain old where old: "(i, old) \<in> set (objects G)" "r = recovered_record ?E old"
      unfolding lim by (auto dest!: map_of_SomeD)
    have "recovery_change old = Unchanged"
    proof (rule ccontr)
      assume "recovery_change old \<noteq> Unchanged"
      then have "ConnectivityItem r \<in> set ?items"
        using old by (force simp: recovery_items_def recovery_object_items_def recovery_epoch_def Let_def)
      moreover have "cr_id r = i" using old objs(3) by (auto simp: filed_def)
      ultimately show False using \<open>\<forall>u. ConnectivityItem u \<in> set ?items \<longrightarrow> cr_id u \<noteq> i\<close> by blast
    qed
    then have "r = old" using old(2) by (simp add: recovered_record_def)
    then show False
      using old(1) F1(2) long by (force simp: every_object_def short_record_def objs limF lim)
  qed
  ultimately show ?thesis using F1(3) valid by (auto simp: every_object_def valid_limits_def F lim)
qed

section \<open>Through the life of the process\<close>

text \<open>Reservations stay filed under their identities, whatever is applied.\<close>

interpretation ids: stable_invariant reservation_ids "\<lambda>i F. True"
proof
  show "reservation_ids (snd (apply_item i F))" if "reservation_ids F" for i F
    using that
    by (cases i) (auto simp: apply_item.simps reservation_ids_def reload_reservation_def Let_def split: option.splits if_splits)
qed (simp_all add: reservation_ids_def)

lemma ids_operation: "operation F F' \<Longrightarrow> reservation_ids F \<Longrightarrow> reservation_ids F'"
  by (rule ids.operation_kept) (auto simp: reservation_ids_def same_records_def edited_keeps)

lemma ids_submit: "reservation_ids F \<Longrightarrow> reservation_ids (snd (submit_intent io planner F0 F1 it F))"
  by (rule ids.submit_kept) simp_all

locale life_invariant =
  fixes inv :: "Fabric \<Rightarrow> bool"
  assumes opened_inv: "construct io inst op opened records = Inr F \<Longrightarrow> \<not> closed F \<Longrightarrow> inv F"
    and life_operation: "operation F F' \<Longrightarrow> reservation_ids F \<Longrightarrow> valid_limits F \<Longrightarrow> inv F \<Longrightarrow> inv F'"
    and life_submit: "valid_limits F \<Longrightarrow> inv F \<Longrightarrow> inv (snd (submit_intent io planner F0 F1 it F))"
begin

lemma lived: "reach opened_start trace_step hs \<Longrightarrow> inv (hd hs) \<and> valid_limits (hd hs) \<and> reservation_ids (hd hs)"
proof (induction rule: reach.induct)
  case (reach_start hs)
  then show ?case using opened_inv opened_bounds by (auto simp: opened_start_def process_start_def filed_def)
next
  case (reach_step s t)
  from reach_step(2) show ?case
  proof cases
    case (operate F F' hs)
    then show ?thesis using reach_step.IH life_operation operation_valid ids_operation by auto
  next
    case (submit F0 F hs F1 io planner it)
    then show ?thesis using reach_step.IH life_submit submit_valid ids_submit by auto
  qed
qed

end

context object_invariant
begin

lemma object_life:
  assumes "operation F F'" "reservation_ids F" "valid_limits F" "every_object P F"
  shows "every_object P F'"
  using operation_background [OF assms(1)] assms
  by (auto simp: valid_limits_def intro: background_object handled_object)

end

text \<open>Histories and logs within their bounds.\<close>

interpretation short: object_invariant short_record
proof
  show "short_record (limits F) (boot F) new"
    if "object_step F old new" "short_record (limits F) (boot F) old" for F old new
    using that(1)
    by (cases rule: object_step_history)
      (use that object_step_keeps(5) [OF that(1)] in \<open>auto simp: short_record_def move_object_history\<close>)
  show "short_record (limits F) b (proposed_record F it path canonical)"
    if "limits_validate (limits F) = Ok" for F b it path canonical
    using limits_valid_positive(1) [OF that] by (simp add: short_record_def proposed_record_def Suc_le_eq)
qed (simp add: reload_short)

interpretation within_bounds: life_invariant "\<lambda>F. logs_inv F \<and> every_object short_record F"
proof
  show "logs_inv F \<and> every_object short_record F"
    if "construct io inst op opened records = Inr F" "\<not> closed F" for io inst op opened records F
    using opened_bounds [OF that] by (simp add: filed_def)
  show "logs_inv F' \<and> every_object short_record F'"
    if op: "operation F F'" "reservation_ids F" "valid_limits F" "logs_inv F \<and> every_object short_record F" for F F'
  proof
    show "logs_inv F'"
      by (rule logs.operation_kept [OF op(1,2)]) (use op in \<open>auto simp: logs_inv_def same_records_def edited_keeps\<close>)
    show "every_object short_record F'" using short.object_life op by blast
  qed
qed (auto intro: logs.submit_kept short.submit_object simp: valid_limits_def)

lemma bounds_checked: "logs_inv F \<Longrightarrow> every_object short_record F \<Longrightarrow> bounded_histories_stay_bounded F"
  using logs_attempts [of F]
  by (auto simp: bounded_histories_stay_bounded_def logs_inv_def every_object_def short_record_def list_all_iff)

text \<open>A committed path is confirmed by the running incarnation only.\<close>

definition committed_by_boot :: "Limits \<Rightarrow> u64 \<Rightarrow> ConnectivityRecord \<Rightarrow> bool" where
  "committed_by_boot lim b r \<longleftrightarrow> (is_committed_state (cr_state r) \<longrightarrow> confirmed_by_boot lim b r)"

interpretation committed: object_invariant committed_by_boot
proof
  show "committed_by_boot (limits F) (boot F) new"
    if "object_step F old new" "committed_by_boot (limits F) (boot F) old" for F old new
    using that
    by cases (auto simp: committed_by_boot_def confirmed_by_boot_def object_step_defs Let_def authorized_by_def
        is_committed_state_def dest: require_authority_boot)
qed (auto simp: committed_by_boot_def confirmed_by_boot_def reload_keeps proposed_record_def)

interpretation reconfirmed: life_invariant "every_object committed_by_boot"
proof
  show "every_object committed_by_boot F"
    if "construct io inst op opened records = Inr F" "\<not> closed F" for io inst op opened records F
    using construct_conservative [OF that]
    by (auto simp: conservative_def settled_def every_object_def committed_by_boot_def confirmed_by_boot_def)
qed (auto intro: committed.object_life committed.submit_object simp: valid_limits_def)

section \<open>The first life\<close>

lemma trace_origin: "reach start trace_step hs \<Longrightarrow> (\<And>gs. start gs \<Longrightarrow> \<exists>F. gs = [F]) \<Longrightarrow> hs \<noteq> [] \<and> start [last hs]"
proof (induction rule: reach.induct)
  case (reach_step s t)
  then show ?case by (auto elim!: trace_step.cases)
qed fastforce

lemma trace_restarted:
  assumes "reach start trace_step hs" "\<And>gs. start gs \<Longrightarrow> \<exists>F. gs = [F]" "start' [last hs]"
  shows "reach start' trace_step hs"
  using assms
proof (induction rule: reach.induct)
  case (reach_start s)
  then show ?case by (metis last_ConsL reach.reach_start)
next
  case (reach_step s t)
  have "last t = last s" using reach_step(2) by cases simp_all
  then show ?case using reach_step by (metis reach.reach_step)
qed

lemma single_start: "process_start gs \<Longrightarrow> \<exists>F. gs = [F]" "opened_start gs \<Longrightarrow> \<exists>F. gs = [F]"
  by (auto simp: process_start_def opened_start_def)

lemma fresh_process: "fresh_start hs \<Longrightarrow> process_start hs"
  unfolding fresh_start_def process_start_def by blast

end
