(* ===== verification/Node.thy ===== *)
theory Node
  imports Serving Lives
begin

text \<open>
  The control-plane node (\<open>FabricNode\<close> and \<open>serve_connection\<close> of \<open>server.cpp\<close>): it accepts connections, serves each in a
  thread of its own, and all of them share the runtime.

  A thread is the state of its connection; the node is a step relation in which the steps of the threads
  interleave. Every call into the runtime holds its lock, so one request is one step, except that the calls a
  request makes before its operation may see older states (\<open>cx_before\<close>, \<open>cx_between\<close>). A thread closes its socket first and
  erases the handle from the list of clients in a later step; in between the operating system may give the
  same handle to a new connection. The sockets are the environment: the bytes that a receive returns, whether a
  send succeeds, when a peer hangs up, and which unused handle an accept returns are free.
\<close>

section \<open>One connection\<close>

text \<open>The loop of \<open>serve_connection\<close> waits for bytes, or works through the frames of the last receive; after the loop the
  socket is closed, and the thread ends when its handle has been erased.\<close>

datatype WorkerPhase = Waiting | Serving | SocketClosed | Ended

record Connection =
  cn_handle :: nat
  cn_codec :: FrameCodec
  cn_frames :: "Frame list"
  cn_phase :: WorkerPhase

definition new_connection :: "Limits \<Rightarrow> nat \<Rightarrow> Connection" where
  "new_connection lim handle = \<lparr>cn_handle = handle, cn_codec = new_codec lim, cn_frames = [], cn_phase = Waiting\<rparr>"

text \<open>The bytes of a receive; none when the peer is gone or the call failed. \<open>None\<close> ends the connection.\<close>

definition receive_bytes :: "bytes \<Rightarrow> Connection \<Rightarrow> Connection option" where
  "receive_bytes data c =
     (if data = [] then None
      else let (fed, frames, codec) = feed data (cn_codec c) in
        if fed \<noteq> Ok then None
        else Some (c\<lparr>cn_codec := codec, cn_frames := frames, cn_phase := Serving\<rparr>))"

datatype FrameOutcome = FrameServed | FramesDropped | ConnectionFinished

text \<open>The body of the loop over the frames: the request is parsed, dispatched and answered under the sequence
  number of its frame. A payload that does not parse leaves the loop, and with it the frames after it; the
  connection goes on.\<close>

definition serve_frame ::
  "Limits \<Rightarrow> Circumstances \<Rightarrow> bool \<Rightarrow> Frame \<Rightarrow> Fabric \<Rightarrow> FrameOutcome \<times> bytes \<times> Fabric" where
  "serve_frame lim cx send_ok f F =
     (case parse_message (bytes_text (fr_payload f)) lim of
        Inl e \<Rightarrow> (FramesDropped, [], F)
      | Inr request \<Rightarrow>
          let (response, F') = dispatch_request cx request F;
              encoded = encode_frame (fr_sequence f) (text_bytes (serialize response)) in
          if \<not> send_ok then (ConnectionFinished, [], F')
          else if pm_operation request = ''shutdown'' then (ConnectionFinished, encoded, F')
          else (FrameServed, encoded, F'))"

section \<open>The node\<close>

text \<open>\<open>nd_clients\<close> is the vector of handles that the bound is checked against, \<open>nd_workers\<close> the vector of threads.\<close>

record NodeState =
  nd_trace :: "Fabric list"
  nd_limits :: Limits
  nd_running :: bool
  nd_stopping :: bool
  nd_clients :: "nat list"
  nd_workers :: "Connection list"
  nd_workers_joined :: bool

definition nd_fabric :: "NodeState \<Rightarrow> Fabric" where "nd_fabric n = hd (nd_trace n)"

text \<open>\<open>start\<close>: a runtime that refused its store is not served; \<open>listening\<close> is the answer of the socket layer.\<close>

definition node_start :: "Status \<Rightarrow> NodeState \<Rightarrow> Status \<times> NodeState" where
  "node_start listening n =
     (if nd_running n then (Ok, n)
      else if closed (nd_fabric n) then (StoreLocked, n)
      else if listening \<noteq> Ok then (listening, n)
      else (Ok, n\<lparr>nd_running := True\<rparr>))"

text \<open>The loop of \<open>serve\<close> after an accepted connection.\<close>

definition node_accept :: "nat \<Rightarrow> NodeState \<Rightarrow> NodeState" where
  "node_accept handle n =
     (if nd_stopping n then n
      else if length (nd_clients n) < max_connections (nd_limits n)
      then n\<lparr>nd_clients := nd_clients n @ [handle], nd_workers := nd_workers n @ [new_connection (nd_limits n) handle]\<rparr>
      else n)"

definition node_stop :: "NodeState \<Rightarrow> NodeState" where
  "node_stop n = n\<lparr>nd_stopping := True\<rparr>"

definition set_worker :: "nat \<Rightarrow> Connection \<Rightarrow> NodeState \<Rightarrow> NodeState" where
  "set_worker w c n = n\<lparr>nd_workers := (nd_workers n)[w := c]\<rparr>"

text \<open>The end of \<open>serve_connection\<close>, and then the end of the thread: every entry with its handle is erased.\<close>

definition close_worker :: "nat \<Rightarrow> Connection \<Rightarrow> NodeState \<Rightarrow> NodeState" where
  "close_worker w c n = set_worker w (c\<lparr>cn_phase := SocketClosed\<rparr>) n"

definition node_erase :: "nat \<Rightarrow> Connection \<Rightarrow> NodeState \<Rightarrow> NodeState" where
  "node_erase w c n =
     set_worker w (c\<lparr>cn_phase := Ended\<rparr>) (n\<lparr>nd_clients := filter (\<lambda>h. h \<noteq> cn_handle c) (nd_clients n)\<rparr>)"

definition node_receive :: "nat \<Rightarrow> bytes \<Rightarrow> Connection \<Rightarrow> NodeState \<Rightarrow> NodeState" where
  "node_receive w data c n =
     (case receive_bytes data c of None \<Rightarrow> close_worker w c n | Some c' \<Rightarrow> set_worker w c' n)"

definition node_serve ::
  "nat \<Rightarrow> Circumstances \<Rightarrow> bool \<Rightarrow> Frame \<Rightarrow> Frame list \<Rightarrow> Connection \<Rightarrow> NodeState \<Rightarrow> NodeState" where
  "node_serve w cx send_ok f fs c n =
     (let (outcome, sent, F') = serve_frame (nd_limits n) cx send_ok f (nd_fabric n);
          n' = n\<lparr>nd_trace := F' # nd_trace n\<rparr>
      in case outcome of
           FrameServed \<Rightarrow> set_worker w (c\<lparr>cn_frames := fs\<rparr>) n'
         | FramesDropped \<Rightarrow> set_worker w (c\<lparr>cn_frames := []\<rparr>) n'
         | ConnectionFinished \<Rightarrow> close_worker w c n')"

text \<open>After the frames: a stopping node ends the connection, otherwise it waits for more bytes.\<close>

definition node_turn :: "nat \<Rightarrow> Connection \<Rightarrow> NodeState \<Rightarrow> NodeState" where
  "node_turn w c n =
     (if nd_stopping n then close_worker w c n else set_worker w (c\<lparr>cn_phase := Waiting\<rparr>) n)"

text \<open>\<open>serve\<close> leaves its loop when the node stops or an accept fails, and returns when its workers are joined. The
  workers are joined once only: when a node is started and served again, \<open>serve\<close> returns without waiting for them.\<close>

definition node_join :: "NodeState \<Rightarrow> NodeState" where
  "node_join n =
     (if nd_workers_joined n then n\<lparr>nd_running := False\<rparr>
      else n\<lparr>nd_running := False, nd_workers := [], nd_workers_joined := True\<rparr>)"

text \<open>The connections whose socket is open; an accept returns a handle that none of them has.\<close>

definition open_connections :: "NodeState \<Rightarrow> Connection list" where
  "open_connections n = filter (\<lambda>c. cn_phase c = Waiting \<or> cn_phase c = Serving) (nd_workers n)"

definition runs :: "NodeState \<Rightarrow> nat \<Rightarrow> Connection \<Rightarrow> bool" where
  "runs n w c \<longleftrightarrow> w < length (nd_workers n) \<and> nd_workers n ! w = c"

inductive node_step :: "NodeState \<Rightarrow> NodeState \<Rightarrow> bool" for n where
  started: "node_step n (snd (node_start listening n))"
| accepted: "nd_running n \<Longrightarrow> handle \<notin> cn_handle ` set (open_connections n) \<Longrightarrow> node_step n (node_accept handle n)"
| received: "runs n w c \<Longrightarrow> cn_phase c = Waiting \<Longrightarrow> node_step n (node_receive w data c n)"
| served: "runs n w c \<Longrightarrow> cn_phase c = Serving \<Longrightarrow> cn_frames c = f # fs \<Longrightarrow>
    cx_before cx \<in> set (nd_trace n) \<Longrightarrow> cx_between cx \<in> set (nd_trace n) \<Longrightarrow>
    node_step n (node_serve w cx send_ok f fs c n)"
| turned: "runs n w c \<Longrightarrow> cn_phase c = Serving \<Longrightarrow> cn_frames c = [] \<Longrightarrow> node_step n (node_turn w c n)"
| erased: "runs n w c \<Longrightarrow> cn_phase c = SocketClosed \<Longrightarrow> node_step n (node_erase w c n)"
| stopped: "node_step n (node_stop n)"
| joined: "nd_running n \<Longrightarrow> nd_workers_joined n \<or> list_all (\<lambda>c. cn_phase c = Ended) (nd_workers n) \<Longrightarrow>
    node_step n (node_join n)"

text \<open>A node is constructed on a runtime that has just started, on whatever its store holds, with no connection.\<close>

definition node_init :: "NodeState \<Rightarrow> bool" where
  "node_init n \<longleftrightarrow> process_start (nd_trace n) \<and> \<not> nd_running n \<and> \<not> nd_stopping n \<and> nd_clients n = [] \<and>
     nd_workers n = [] \<and> \<not> nd_workers_joined n"

section \<open>The node refines the runtime\<close>

text \<open>What a node does to the runtime is a run of the machine; requests that change nothing are no steps of it.\<close>

lemma serve_frame_served: "served cx F (snd (snd (serve_frame lim cx send_ok f F)))"
  by (simp add: serve_frame_def case_prod_beta Let_def dispatch_served split: sum.split)

lemma machine_follows:
  assumes "reach start trace_step (remdups_adj hs)" "hs \<noteq> []" "served cx (hd hs) F'"
    "cx_before cx \<in> set hs" "cx_between cx \<in> set hs"
  shows "reach start trace_step (remdups_adj (F' # hs))"
proof -
  obtain F gs where hs: "hs = F # gs" using assms(2) by (cases hs) auto
  have "hd (remdups_adj hs) = F" "remdups_adj hs \<noteq> []" by (simp_all add: hs hd_remdups_adj)
  then obtain rs where rs: "remdups_adj hs = F # rs" by (cases "remdups_adj hs") auto
  have cons: "remdups_adj (F' # hs) = (if F' = F then F # rs else F' # F # rs)" using rs by (simp add: hs)
  have "set hs = set (F # rs)" using arg_cong [OF rs, of set] by simp
  then have seen: "cx_before cx \<in> set (F # rs)" "cx_between cx \<in> set (F # rs)" using assms(4,5) by auto
  have run: "reach start trace_step (F # rs)" using assms(1) rs by simp
  show ?thesis
  proof (cases "F' = F")
    case False
    then have "operation F F' \<or> (\<exists>it. F' = snd (submit_intent (cx_io cx) (cx_planner cx) (cx_before cx) (cx_between cx) it F))"
      using assms(3) by (simp add: hs served_def)
    then have "trace_step (F # rs) (F' # F # rs)" using seen by (blast intro: trace_step.intros)
    then show ?thesis using run False cons by (auto intro: reach_step)
  qed (use run cons in simp)
qed

lemma workers_keep [simp]:
  "nd_trace (set_worker w c n) = nd_trace n" "nd_limits (set_worker w c n) = nd_limits n"
  "nd_clients (set_worker w c n) = nd_clients n" "nd_workers (set_worker w c n) = (nd_workers n)[w := c]"
  by (simp_all add: set_worker_def)

lemma node_serve_effect:
  "\<exists>F'. nd_trace (node_serve w cx ok f fs c n) = F' # nd_trace n \<and> served cx (nd_fabric n) F'"
  using serve_frame_served [of cx "nd_fabric n" "nd_limits n" ok f]
  by (auto simp: node_serve_def close_worker_def case_prod_beta Let_def split: FrameOutcome.split)

definition follows_machine :: "NodeState \<Rightarrow> bool" where
  "follows_machine n \<longleftrightarrow> nd_trace n \<noteq> [] \<and> reach process_start trace_step (remdups_adj (nd_trace n))"

lemma steps_keep_trace:
  "nd_trace (snd (node_start l n)) = nd_trace n" "nd_trace (node_accept h n) = nd_trace n"
  "nd_trace (node_receive w data c n) = nd_trace n" "nd_trace (node_turn w c n) = nd_trace n"
  "nd_trace (node_stop n) = nd_trace n" "nd_trace (node_join n) = nd_trace n" "nd_trace (node_erase w c n) = nd_trace n"
  by (simp_all add: node_start_def node_accept_def node_receive_def node_turn_def node_stop_def node_join_def
      close_worker_def node_erase_def split: option.split)

interpretation node_run: safe_machine node_init node_step follows_machine
proof
  show "follows_machine n" if "node_init n" for n
  proof -
    have "process_start (nd_trace n)" using that by (simp add: node_init_def)
    moreover obtain F where "nd_trace n = [F]" using single_start(1) [OF calculation] by blast
    ultimately show ?thesis by (simp add: follows_machine_def reach_start)
  qed
  show "follows_machine t" if "follows_machine n" "node_step n t" for n t
    using that(2,1)
  proof cases
    case (served w c f fs cx ok)
    obtain F' where F': "nd_trace t = F' # nd_trace n" "served cx (nd_fabric n) F'"
      using node_serve_effect [of w cx ok f fs c n] served(1) by auto
    then show ?thesis
      using machine_follows [of process_start "nd_trace n" cx F'] that(1) served
      by (simp add: follows_machine_def nd_fabric_def)
  qed (auto simp: follows_machine_def steps_keep_trace)
qed

text \<open>The run of the runtime, and what its first state decides.\<close>

lemma node_first_life:
  assumes "reach node_init node_step n" "start [last (nd_trace n)]"
  shows "reach start trace_step (remdups_adj (nd_trace n)) \<and> hd (remdups_adj (nd_trace n)) = nd_fabric n"
proof -
  have run: "nd_trace n \<noteq> []" "reach process_start trace_step (remdups_adj (nd_trace n))"
    using node_run.reach_inv [OF assms(1)] by (simp_all add: follows_machine_def)
  have "last (remdups_adj (nd_trace n)) = last (nd_trace n)" by (simp add: last_remdups_adj)
  then have "reach start trace_step (remdups_adj (nd_trace n))"
    using trace_restarted [OF run(2) single_start(1)] assms(2) by simp
  then show ?thesis using run(1) by (simp add: nd_fabric_def hd_remdups_adj)
qed

section \<open>Bounds\<close>

text \<open>The list of clients is bounded, and no codec keeps more than one frame of the largest size.\<close>

definition codec_bounded :: "Limits \<Rightarrow> Connection \<Rightarrow> bool" where
  "codec_bounded lim c \<longleftrightarrow> fc_limits (cn_codec c) = lim \<and> \<not> stream_failed (cn_codec c) \<and>
     pending_bytes (cn_codec c) \<le> max_frame_payload_bytes lim + kFrameHeaderBytes"

definition node_bounded :: "NodeState \<Rightarrow> bool" where
  "node_bounded n \<longleftrightarrow>
     length (nd_clients n) \<le> max_connections (nd_limits n) \<and> list_all (codec_bounded (nd_limits n)) (nd_workers n)"

lemma receive_bounded:
  assumes "receive_bytes data c = Some c'" "codec_bounded lim c"
  shows "codec_bounded lim c'"
  using assms
  by (auto simp: receive_bytes_def codec_bounded_def feed_def stream_failed_def pending_bytes_def Let_def case_prod_beta
      split: if_splits)

lemma codec_bounded_keeps [simp]:
  "codec_bounded lim (c\<lparr>cn_phase := p\<rparr>) = codec_bounded lim c" "codec_bounded lim (c\<lparr>cn_frames := fs\<rparr>) = codec_bounded lim c"
  by (simp_all add: codec_bounded_def)

lemma set_worker_bounded: "node_bounded n \<Longrightarrow> codec_bounded (nd_limits n) c \<Longrightarrow> node_bounded (set_worker w c n)"
  using set_update_subset_insert [of "nd_workers n" w c] by (auto simp: node_bounded_def list_all_iff)

lemma runs_bounded: "node_bounded n \<Longrightarrow> runs n w c \<Longrightarrow> codec_bounded (nd_limits n) c"
  by (auto simp: node_bounded_def runs_def list_all_iff)

interpretation node_limits: safe_machine node_init node_step node_bounded
proof
  show "node_bounded n" if "node_init n" for n using that by (simp add: node_init_def node_bounded_def)
  show "node_bounded t" if bounded: "node_bounded n" and step: "node_step n t" for n t
    using step
  proof cases
    case (started l)
    then show ?thesis using bounded by (simp add: node_start_def node_bounded_def)
  next
    case (accepted h)
    then show ?thesis
      using bounded
      by (auto simp: node_accept_def node_bounded_def codec_bounded_def new_connection_def new_codec_def pending_bytes_def
          stream_failed_def)
  next
    case (received w c data)
    then show ?thesis
      using bounded runs_bounded [OF bounded received(2)] receive_bounded
      by (auto simp: node_receive_def close_worker_def intro!: set_worker_bounded split: option.split)
  next
    case (served w c f fs cx ok)
    have "node_bounded (n\<lparr>nd_trace := hs\<rparr>)" for hs using bounded by (simp add: node_bounded_def)
    then show ?thesis
      using served(1) runs_bounded [OF bounded served(2)]
      by (auto simp: node_serve_def close_worker_def case_prod_beta Let_def intro!: set_worker_bounded split: FrameOutcome.split)
  next
    case (turned w c)
    then show ?thesis
      using bounded runs_bounded [OF bounded turned(2)] by (auto simp: node_turn_def close_worker_def intro!: set_worker_bounded)
  next
    case (erased w c)
    have "node_bounded (n\<lparr>nd_clients := filter (\<lambda>h. h \<noteq> cn_handle c) (nd_clients n)\<rparr>)"
      using bounded by (auto simp: node_bounded_def intro: order_trans [OF length_filter_le])
    then show ?thesis
      using erased(1) runs_bounded [OF bounded erased(2)] by (auto simp: node_erase_def intro!: set_worker_bounded)
  qed (use bounded in \<open>simp_all add: node_stop_def node_join_def node_bounded_def\<close>)
qed

text \<open>As long as no connection is accepted under a handle that is still listed, the list names exactly the
  connections that have not ended.\<close>

definition undisturbed_step :: "NodeState \<Rightarrow> NodeState \<Rightarrow> bool" where
  "undisturbed_step n n' \<longleftrightarrow> node_step n n' \<and> distinct (nd_clients n')"

definition alive_handles :: "Connection list \<Rightarrow> nat list" where
  "alive_handles cs = map cn_handle (filter (\<lambda>c. cn_phase c \<noteq> Ended) cs)"

lemma alive_kept:
  "w < length cs \<Longrightarrow> cn_phase (cs ! w) \<noteq> Ended \<Longrightarrow> cn_phase c \<noteq> Ended \<Longrightarrow> cn_handle c = cn_handle (cs ! w) \<Longrightarrow>
   alive_handles (cs[w := c]) = alive_handles cs"
  by (induction cs arbitrary: w) (auto simp: alive_handles_def nth_Cons split: nat.splits)

lemma alive_ended:
  "w < length cs \<Longrightarrow> cn_phase (cs ! w) \<noteq> Ended \<Longrightarrow> cn_phase c = Ended \<Longrightarrow> distinct (alive_handles cs) \<Longrightarrow>
   alive_handles (cs[w := c]) = filter (\<lambda>h. h \<noteq> cn_handle (cs ! w)) (alive_handles cs)"
proof (induction cs arbitrary: w)
  case (Cons d cs)
  show ?case
  proof (cases w)
    case 0
    then have "cn_handle d \<notin> set (alive_handles cs)" using Cons.prems by (auto simp: alive_handles_def)
    then have "filter (\<lambda>h. h \<noteq> cn_handle d) (alive_handles cs) = alive_handles cs"
      by (metis (mono_tags, lifting) filter_True)
    then show ?thesis using 0 Cons.prems by (simp add: alive_handles_def)
  next
    case (Suc v)
    have "cn_handle (cs ! v) \<in> set (alive_handles cs)" using Cons.prems Suc by (auto simp: alive_handles_def)
    then show ?thesis using Suc Cons.prems Cons.IH [of v] by (auto simp: alive_handles_def)
  qed
qed simp

definition node_listed :: "NodeState \<Rightarrow> bool" where
  "node_listed n \<longleftrightarrow> alive_handles (nd_workers n) = nd_clients n \<and> distinct (nd_clients n)"

lemma receive_alive: "receive_bytes data c = Some c' \<Longrightarrow> cn_handle c' = cn_handle c \<and> cn_phase c' = Serving"
  by (auto simp: receive_bytes_def Let_def case_prod_beta split: if_splits)

lemma set_worker_listed:
  assumes "node_listed n" "runs n w c" "cn_phase c \<noteq> Ended" "cn_phase d \<noteq> Ended" "cn_handle d = cn_handle c"
  shows "node_listed (set_worker w d n)" "node_listed (set_worker w d (n\<lparr>nd_trace := hs\<rparr>))"
  using assms alive_kept [of w "nd_workers n" d] by (auto simp: node_listed_def runs_def)

interpretation node_names: safe_machine node_init undisturbed_step node_listed
proof
  show "node_listed n" if "node_init n" for n using that by (simp add: node_init_def node_listed_def alive_handles_def)
  show "node_listed t" if listed: "node_listed n" and step: "undisturbed_step n t" for n t
  proof -
    have t: "node_step n t" "distinct (nd_clients t)" using step by (simp_all add: undisturbed_step_def)
    from t(1) show ?thesis
    proof cases
      case (started l)
      then show ?thesis using listed by (simp add: node_start_def node_listed_def)
    next
      case (accepted h)
      then show ?thesis
        using listed t(2) by (auto simp: node_accept_def node_listed_def alive_handles_def new_connection_def)
    next
      case (received w c data)
      then show ?thesis
        using set_worker_listed(1) [OF listed received(2)] receive_alive
        by (auto simp: node_receive_def close_worker_def split: option.split)
    next
      case (served w c f fs cx ok)
      then show ?thesis
        using set_worker_listed(2) [OF listed served(2)]
        by (auto simp: node_serve_def close_worker_def case_prod_beta Let_def split: FrameOutcome.split)
    next
      case (turned w c)
      then show ?thesis
        using set_worker_listed(1) [OF listed turned(2)] by (auto simp: node_turn_def close_worker_def)
    next
      case (erased w c)
      then show ?thesis
        using listed alive_ended [of w "nd_workers n" "c\<lparr>cn_phase := Ended\<rparr>"]
        by (auto simp: node_erase_def node_listed_def runs_def)
    next
      case joined
      then show ?thesis
        using listed by (auto simp: node_join_def node_listed_def alive_handles_def list_all_iff filter_empty_conv)
    qed (use listed in \<open>simp_all add: node_stop_def node_listed_def\<close>)
  qed
qed

lemma undisturbed_run: "reach node_init undisturbed_step n \<Longrightarrow> reach node_init node_step n"
  by (induction rule: reach.induct) (auto simp: undisturbed_step_def intro: reach.intros)

lemma undisturbed_open:
  assumes "reach node_init undisturbed_step n"
  shows "length (open_connections n) \<le> max_connections (nd_limits n)"
proof -
  have "length (filter (\<lambda>c. cn_phase c = Waiting \<or> cn_phase c = Serving) cs) \<le> length (filter (\<lambda>c. cn_phase c \<noteq> Ended) cs)" for cs
    by (induction cs) auto
  then have "length (open_connections n) \<le> length (filter (\<lambda>c. cn_phase c \<noteq> Ended) (nd_workers n))"
    by (simp add: open_connections_def)
  also have "\<dots> = length (nd_clients n)"
    using node_names.reach_inv [OF assms] by (metis alive_handles_def length_map node_listed_def)
  also have "\<dots> \<le> max_connections (nd_limits n)"
    using node_limits.reach_inv [OF undisturbed_run [OF assms]] by (simp add: node_bounded_def)
  finally show ?thesis .
qed

end
