(* ===== verification/Client.thy ===== *)
theory Client
  imports Node
begin

text \<open>
  The control-plane client (\<open>client.hpp\<close>, \<open>client.cpp\<close>) and the whole way of a request: framed by the client, cut
  anywhere by the network, served by the node, framed again and read by the client.

  What the sockets answer is an argument: the status of a call, and for receives the pieces of the stream in
  the order in which they arrive. A receive that finds no piece left waits for ever, which is \<open>None\<close>.
\<close>

section \<open>The client\<close>

record ClientState =
  fcl_limits :: Limits
  fcl_connected :: bool
  fcl_codec :: FrameCodec
  fcl_next_sequence :: u64
  fcl_request_prefix :: string
  fcl_request_counter :: u64

definition kMaxSkippedFrames :: nat where "kMaxSkippedFrames = 64"

text \<open>The prefix of request identifiers from eight random bytes.\<close>

definition make_request_prefix :: "bytes \<Rightarrow> string" where
  "make_request_prefix entropy =
     ''req-'' @ concat (map (\<lambda>b. [hex_char (drop_bit 4 (ucast b) AND 15), hex_char (ucast b AND 15)]) entropy) @ ''-''"

definition new_client :: "Limits \<Rightarrow> string \<Rightarrow> bytes \<Rightarrow> ClientState" where
  "new_client lim prefix entropy =
     \<lparr>fcl_limits = lim, fcl_connected = False, fcl_codec = new_codec lim, fcl_next_sequence = 1,
      fcl_request_prefix = (if prefix = [] then make_request_prefix entropy else prefix), fcl_request_counter = 0\<rparr>"

definition client_connect :: "Status \<Rightarrow> ClientState \<Rightarrow> Status \<times> ClientState" where
  "client_connect connecting c =
     (if fcl_connected c then (Ok, c)
      else if connecting \<noteq> Ok then (connecting, c)
      else (Ok, c\<lparr>fcl_connected := True\<rparr>))"

definition client_disconnect :: "ClientState \<Rightarrow> ClientState" where
  "client_disconnect c = c\<lparr>fcl_connected := False\<rparr>"

text \<open>\<open>send\<close>: the status and the bytes handed to the socket.\<close>

definition client_send :: "Status \<Rightarrow> Status \<Rightarrow> ProtocolMessage \<Rightarrow> ClientState \<Rightarrow> Status \<times> bytes \<times> ClientState" where
  "client_send connecting sending request c =
     (let (connected, c1) = client_connect connecting c in
      if connected \<noteq> Ok then (connected, [], c1)
      else (sending, encode_frame (fcl_next_sequence c1) (text_bytes (serialize request)),
            c1\<lparr>fcl_next_sequence := fcl_next_sequence c1 + 1\<rparr>))"

text \<open>\<open>receive\<close>: the message, the pieces that are left, and the client. Only the first frame of a piece is looked at.\<close>

fun client_receive :: "bytes list \<Rightarrow> ClientState \<Rightarrow> (ProtocolMessage result \<times> bytes list \<times> ClientState) option" where
  "client_receive [] c = None"
| "client_receive (data # pieces) c =
     (if data = [] then Some (Inl Closed, pieces, c)
      else let (fed, frames, codec) = feed data (fcl_codec c); c' = c\<lparr>fcl_codec := codec\<rparr> in
        if fed \<noteq> Ok then Some (Inl fed, pieces, c')
        else if frames = [] then client_receive pieces c'
        else Some (parse_message (bytes_text (fr_payload (hd frames))) (fcl_limits c), pieces, c'))"

fun client_await ::
  "nat \<Rightarrow> string \<Rightarrow> bytes list \<Rightarrow> ClientState \<Rightarrow> (ProtocolMessage result \<times> bytes list \<times> ClientState) option" where
  "client_await 0 request_id pieces c = Some (Inl InvalidArgument, pieces, c)"
| "client_await (Suc n) request_id pieces c =
     (case client_receive pieces c of
        None \<Rightarrow> None
      | Some (Inl e, pieces', c') \<Rightarrow> Some (Inl e, pieces', c')
      | Some (Inr response, pieces', c') \<Rightarrow>
          if pm_request_id response = request_id then Some (Inr response, pieces', c')
          else client_await n request_id pieces' c')"

definition outgoing_request :: "ProtocolMessage \<Rightarrow> ClientState \<Rightarrow> ProtocolMessage \<times> ClientState" where
  "outgoing_request request c =
     (if pm_request_id request = []
      then let counter = fcl_request_counter c + 1 in
        (request\<lparr>pm_request_id := fcl_request_prefix c @ to_decimal counter\<rparr>, c\<lparr>fcl_request_counter := counter\<rparr>)
      else (request, c))"

text \<open>\<open>call\<close> with the pieces that arrive after the request was sent.\<close>

definition client_call ::
  "Status \<Rightarrow> Status \<Rightarrow> bytes list \<Rightarrow> ProtocolMessage \<Rightarrow> ClientState \<Rightarrow>
   (ProtocolMessage result \<times> bytes list \<times> ClientState) option" where
  "client_call connecting sending pieces request c =
     (let (outgoing, c1) = outgoing_request request c;
          (sent, frame, c2) = client_send connecting sending outgoing c1 in
      if sent \<noteq> Ok then Some (Inl sent, pieces, c2)
      else client_await (kMaxSkippedFrames + 1) (pm_request_id outgoing) pieces c2)"

section \<open>Receiving one frame\<close>

lemma feed_by_drains:
  assumes "\<not> fc_failed c" "frames.drains (fc_limits c) (fc_buffer c @ data) fs r None"
  shows "feed data c = (Ok, fs, c\<lparr>fc_buffer := r\<rparr>)"
proof -
  obtain gs r' e where "frames.drains (fc_limits c) (fc_buffer c @ data) gs r' e" and
    fed: "feed data c = (case e of None \<Rightarrow> (Ok, gs, c\<lparr>fc_buffer := r'\<rparr>)
      | Some x \<Rightarrow> (x, gs, c\<lparr>fc_buffer := fc_buffer c @ data, fc_failed := True\<rparr>))"
    using feed_drains [OF assms(1), of data] by metis
  then have "gs = fs \<and> r' = r \<and> e = None" using frames.drains_unique assms(2) by blast
  then show ?thesis by (simp add: fed)
qed

lemma receive_frame:
  assumes "frame_fits (fcl_limits c) f" "[] \<notin> set pieces" "fc_limits (fcl_codec c) = fcl_limits c"
    "\<not> fc_failed (fcl_codec c)" "fc_buffer (fcl_codec c) @ concat pieces = frame_bytes f" "pieces \<noteq> []"
  shows "client_receive pieces c = Some (parse_message (bytes_text (fr_payload f)) (fcl_limits c), [],
    c\<lparr>fcl_codec := (fcl_codec c)\<lparr>fc_buffer := []\<rparr>\<rparr>)"
  using assms
proof (induction pieces arbitrary: c)
  case (Cons data pieces)
  let ?b = "fc_buffer (fcl_codec c) @ data"
  have split: "?b @ concat pieces = frame_bytes f" and ne: "data \<noteq> []" using Cons.prems by auto
  show ?case
  proof (cases "pieces = []")
    case True
    then have "frames.drains (fcl_limits c) ?b [f] [] None"
      using drains_frames [of "fcl_limits c" "[f]" "[]"] Cons.prems(1) split by (simp add: new_codec_waits)
    then have "feed data (fcl_codec c) = (Ok, [f], (fcl_codec c)\<lparr>fc_buffer := []\<rparr>)"
      using feed_by_drains Cons.prems by simp
    then show ?thesis using True ne by simp
  next
    case False
    then have "concat pieces \<noteq> []" using Cons.prems(2) by (cases pieces) auto
    then have "length ?b < length (frame_bytes f)" "?b = take (length ?b) (frame_bytes f)"
      using split by (metis append_Nil2 append_eq_append_conv_if length_append less_add_same_cancel1 length_greater_0_conv,
        metis append_eq_conv_conj split)
    then have "frame_at (fcl_limits c) ?b = FrameIncomplete" using frame_at_cut [OF Cons.prems(1), of "length ?b"] by simp
    then have fed: "feed data (fcl_codec c) = (Ok, [], (fcl_codec c)\<lparr>fc_buffer := ?b\<rparr>)"
      using feed_by_drains [of "fcl_codec c" data "[]" ?b] Cons.prems(3,4) by (simp add: frames.wait)
    let ?c = "c\<lparr>fcl_codec := (fcl_codec c)\<lparr>fc_buffer := ?b\<rparr>\<rparr>"
    have "client_receive pieces ?c = Some (parse_message (bytes_text (fr_payload f)) (fcl_limits ?c), [],
        ?c\<lparr>fcl_codec := (fcl_codec ?c)\<lparr>fc_buffer := []\<rparr>\<rparr>)"
      using Cons.prems False split by (intro Cons.IH) auto
    then show ?thesis using ne fed by simp
  qed
qed simp

text \<open>A piece that holds two frames loses the second.\<close>

lemma second_frame_lost:
  assumes "frame_fits (fcl_limits c) f" "frame_fits (fcl_limits c) g" "fc_limits (fcl_codec c) = fcl_limits c"
    "\<not> fc_failed (fcl_codec c)" "fc_buffer (fcl_codec c) = []"
  shows "client_receive [frame_bytes f @ frame_bytes g] c =
    Some (parse_message (bytes_text (fr_payload f)) (fcl_limits c), [], c)"
proof -
  have "frames.drains (fcl_limits c) (frame_bytes f @ frame_bytes g) [f, g] [] None"
    using drains_frames [of "fcl_limits c" "[f, g]" "[]"] assms by (simp add: new_codec_waits)
  then have fed: "feed (frame_bytes f @ frame_bytes g) (fcl_codec c) = (Ok, [f, g], (fcl_codec c)\<lparr>fc_buffer := []\<rparr>)"
    using feed_by_drains assms by simp
  have "frame_bytes f \<noteq> []" using length_frame_bytes [of f] by (auto simp: kFrameHeaderBytes_def)
  moreover have "c\<lparr>fcl_codec := (fcl_codec c)\<lparr>fc_buffer := []\<rparr>\<rparr> = c" using assms(5) by simp
  ultimately show ?thesis using fed by simp
qed

section \<open>The way of a request\<close>

definition message_frame :: "u64 \<Rightarrow> ProtocolMessage \<Rightarrow> Frame" where
  "message_frame sequence m = \<lparr>fr_sequence = sequence, fr_payload = text_bytes (serialize m)\<rparr>"

lemma message_frame_bytes: "frame_bytes (message_frame sequence m) = encode_frame sequence (text_bytes (serialize m))"
  by (simp add: frame_bytes_def message_frame_def)

lemma serve_message:
  assumes "message_sound lim m"
  shows "serve_frame lim cx True (message_frame sequence m) F =
    (if pm_operation m = ''shutdown'' then ConnectionFinished else FrameServed,
     frame_bytes (message_frame sequence (fst (dispatch_request cx m F))), snd (dispatch_request cx m F))"
  using parse_serialize [OF assms]
  by (simp add: serve_frame_def message_frame_def frame_bytes_def case_prod_beta Let_def)

lemma await_frame:
  assumes "frame_fits (fcl_limits c) (message_frame sequence r)" "[] \<notin> set pieces" "pieces \<noteq> []"
    "fcl_codec c = new_codec (fcl_limits c)" "concat pieces = frame_bytes (message_frame sequence r)"
    "parse_message (serialize r) (fcl_limits c) = Inr r"
  shows "client_await (Suc n) (pm_request_id r) pieces c = Some (Inr r, [], c)"
proof -
  have "client_receive pieces c = Some (Inr r, [], c\<lparr>fcl_codec := (fcl_codec c)\<lparr>fc_buffer := []\<rparr>\<rparr>)"
    using receive_frame [OF assms(1,2)] assms(3,4,5,6) by (simp add: new_codec_def message_frame_def)
  moreover have "c\<lparr>fcl_codec := (fcl_codec c)\<lparr>fc_buffer := []\<rparr>\<rparr> = c" using assms(4) by (simp add: new_codec_def)
  ultimately show ?thesis by simp
qed

lemma exchange:
  assumes "outgoing_request request c = (outgoing, c1)" "message_sound lim outgoing"
    and "frame_fits lim (message_frame (fcl_next_sequence c) outgoing)"
    and "fcl_codec c = new_codec (fcl_limits c)"
    and "response = fst (dispatch_request cx outgoing F)"
    and "frame_fits (fcl_limits c) (message_frame (fcl_next_sequence c) response)"
    and "length (pm_fields response) < kMaxFields" "length (pm_fields response) < max_journal_records (fcl_limits c)"
    and "concat pieces = fst (snd (client_send Ok Ok outgoing c1))"
    and "concat answers = fst (snd (serve_frame lim cx True (message_frame (fcl_next_sequence c) outgoing) F))"
    and "[] \<notin> set answers"
  shows "feed_all pieces (new_codec lim) = ([message_frame (fcl_next_sequence c) outgoing], new_codec lim) \<and>
    client_call Ok Ok answers request c =
      Some (Inr response, [], c1\<lparr>fcl_connected := True, fcl_next_sequence := fcl_next_sequence c + 1\<rparr>) \<and>
    pm_operation response = pm_operation outgoing \<and> pm_request_id response = pm_request_id outgoing"
proof -
  have c1: "fcl_next_sequence c1 = fcl_next_sequence c" "fcl_limits c1 = fcl_limits c" "fcl_codec c1 = fcl_codec c"
    using assms(1) by (auto simp: outgoing_request_def Let_def split: if_splits)
  let ?seq = "fcl_next_sequence c"
  let ?c = "c1\<lparr>fcl_connected := True, fcl_next_sequence := ?seq + 1\<rparr>"
  have sent: "client_send Ok Ok outgoing c1 = (Ok, frame_bytes (message_frame ?seq outgoing), ?c)"
    by (simp add: client_send_def client_connect_def message_frame_bytes c1)
  have arrived: "feed_all pieces (new_codec lim) = ([message_frame ?seq outgoing], new_codec lim)"
    using feed_all_stream [of lim "[message_frame ?seq outgoing]" "[]" pieces] assms(3,9)
    by (simp add: sent new_codec_waits) (simp add: new_codec_def)
  have reply: "replies outgoing response" using dispatch_replies assms(5) by simp
  have plain: "plain_key (pm_operation outgoing)" using assms(2) by (simp add: message_sound_def)
  have wire: "concat answers = frame_bytes (message_frame ?seq response)"
    using assms(5,10) by (simp add: serve_message [OF assms(2)])
  moreover have "frame_bytes (message_frame ?seq response) \<noteq> []"
    using length_frame_bytes [of "message_frame ?seq response"] by (auto simp: kFrameHeaderBytes_def)
  ultimately have "answers \<noteq> []" by auto
  then have "client_await (Suc kMaxSkippedFrames) (pm_request_id response) answers ?c = Some (Inr response, [], ?c)"
    using assms(4,6,11) wire replies_parse [OF reply plain assms(7,8)] by (intro await_frame) (simp_all add: c1)
  moreover have "pm_request_id response = pm_request_id outgoing" "pm_operation response = pm_operation outgoing"
    using reply by (simp_all add: replies_def)
  moreover have "client_call Ok Ok answers request c =
      client_await (Suc kMaxSkippedFrames) (pm_request_id outgoing) answers ?c"
    using assms(1) sent by (simp add: client_call_def)
  ultimately show ?thesis using arrived by simp
qed

end
