(* ===== verification/Sockets.thy ===== *)
theory Sockets
  imports Client
begin

text \<open>
  The socket wrapper (\<open>socket.cpp\<close>, the branch for systems other than Windows) between the client and the node.

  What each system call answers is an argument: per address candidate the handle and whether it could be bound
  or connected, per call of \<open>send\<close> the number of bytes taken, and the length that \<open>recv\<close> reports. The wrapper decides what
  becomes of these answers: which handles are closed again, when a transfer is complete, what its status is.
\<close>

section \<open>Opening sockets\<close>

definition kInvalidSocket :: int where "kInvalidSocket = -1"

definition socket_valid :: "int \<Rightarrow> bool" where "socket_valid socket \<longleftrightarrow> socket \<noteq> kInvalidSocket"

text \<open>A candidate of \<open>getaddrinfo\<close>: what \<open>socket\<close> answers for it, and whether \<open>bind\<close> and \<open>listen\<close>, or \<open>connect\<close>, succeed.\<close>

record Candidate =
  ca_handle :: int
  ca_ready :: bool

text \<open>The loop over the candidates: the handle that is kept and the handles that are closed on the way.\<close>

fun first_ready :: "Candidate list \<Rightarrow> int \<times> int list" where
  "first_ready [] = (kInvalidSocket, [])"
| "first_ready (candidate # candidates) =
     (if ca_handle candidate < 0 then first_ready candidates
      else if ca_ready candidate then (ca_handle candidate, [])
      else let (handle, shut) = first_ready candidates in (handle, ca_handle candidate # shut))"

text \<open>No candidates at all when the address does not resolve; \<open>bound\<close> is the port that \<open>getsockname\<close> reads back. The
  second result lists the handles that the call closes.\<close>

definition socket_listen :: "Candidate list option \<Rightarrow> u16 option \<Rightarrow> (int \<times> u16) result \<times> int list" where
  "socket_listen resolved bound =
     (case resolved of
        None \<Rightarrow> (Inl InvalidArgument, [])
      | Some candidates \<Rightarrow>
          let (listener, shut) = first_ready candidates in
          if listener = kInvalidSocket then (Inl Internal, shut)
          else case bound of
            None \<Rightarrow> (Inl Internal, shut @ [listener])
          | Some port \<Rightarrow> (Inr (listener, port), shut))"

definition socket_connect :: "Candidate list option \<Rightarrow> int result \<times> int list" where
  "socket_connect resolved =
     (case resolved of
        None \<Rightarrow> (Inl InvalidArgument, [])
      | Some candidates \<Rightarrow>
          let (connected, shut) = first_ready candidates in
          (if connected = kInvalidSocket then Inl StoreIo else Inr connected, shut))"

definition socket_accept :: "int \<Rightarrow> int result" where
  "socket_accept handle = (if handle < 0 then Inl Closed else Inr handle)"

section \<open>Moving bytes\<close>

text \<open>\<open>send offset\<close> is what the system call answers for the data from \<open>offset\<close> on; the result is the status and the number
  of bytes that were taken.\<close>

function send_loop :: "(nat \<Rightarrow> int) \<Rightarrow> bytes \<Rightarrow> nat \<Rightarrow> Status \<times> nat" where
  "send_loop send data offset =
     (if offset < length data
      then let chunk = send offset in
        if chunk < 0 then (StoreIo, offset)
        else if chunk = 0 then (StoreIo, offset)
        else send_loop send data (offset + nat chunk)
      else (Ok, offset))"
  by pat_completeness auto

termination
  by (relation "measure (\<lambda>(send, data, offset). length data - offset)") auto

declare send_loop.simps [simp del]

definition socket_send_all :: "(nat \<Rightarrow> int) \<Rightarrow> bytes \<Rightarrow> Status \<times> nat" where
  "socket_send_all send data = send_loop send data 0"

definition socket_receive :: "nat \<Rightarrow> int \<Rightarrow> Status \<times> nat" where
  "socket_receive capacity chunk =
     (if capacity = 0 then (Ok, 0)
      else if chunk < 0 then (Closed, 0)
      else (Ok, nat chunk))"

section \<open>No handle is lost\<close>

text \<open>Every handle that was opened is closed again or returned, and only the last one is returned.\<close>

lemma first_ready_accounts:
  assumes "first_ready candidates = (handle, shut)"
  shows "\<exists>tried rest. candidates = tried @ rest \<and> (\<not> socket_valid handle \<longrightarrow> rest = []) \<and>
    filter (\<lambda>h. 0 \<le> h) (map ca_handle tried) = shut @ (if socket_valid handle then [handle] else [])"
  using assms
proof (induction candidates arbitrary: handle shut)
  case Nil
  then show ?case by (auto simp: socket_valid_def)
next
  case (Cons c cs)
  obtain h ss where rest: "first_ready cs = (h, ss)" by force
  then obtain tried rest where IH: "cs = tried @ rest" "\<not> socket_valid h \<longrightarrow> rest = []"
      "filter (\<lambda>h. 0 \<le> h) (map ca_handle tried) = ss @ (if socket_valid h then [h] else [])"
    using Cons.IH by blast
  show ?case
  proof (cases "0 \<le> ca_handle c \<and> ca_ready c")
    case True
    then show ?thesis
      using Cons.prems by (intro exI [of _ "[c]"] exI [of _ cs]) (auto simp: socket_valid_def kInvalidSocket_def)
  next
    case False
    then show ?thesis
      using Cons.prems rest IH by (intro exI [of _ "c # tried"] exI [of _ rest]) (auto split: if_splits)
  qed
qed

section \<open>A transfer is complete or refused\<close>

text \<open>The documented behaviour of \<open>send\<close>: it never takes more bytes than it is offered.\<close>

definition honest_send :: "(nat \<Rightarrow> int) \<Rightarrow> bytes \<Rightarrow> bool" where
  "honest_send send data \<longleftrightarrow> (\<forall>offset < length data. send offset \<le> int (length data - offset))"

lemma send_loop_complete:
  assumes "honest_send send data" "offset \<le> length data" "send_loop send data offset = (status, taken)"
  shows "offset \<le> taken \<and> taken \<le> length data \<and> (status = Ok \<longleftrightarrow> taken = length data)"
  using assms
proof (induction send data offset rule: send_loop.induct)
  case (1 send data offset)
  show ?case
  proof (cases "offset < length data \<and> 0 < send offset")
    case True
    then have "send offset \<le> int (length data - offset)" using 1(2) by (simp add: honest_send_def)
    then have "offset + nat (send offset) \<le> length data" using True by linarith
    then show ?thesis using 1 True by (subst (asm) (2) send_loop.simps) auto
  next
    case False
    then show ?thesis using 1 by (subst (asm) (2) send_loop.simps) (auto simp: Let_def split: if_splits)
  qed
qed

lemma send_all_complete:
  assumes "honest_send send data" "socket_send_all send data = (status, taken)"
  shows "taken \<le> length data" "status = Ok \<longleftrightarrow> take taken data = data"
  using send_loop_complete [of send data 0] assms by (auto simp: socket_send_all_def)

text \<open>A request that was sent without an error has left the client completely: the bytes that the network may cut
  are those of the frame.\<close>

lemma sent_request_left:
  assumes "client_send connecting (fst (socket_send_all send frame)) request c = (Ok, frame, c')"
    "honest_send send frame"
  shows "take (snd (socket_send_all send frame)) frame = frame"
proof -
  obtain status taken where sent: "socket_send_all send frame = (status, taken)" by force
  then have "status = Ok" using assms(1) by (auto simp: client_send_def Let_def split: prod.splits if_splits)
  then show ?thesis using send_all_complete [OF assms(2) sent] by (simp add: sent)
qed

end
