(* ===== verification/IdText.thy ===== *)
theory IdText
  imports Server
begin

text \<open>
  The text of identities in requests (\<open>require_id\<close> of \<open>server.cpp\<close>): which of the accepted forms mean what they say.
  Hexadecimal digits and resource references are read as they were printed; decimal digits are tried last,
  after every text of at most sixteen digits was already taken for hexadecimal.
\<close>

definition hex_value :: "string \<Rightarrow> nat" where
  "hex_value = foldl (\<lambda>v c. v * 16 + (of_char c - 48)) 0"

lemma shift_add_nibble:
  assumes "d < 16" shows "push_bit 4 (of_nat v :: u64) OR of_nat d = of_nat (v * 16 + d)"
proof -
  have low: "i < 4" if set: "bit d i" for i
  proof (rule ccontr)
    assume "\<not> i < 4"
    then have "(2 :: nat) ^ 4 \<le> 2 ^ i" by (intro power_increasing) simp_all
    then have "d < 2 ^ i" using assms by simp
    then show False using set by (simp add: bit_iff_odd)
  qed
  have "push_bit 4 (of_nat v :: u64) OR of_nat d = push_bit 4 (of_nat v) + of_nat d"
    by (intro disjunctive_add [symmetric]) (auto simp: bit_simps dest: low)
  also have "\<dots> = of_nat (v * 16 + d)" by (simp add: push_bit_eq_mult)
  finally show ?thesis .
qed

lemma parse_digits_as_hex:
  assumes "\<forall>c \<in> set s. is_digit c"
  shows "parse_nibbles upper (of_nat v) s = Some (of_nat (foldl (\<lambda>v c. v * 16 + (of_char c - 48)) v s))"
  using assms
proof (induction s arbitrary: v)
  case (Cons c s)
  then have "hex_nibble upper c = Some (of_nat (of_char c - 48))" "of_char c - 48 < (16 :: nat)"
    by (auto simp: is_digit_def hex_nibble_def Let_def)
  then show ?case using Cons shift_add_nibble [of "of_char c - 48" v] by (simp del: of_nat_add of_nat_mult)
qed simp

lemma hex_value_bound: "\<forall>c \<in> set s. is_digit c \<Longrightarrow> hex_value s < 16 ^ length s"
proof (induction s rule: rev_induct)
  case (snoc c s)
  then have "hex_value s < 16 ^ length s" "of_char c - 48 < (16 :: nat)" by (auto simp: is_digit_def)
  then show ?case by (simp add: hex_value_def)
qed (simp add: hex_value_def)

text \<open>Read as hexadecimal, the decimal digits of a number give a larger number from ten on.\<close>

lemma hex_value_digits: "n \<le> hex_value (dec_digits n) \<and> (hex_value (dec_digits n) = n \<longleftrightarrow> n < 10)"
proof (induction n rule: dec_digits.induct)
  case (1 n)
  show ?case
  proof (cases "n < 10")
    case True
    then show ?thesis by (simp add: dec_digits.simps [of n] hex_value_def of_char_of_small)
  next
    case False
    have "hex_value (dec_digits n) = hex_value (dec_digits (n div 10)) * 16 + n mod 10"
      using False mod_less_divisor [of 10 n] by (simp add: dec_digits.simps [of n] hex_value_def of_char_of_small)
    moreover have "n div 10 \<le> hex_value (dec_digits (n div 10))" using 1 [OF False] by simp
    moreover have "n = n div 10 * 10 + n mod 10" by simp
    moreover have "0 < n div 10" using False by simp
    ultimately have "n < hex_value (dec_digits n)" by linarith
    then show ?thesis using False by simp
  qed
qed

lemma digits_no_prefix:
  assumes "\<forall>c \<in> set s. is_digit c"
  shows "parse_hex_u64 s = (if s = [] \<or> length s > 16 then None else Some (of_nat (hex_value s)))"
proof -
  have "(case s of c0 # c1 # rest \<Rightarrow> if c0 = CHR ''0'' \<and> (c1 = CHR ''x'' \<or> c1 = CHR ''X'') then rest else s | _ \<Rightarrow> s) = s"
    using assms by (auto simp: is_digit_def split: list.split)
  then show ?thesis
    using parse_digits_as_hex [OF assms, of True 0] by (simp add: parse_hex_u64_def hex_value_def)
qed

lemma dec_digits_long: "10 ^ k \<le> n \<Longrightarrow> k < length (dec_digits n)"
proof (induction k arbitrary: n)
  case (Suc k)
  have big: "\<not> n < 10" using Suc.prems order_trans [of 10 "10 ^ Suc k" n] by auto
  have "10 ^ k \<le> n div 10" using Suc.prems by (simp add: less_eq_div_iff_mult_less_eq mult.commute)
  then have "k < length (dec_digits (n div 10))" by (rule Suc.IH)
  then show ?case using big by (simp add: dec_digits.simps [of n])
qed simp

lemma digits_are_digits: "\<forall>c \<in> set (dec_digits n). is_digit c"
  by (simp add: is_digit_def dec_digits_chars)

lemma parse_id_decimal: "parse_id (to_decimal w) = Some w \<longleftrightarrow> unat w < 10 \<or> 10 ^ 16 \<le> unat w"
proof (cases "10 ^ 16 \<le> unat w")
  case True
  then have "16 < length (to_decimal w)" by (simp add: to_decimal_def dec_digits_long)
  moreover have "length (dec_digits (unat w)) \<le> 20" using u64_bound [of w] by (intro length_dec_digits) simp_all
  moreover have "CHR '':'' \<notin> set (dec_digits (unat w))" using dec_digits_chars by fastforce
  ultimately have "parse_id (to_decimal w) = Some w"
    using parse_u64_to_decimal [of w] digits_no_prefix [OF digits_are_digits, of "unat w"]
    by (simp add: parse_id_def ref_parse_def to_decimal_def)
  then show ?thesis using True by simp
next
  case False
  let ?s = "dec_digits (unat w)" and ?h = "hex_value (dec_digits (unat w))"
  have len: "length ?s \<le> 16" using False by (intro length_dec_digits) simp_all
  have "?h < 16 ^ length ?s" using digits_are_digits by (rule hex_value_bound)
  also have "(16 :: nat) ^ length ?s \<le> 16 ^ 16" using len by (rule power_increasing) simp
  finally have "unat (of_nat ?h :: u64) = ?h" by (simp add: unat_of_nat take_bit_nat_eq_self)
  moreover have "parse_id (to_decimal w) = Some (of_nat ?h)"
    using len digits_no_prefix [OF digits_are_digits, of "unat w"] by (simp add: parse_id_def to_decimal_def)
  ultimately have "parse_id (to_decimal w) = Some w \<longleftrightarrow> ?h = unat w" by (auto simp: word_unat_eq_iff)
  then show ?thesis using hex_value_digits [of "unat w"] False by simp
qed

lemma parse_id_hex: "parse_id (hex_encode i) = Some i"
  by (simp add: parse_id_def parse_hex_u64_hex_encode)

text \<open>A reference longer than any identity is no hexadecimal text; its kind is not looked at.\<close>

lemma parse_id_ref:
  assumes "k \<noteq> KUnknown" shows "parse_id (ref_to_string (ResourceRef k i)) = Some i"
proof -
  have "parse_hex_u64 (ref_to_string (ResourceRef k i)) = None"
    by (cases k) (simp_all add: ref_to_string_def parse_hex_u64_def Let_def)
  then show ?thesis using assms by (simp add: parse_id_def ref_parse_to_string)
qed

end
