(* ===== verification/NodeTrials.thy ===== *)
theory NodeTrials
  imports StoreTrials Sockets IdText
begin

text \<open>A node with one client, and messages on which the properties of the control protocol are applied.\<close>

definition sample_cx :: Circumstances where
  "sample_cx = \<lparr>cx_io = sample_io, cx_io_link = sample_io, cx_planner = None, cx_before = sample_start,
     cx_between = sample_start, cx_recovery_status = RsMemoryOnly, cx_detail = [], cx_check_detail = \<lambda>_. []\<rparr>"

definition tick_request :: ProtocolMessage where
  "tick_request = \<lparr>pm_operation = ''advance_tick'', pm_request_id = ''r1'', pm_fields = [(''delta'', ''5'')]\<rparr>"

definition shutdown_request :: ProtocolMessage where
  "shutdown_request = \<lparr>pm_operation = ''shutdown'', pm_request_id = ''r2'', pm_fields = []\<rparr>"

definition topology_request :: ProtocolMessage where
  "topology_request = \<lparr>pm_operation = ''topology'', pm_request_id = ''r3'', pm_fields = []\<rparr>"

definition sample_client :: ClientState where
  "sample_client = new_client default_limits ''req-'' []"

lemma sample_messages_sound: "message_sound default_limits tick_request" "message_sound default_limits shutdown_request"
  by (simp_all add: message_sound_def tick_request_def shutdown_request_def plain_key_def kMaxFields_def default_limits_def)

lemma sample_messages_fit:
  "frame_fits default_limits (message_frame s tick_request)" "frame_fits default_limits (message_frame s shutdown_request)"
  by (simp_all add: frame_fits_def message_frame_def serialize_def tick_request_def shutdown_request_def text_bytes_def
      default_limits_def)

lemma shutdown_answer:
  "fst (dispatch_request sample_cx shutdown_request F) =
     \<lparr>pm_operation = ''shutdown'', pm_request_id = ''r2'',
      pm_fields = [(''status'', ''ok''), (''detail'', ''shutdown accepted'')]\<rparr>"
  by (simp add: dispatch_request_def dispatch_shutdown_def answer_message shutdown_request_def)

lemma shutdown_answer_fits: "frame_fits default_limits (message_frame s (fst (dispatch_request sample_cx shutdown_request F)))"
  by (simp add: frame_fits_def message_frame_def serialize_def shutdown_answer text_bytes_def default_limits_def)

lemma sample_client_state:
  "fcl_codec sample_client = new_codec default_limits" "fcl_limits sample_client = default_limits"
  "fcl_next_sequence sample_client = 1" "outgoing_request shutdown_request sample_client = (shutdown_request, sample_client)"
  by (simp_all add: sample_client_def new_client_def outgoing_request_def shutdown_request_def)

lemma shutdown_call:
  "fst (snd (client_send Ok Ok shutdown_request sample_client)) = frame_bytes (message_frame 1 shutdown_request)"
  "fst (snd (serve_frame default_limits sample_cx True (message_frame 1 shutdown_request) F)) =
     frame_bytes (message_frame 1 (fst (dispatch_request sample_cx shutdown_request F)))"
  "frame_bytes f \<noteq> []" "pm_request_id shutdown_request \<noteq> []"
  "length (pm_fields (fst (dispatch_request sample_cx shutdown_request F))) < kMaxFields"
  "length (pm_fields (fst (dispatch_request sample_cx shutdown_request F))) < max_journal_records default_limits"
proof -
  show "fst (snd (client_send Ok Ok shutdown_request sample_client)) = frame_bytes (message_frame 1 shutdown_request)"
    by (simp add: client_send_def client_connect_def message_frame_bytes sample_client_def new_client_def)
  show "frame_bytes f \<noteq> []" using length_frame_bytes [of f] by (auto simp: kFrameHeaderBytes_def)
  show "fst (snd (serve_frame default_limits sample_cx True (message_frame 1 shutdown_request) F)) =
     frame_bytes (message_frame 1 (fst (dispatch_request sample_cx shutdown_request F)))"
    using serve_message [OF sample_messages_sound(2)] by simp
  show "pm_request_id shutdown_request \<noteq> []" by (simp add: shutdown_request_def)
qed (simp_all add: shutdown_answer kMaxFields_def default_limits_def)

section \<open>A process on an earlier store\<close>

lemma sample_restart_opened: "\<exists>F. sample_restart = Inr F \<and> reach opened_start trace_step [F]"
proof -
  obtain F where F: "sample_restart = Inr F" "\<not> closed F" using sample_restarted by blast
  then have "process_start [F]" unfolding process_start_def sample_restart_def by blast
  with F have "opened_start [F]" by (simp add: opened_start_def)
  with F show ?thesis by (blast intro: reach_start)
qed

section \<open>An active path\<close>

definition active_fabric :: Fabric where
  "active_fabric = sample_pending\<lparr>objects :=
     [(derive_named ''connectivity'' ''c'', active_record sample_pending sample_commit pending_object)]\<rparr>"

lemma active_fabric_object:
  "map_of (objects active_fabric) (derive_named ''connectivity'' ''c'') =
     Some (active_record sample_pending sample_commit pending_object)"
  "distinct (map fst (objects active_fabric))"
  "cr_state (active_record sample_pending sample_commit pending_object) = Active"
  "pd_segments (cr_path (active_record sample_pending sample_commit pending_object)) \<noteq> []"
  by (simp_all add: active_fabric_def active_record_def move_object_def push_transition_locked_def Let_def
      pending_fields sample_path_def)

section \<open>A node at work\<close>

definition idle_node :: NodeState where
  "idle_node = \<lparr>nd_trace = [sample_start], nd_limits = default_limits, nd_running = False, nd_stopping = False,
     nd_clients = [], nd_workers = [], nd_workers_joined = False\<rparr>"

definition running_node :: NodeState where "running_node = snd (node_start Ok idle_node)"
definition joined_node :: NodeState where "joined_node = node_accept 4 running_node"

definition sample_connection :: Connection where
  "sample_connection = (new_connection default_limits 4)\<lparr>cn_frames := [message_frame 1 tick_request], cn_phase := Serving\<rparr>"

definition busy_node :: NodeState where
  "busy_node = node_receive 0 (frame_bytes (message_frame 1 tick_request)) (new_connection default_limits 4) joined_node"

definition served_node :: NodeState where
  "served_node = node_serve 0 sample_cx True (message_frame 1 tick_request) [] sample_connection busy_node"

lemma running_node_eq: "running_node = idle_node\<lparr>nd_running := True\<rparr>"
  by (simp add: running_node_def node_start_def idle_node_def nd_fabric_def sample_start_state sample_state_def)

lemma joined_node_eq:
  "joined_node = idle_node\<lparr>nd_running := True, nd_clients := [4], nd_workers := [new_connection default_limits 4]\<rparr>"
  by (simp add: joined_node_def node_accept_def running_node_eq idle_node_def default_limits_def)

lemma busy_node_eq:
  "busy_node = idle_node\<lparr>nd_running := True, nd_clients := [4], nd_workers := [sample_connection]\<rparr>"
proof -
  let ?f = "message_frame 1 tick_request"
  have "frames.drains default_limits (frame_bytes ?f) [?f] [] None"
    using drains_frames [of default_limits "[?f]" "[]"] sample_messages_fit by (simp add: new_codec_waits)
  then have "feed (frame_bytes ?f) (new_codec default_limits) = (Ok, [?f], new_codec default_limits)"
    using feed_by_drains [of "new_codec default_limits" "frame_bytes ?f" "[?f]" "[]"] by (simp add: new_codec_def)
  moreover have "frame_bytes ?f \<noteq> []" using length_frame_bytes [of ?f] by (auto simp: kFrameHeaderBytes_def)
  ultimately show ?thesis
    by (simp add: busy_node_def node_receive_def receive_bytes_def new_connection_def joined_node_eq set_worker_def
        sample_connection_def)
qed

lemma sample_node_init: "node_init (idle_node\<lparr>nd_limits := lim\<rparr>)"
  by (simp add: node_init_def idle_node_def fresh_process sample_start_fresh)

lemma served_node_reachable: "reach node_init node_step served_node"
proof -
  have "reach node_init node_step idle_node"
    using reach_start [where start = node_init, OF sample_node_init [of default_limits]] by (simp add: idle_node_def)
  then have "reach node_init node_step running_node"
    unfolding running_node_def by (rule reach_step) (rule node_step.started)
  then have "reach node_init node_step joined_node"
    unfolding joined_node_def
    by (rule reach_step) (rule node_step.accepted; simp add: running_node_eq idle_node_def open_connections_def)
  then have "reach node_init node_step busy_node"
    unfolding busy_node_def
    by (rule reach_step) (rule node_step.received; simp add: joined_node_eq new_connection_def runs_def)
  then show ?thesis
    unfolding served_node_def
    by (rule reach_step)
      (rule node_step.served; simp add: busy_node_eq sample_connection_def idle_node_def sample_cx_def runs_def)
qed

lemma served_node_origin: "last (nd_trace served_node) = sample_start"
  using node_serve_effect [of 0 sample_cx True "message_frame 1 tick_request" "[]" sample_connection busy_node]
  by (auto simp: served_node_def busy_node_eq idle_node_def)

section \<open>A reused handle\<close>

text \<open>Two connections are allowed. The first is closed but not yet erased when the second is accepted under its handle;
  erasing the first then erases both entries, and two more connections are accepted.\<close>

definition pair_limits :: Limits where "pair_limits = default_limits\<lparr>max_connections := 2\<rparr>"

definition pair_node :: "nat list \<Rightarrow> Connection list \<Rightarrow> NodeState" where
  "pair_node clients workers = \<lparr>nd_trace = [sample_start], nd_limits = pair_limits, nd_running = True,
     nd_stopping = False, nd_clients = clients, nd_workers = workers, nd_workers_joined = False\<rparr>"

abbreviation fresh_worker :: "nat \<Rightarrow> Connection" where "fresh_worker \<equiv> new_connection pair_limits"

lemma pair_accepts:
  assumes "reach node_init node_step (pair_node hs cs)" "length hs < 2"
    "h \<notin> cn_handle ` set (open_connections (pair_node hs cs))"
  shows "reach node_init node_step (pair_node (hs @ [h]) (cs @ [fresh_worker h]))"
proof -
  have "node_step (pair_node hs cs) (node_accept h (pair_node hs cs))"
    using assms(3) by (intro node_step.accepted) (simp_all add: pair_node_def)
  moreover have "node_accept h (pair_node hs cs) = pair_node (hs @ [h]) (cs @ [fresh_worker h])"
    using assms(2) by (simp add: node_accept_def pair_node_def pair_limits_def)
  ultimately show ?thesis using assms(1) by (metis reach_step)
qed

lemma crowded_reachable:
  "reach node_init node_step
     (pair_node [5, 6] [(fresh_worker 4)\<lparr>cn_phase := Ended\<rparr>, fresh_worker 4, fresh_worker 5, fresh_worker 6])"
proof -
  let ?gone = "(fresh_worker 4)\<lparr>cn_phase := SocketClosed\<rparr>"
  let ?ended = "(fresh_worker 4)\<lparr>cn_phase := Ended\<rparr>"
  have "reach node_init node_step (idle_node\<lparr>nd_limits := pair_limits\<rparr>)" by (rule reach_start) (rule sample_node_init)
  moreover have "snd (node_start Ok (idle_node\<lparr>nd_limits := pair_limits\<rparr>)) = pair_node [] []"
    by (simp add: node_start_def idle_node_def pair_node_def nd_fabric_def sample_start_state sample_state_def)
  ultimately have "reach node_init node_step (pair_node [] [])" by (metis node_step.started reach_step)
  then have "reach node_init node_step (pair_node [4] [fresh_worker 4])"
    using pair_accepts [of "[]" "[]" 4] by (simp add: open_connections_def pair_node_def)
  moreover have "node_step (pair_node [4] [fresh_worker 4]) (node_receive 0 [] (fresh_worker 4) (pair_node [4] [fresh_worker 4]))"
    by (rule node_step.received) (simp_all add: runs_def pair_node_def new_connection_def)
  moreover have "node_receive 0 [] (fresh_worker 4) (pair_node [4] [fresh_worker 4]) = pair_node [4] [?gone]"
    by (simp add: node_receive_def receive_bytes_def close_worker_def set_worker_def pair_node_def)
  ultimately have "reach node_init node_step (pair_node [4] [?gone])" by (metis reach_step)
  then have "reach node_init node_step (pair_node [4, 4] [?gone, fresh_worker 4])"
    using pair_accepts [of "[4]" "[?gone]" 4] by (simp add: open_connections_def pair_node_def)
  moreover have "node_step (pair_node [4, 4] [?gone, fresh_worker 4])
      (node_erase 0 ?gone (pair_node [4, 4] [?gone, fresh_worker 4]))"
    by (rule node_step.erased) (simp_all add: runs_def pair_node_def)
  moreover have "node_erase 0 ?gone (pair_node [4, 4] [?gone, fresh_worker 4]) = pair_node [] [?ended, fresh_worker 4]"
    by (simp add: node_erase_def set_worker_def pair_node_def new_connection_def)
  ultimately have "reach node_init node_step (pair_node [] [?ended, fresh_worker 4])" by (metis reach_step)
  then have "reach node_init node_step (pair_node [5] [?ended, fresh_worker 4, fresh_worker 5])"
    using pair_accepts [of "[]" "[?ended, fresh_worker 4]" 5] by (simp add: open_connections_def pair_node_def new_connection_def)
  then show ?thesis
    using pair_accepts [of "[5]" "[?ended, fresh_worker 4, fresh_worker 5]" 6]
    by (simp add: open_connections_def pair_node_def new_connection_def)
qed

end
