(* ===== verification/Spec2Isabelle.thy ===== *)
theory Spec2Isabelle
  imports NodeTrials
begin

text \<open>
  Verification library for Optical Fabric, a runtime that keeps one authoritative record of which
  optical resources (sites, nodes, ports, spans, line systems, cross connects, channels) are
  committed to which connectivity object.

  \<^bold>\<open>The program.\<close> A client registers topology, producers report evidence about it, a controller
  acquires authority over a scope, submits an intent, and takes the connectivity object that the
  intent creates through validate, reserve, begin activation, commit activation, health reports and
  withdrawal. Every change is one bundle of items: it is encoded, appended to the store, decoded
  again and applied to the maps in memory. A restart replays the store and then fences every grant
  and settles everything that was in flight. All of it runs under one mutex, so an execution is a
  sequence of operations; \<open>submit_intent\<close> alone releases the mutex between resolving the route and
  admitting the intent, and the model runs other operations in between.

  \<^bold>\<open>The model.\<close> One theory per component, in the order in which the code builds on them.

  \<^item> \<open>Prelude\<close>: ordered maps (the \<open>std::map\<close> of the source), decimal text, bounded histories, reachable
    states. \<open>Errors\<close> (\<open>error.cpp\<close>, \<open>limits.cpp\<close>), \<open>Digest\<close> (\<open>digest.cpp\<close>, \<open>crc_stream.cpp\<close>), \<open>Identity\<close>,
    \<open>Generation\<close>, \<open>Lifecycle\<close>, \<open>Evidence\<close>, \<open>Path\<close>: the value types and their algebra, from the files of
    those names.
  \<^item> \<open>State\<close> (\<open>state.hpp\<close>, \<open>fabric_impl.hpp\<close>, the commit part of \<open>fabric_core.cpp\<close>): the record \<open>Fabric\<close>
    of the runtime, the items of a bundle, \<open>apply_item\<close>, \<open>commit\<close>, \<open>write_checkpoint\<close>. What decoding makes of
    an encoded record (\<open>state_codec.cpp\<close>) is given per record by the \<open>reload_\<close> functions: fields that are
    normalised, and values that are refused. The theories of the next item derive them from the text.
  \<^item> \<open>TextCodec\<close> (\<open>text_codec.cpp\<close>): escaping, decimal numbers, the writer, the strict reader. \<open>StateCodec\<close>
    (\<open>state_codec.cpp\<close>): the encoder and the decoder of each record; a message text that the records of the
    model leave out is an argument of its encoder. \<open>Bundle\<close>: the bundle of a commit as text, and applying and
    replaying it field by field. \<open>StoreFile\<close> (\<open>store.cpp\<close>): the bytes of the store file, the scan, opening,
    appending, rewriting. \<open>Inspection\<close> (\<open>inspection.cpp\<close>).
  \<^item> \<open>Authority\<close> (\<open>fabric_authority.cpp\<close>), \<open>Route\<close> (\<open>fabric_route.cpp\<close>), \<open>Topology\<close> and \<open>Ingest\<close> (\<open>fabric_core.cpp\<close>),
    \<open>Operations\<close>, \<open>Intent\<close>, \<open>Reservation\<close>, \<open>Activation\<close> (\<open>fabric_connectivity.cpp\<close>), \<open>Recovery\<close> (\<open>fabric_core.cpp\<close>),
    \<open>Query\<close> and \<open>Reports\<close> (\<open>fabric_query.cpp\<close>): the operations. A handler of the source is a chain of checks that answers,
    refuses or commits; \<open>decide_\<close>\<^emph>\<open>operation\<close> is the chain and \<open>run_handler\<close> carries its decision out.
  \<^item> \<open>Protocol\<close> (\<open>protocol.cpp\<close>): messages and frames. \<open>Server\<close> (\<open>server.cpp\<close>): \<open>dispatch_request\<close>, one definition per
    request. \<open>Node\<close> (\<open>server.cpp\<close>): \<open>serve_connection\<close> and \<open>FabricNode\<close> as a step relation in which the threads of the
    connections interleave; closing a socket and erasing its handle are separate steps, and a handle may be reused
    in between. \<open>Client\<close> (\<open>client.cpp\<close>). \<open>Sockets\<close> (\<open>socket.cpp\<close>): opening, complete sends, receives.

  Words of 64 bits are \<open>u64\<close> and wrap as in the source. Free text of messages is left out: no branch
  reads it. What the operating system and foreign code decide is an argument: the outcome of each
  store access (\<open>StoreIo\<close>; in \<open>StoreFile\<close>, of each system call: \<open>StoreEnv\<close>), the records found at start, entropy,
  the route a planner proposes, what an evidence producer answers.

  \<^bold>\<open>The proofs.\<close> \<open>CommitLaws\<close> states as a locale what a state predicate needs so that a commit keeps it;
  \<open>Claims\<close>, \<open>Decisions\<close>, \<open>Safety\<close>, \<open>Checks\<close> and \<open>Steps\<close> establish the claim invariant for every operation.
  \<open>Machine\<close> is the transition system of all operations, \<open>Invariants\<close> the locales that reduce an invariant of
  every reachable state to one condition per item; they are interpreted for pending digests, confirmed
  authority and lawful histories there, for evidence, attempt logs and grants in \<open>Ledgers\<close>, for
  paths and reservations in \<open>Holdings\<close>. \<open>Outcomes\<close> characterises what the handlers return, \<open>Restart\<close> what a
  restart leaves, \<open>Lives\<close> what holds through the life of a process on whatever store it came up open on (the
  locale \<open>life_invariant\<close>, interpreted for bounds and for confirmations), \<open>Shortest\<close> the route search. \<open>Readers\<close> is a calculus for decoders: what a chain of reads
  returns and which fields it asks for. \<open>Reload\<close> and \<open>ReloadConnectivity\<close> apply it to every record, \<open>Payloads\<close> to the
  bundle: the text of a commit decodes exactly when \<open>bundle_decodable\<close> holds, and applying it is \<open>apply_decoded\<close>.
  \<open>StoreLaws\<close> shows what the scan finds in intact, torn and damaged files. \<open>Durable\<close> states as a locale what a
  client expects of a durable log, interprets it for the store file, and shows that the file refines the
  journal of \<open>State\<close>. \<open>Protocol\<close> states as a locale what a receiver of frames relies on and derives that the pieces of
  a stream do not matter; \<open>Serving\<close> shows that every response can be read back and that serving a request is at
  most one operation of the machine, \<open>Node\<close> that a node refines the machine, \<open>IdText\<close> what the texts of identities
  mean, \<open>Client\<close> the whole way of a request, \<open>Sockets\<close> that a send is complete or refused and no handle
  is lost. \<open>Scenario\<close>, \<open>Trials\<close>, \<open>StoreTrials\<close> and \<open>NodeTrials\<close> run the model on concrete inputs.

  This theory states the properties. C1 to C8 hold in every state that a sequence of operations reaches from a
  start, which is a start on an empty store in C1 to C4, C6 and C8, and on any store in C5 and C7; they cover
  checks 1 to 8 and 12 of \<open>verify_invariants\<close>, and C5 says what is left of check 7 on a store of an earlier
  process. C9 to C12 describe operations,
  C13 the restart, C14 to C16 what admission means, C17 to C21 routes and paths, C22 evidence, C26 the
  checksum, C30 to C32 commits as text, C33 to C39 the store file, C23 to C25 and C27 to C29 the control
  protocol, its node and its client, C40 the queries. The theorems without a number round off the value types.

  \<^bold>\<open>Bounds.\<close> No definition uses fuel. The route search terminates because each level consumes at
  least one of \<open>max_path_segments * 64\<close> expansions, as in the source; the loops over lines and frames
  because each consumes text or bytes; the others are structural. File positions are natural numbers.

  \<^bold>\<open>Not modelled.\<close> The system calls behind files and sockets (what they answer is an argument), the
  command line tools and examples (argument parsing, and scripts of calls that print what they return), and in
  the queries the texts of diagnostics with their digest and the recovery summary of a snapshot. Refusal texts
  are arguments of the dispatcher.
\<close>

section \<open>Safety of the runtime\<close>

text \<open>C1. In every state the runtime can reach from a start on an empty store, by any sequence of its
  operations, no resource is committed to two incompatible authoritative paths: the first
  check of \<open>verify_invariants\<close> holds.\<close>

theorem no_resource_committed_twice:
  assumes "reach fresh_start trace_step hs"
  shows "no_incompatible_claims (hd hs)"
  using reachable_claims [OF assms] by (rule claims_inv_compatible)

theorem no_resource_committed_twice_witness:
  "reach fresh_start trace_step sample_trace \<and> no_incompatible_claims (hd sample_trace)"
  using sample_trace_reachable no_resource_committed_twice [OF sample_trace_reachable] by simp

text \<open>C2. In every state that operations reach from a start on an empty store the claim index and the reservation index agree with the
  objects and the reservations they are built from, and a retired or refused object holds no
  claim: checks 2, 3 and 4 of \<open>verify_invariants\<close>.\<close>

theorem indices_agree_with_records:
  assumes "reach fresh_start trace_step hs"
  shows "commit_index_matches_objects (hd hs) \<and> retired_objects_hold_no_claims (hd hs) \<and>
    reservation_index_matches_records (hd hs)"
  using reachable_claims [OF assms]
  by (simp add: claims_inv_index_matches claims_inv_retired claims_inv_reservations)

theorem indices_agree_with_records_witness:
  "reach fresh_start trace_step sample_trace \<and> commit_index_matches_objects (hd sample_trace) \<and>
   retired_objects_hold_no_claims (hd sample_trace) \<and> reservation_index_matches_records (hd sample_trace)"
  using sample_trace_reachable indices_agree_with_records [OF sample_trace_reachable] by simp

text \<open>C3. Authority is exclusive. In every state that operations reach from a start on an empty store two tokens that the runtime accepts as
  current and that both cover some scope are tokens of one grant, with one holder and one epoch,
  and the sixth check of \<open>verify_invariants\<close> holds.\<close>

theorem authority_is_exclusive:
  assumes "reach fresh_start trace_step hs"
  shows "at_most_one_current_grant_per_scope (hd hs) \<and>
    (check_authority_locked (hd hs) t = Current \<longrightarrow> check_authority_locked (hd hs) u = Current \<longrightarrow>
     covers (tok_scope t) s \<longrightarrow> covers (tok_scope u) s \<longrightarrow>
     tok_grant t = tok_grant u \<and> tok_holder t = tok_holder u \<and> tok_epoch t = tok_epoch u)"
proof -
  have inv: "grants_inv (hd hs)" using exclusive_grants.reachable [OF assms] by simp
  show ?thesis using grants_inv_unique [OF inv] current_tokens_agree [OF inv] by blast
qed

theorem authority_is_exclusive_witness:
  "at_most_one_current_grant_per_scope (hd sample_trace)"
  using authority_is_exclusive [OF sample_trace_reachable] by simp

text \<open>C4. In every state that operations reach from a start on an empty store each committed or withdrawing object names registered resources
  only, and the reservation it says it holds exists: the fifth check.\<close>

theorem committed_paths_well_formed:
  assumes "reach fresh_start trace_step hs"
  shows "committed_paths_are_well_formed (hd hs)"
proof -
  have "claims_inv (hd hs)" "holdings_inv (hd hs)"
    using reachable_claims [OF assms] holdings.reachable [OF assms] by simp_all
  then show ?thesis by (rule claims_holdings_committed)
qed

theorem committed_paths_well_formed_witness:
  "committed_paths_are_well_formed (hd sample_trace)"
  using committed_paths_well_formed [OF sample_trace_reachable] by simp

text \<open>C5. Confirmations belong to the running incarnation. In every state of a process that came up open, on an empty
  store or on whatever earlier lives left in it, a committed path whose authority is confirmed was confirmed by
  a token of the running incarnation. In a process that started on an empty store this holds of every object
  (the seventh check), and only an activating object carries the digest of a pending activation (one half
  of the tenth). After a restart the seventh check can fail, for an object that failed in an earlier life: such
  an object is not committed, and recovery leaves its confirmation as it was.\<close>

theorem confirmations_are_current:
  assumes "reach opened_start trace_step hs"
  shows "(\<forall>(i, r) \<in> set (objects (hd hs)). is_committed_state (cr_state r) \<longrightarrow> cr_authority_confirmed r \<longrightarrow>
      boot_sequence (tok_incarnation (cr_authority r)) = boot_sequence (incarnation (hd hs))) \<and>
    (fresh_start [last hs] \<longrightarrow> authority_confirmation_is_incarnation_bound (hd hs) \<and>
      (\<forall>(i, r) \<in> set (objects (hd hs)). cr_activation_digest r \<noteq> nil_digest \<longrightarrow> cr_state r = Activating))"
proof -
  have "every_object committed_by_boot (hd hs)" using reconfirmed.lived [OF assms] by simp
  moreover have "every_object confirmed_by_boot (hd hs)" "every_object pending_digest (hd hs)" if "fresh_start [last hs]"
    using trace_restarted [where start = opened_start and start' = fresh_start, OF assms single_start(2) that]
      confirmed.run.reachable pending.run.reachable by blast+
  ultimately show ?thesis
    by (fastforce simp: every_object_def committed_by_boot_def confirmed_by_boot_def pending_digest_def
        authority_confirmation_is_incarnation_bound_def list_all_iff)
qed

theorem confirmations_are_current_witness:
  "\<exists>F. sample_restart = Inr F \<and> (\<forall>(i, r) \<in> set (objects F). is_committed_state (cr_state r) \<longrightarrow> cr_authority_confirmed r \<longrightarrow>
     boot_sequence (tok_incarnation (cr_authority r)) = boot_sequence (incarnation F))"
proof -
  obtain F where "sample_restart = Inr F" "reach opened_start trace_step [F]" using sample_restart_opened by blast
  with confirmations_are_current [of "[F]"] show ?thesis unfolding list.sel by blast
qed

text \<open>C6. In every state that operations reach from a start on an empty store the identity of each stored observation is the one derived from
  its content, and its subject is registered: the eighth check.\<close>

theorem observations_are_identified:
  assumes "reach fresh_start trace_step hs"
  shows "evidence_identities_are_derived (hd hs)"
  using observations.reachable [OF assms]
  by (auto simp: evidence_inv_def evidence_identities_are_derived_def list_all_iff find_resource_def)

theorem observations_are_identified_witness: "evidence_identities_are_derived (hd sample_trace)"
  using observations_are_identified [OF sample_trace_reachable] by simp

text \<open>C7. Histories and logs are bounded. In every state of a process that came up open, on an empty store or on whatever
  earlier lives left in it, the attempt log, the diagnostics, the fences and the history of each object are
  within the configured bounds: the twelfth check. Recovery extends histories without looking at the bound, but
  a start in which that exceeds it does not come up open.\<close>

theorem histories_stay_bounded:
  assumes "reach opened_start trace_step hs"
  shows "bounded_histories_stay_bounded (hd hs)"
  using within_bounds.lived [OF assms] bounds_checked by blast

theorem histories_stay_bounded_witness:
  "\<exists>F. sample_restart = Inr F \<and> bounded_histories_stay_bounded F"
proof -
  obtain F where "sample_restart = Inr F" "reach opened_start trace_step [F]" using sample_restart_opened by blast
  with histories_stay_bounded [of "[F]"] show ?thesis unfolding list.sel by blast
qed

section \<open>Lifecycle\<close>

text \<open>C8. Histories are unbroken. In every state that operations reach from a start on an empty store, the history of an
  object is a chain without gaps that ends in the state the object is in. Each of its moves is one the
  transition table allows, or one of two that it does not: the return from reserved to validated when a
  reservation is released, and the entry from proposed to proposed that records the proposal.\<close>

theorem history_follows_the_lifecycle:
  assumes "reach fresh_start trace_step hs" and "(i, r) \<in> set (objects (hd hs))"
  shows "cr_history r \<noteq> [] \<and> tr_to (last (cr_history r)) = cr_state r \<and>
    successively (\<lambda>t u. tr_to t = tr_from u) (cr_history r) \<and>
    (\<forall>t \<in> set (cr_history r). transition_allowed (tr_from t) (tr_to t) \<or>
       (tr_from t = Reserved \<and> tr_to t = Validated) \<or> (tr_from t = Proposed \<and> tr_to t = Proposed))"
proof -
  have "every_object lawful_history (hd hs)" using lawful.run.reachable [OF assms(1)] by simp
  then have "lawful_history (limits (hd hs)) (boot (hd hs)) r" using assms(2) by (force simp: every_object_def)
  then show ?thesis by (simp add: lawful_history_def lawful_move_def)
qed

theorem history_follows_the_lifecycle_witness:
  "tr_to (last (cr_history (sample_object with_grant))) = cr_state (sample_object with_grant)"
proof -
  have "(derive_named ''connectivity'' ''c'', sample_object with_grant) \<in> set (objects (hd sample_trace))"
    by (simp add: sample_trace_def with_object_objects)
  from history_follows_the_lifecycle [OF sample_trace_reachable this] show ?thesis by simp
qed

section \<open>Operations\<close>

text \<open>C9. An activation commits only on these grounds: the runtime is open, the attempt is new, the
  object is activating under the digest that the request presents, the token is current and covers
  the object, the evidence is healthy and no other path or reservation clashes. The object is then
  stored active, confirmed by the token, with its pending digest cleared; no other object changes.\<close>

theorem activation_commits_on_grounds:
  assumes "commit_activation io q F = (r, F')" "av_outcome r = Applied"
  shows "\<exists>rec u. \<not> closed F \<and> map_of (attempts F) (cmq_attempt q) = None \<and>
    map_of (objects F) (cmq_connectivity q) = Some rec \<and> cr_state rec = Activating \<and>
    cmq_activation_digest q = cr_activation_digest rec \<and> cr_activation_digest rec \<noteq> nil_digest \<and>
    check_authority_locked F (cmq_authority q) = Current \<and>
    covers (tok_scope (cmq_authority q)) (object_scope_locked F rec) \<and>
    healthy (assess_locked F (cr_path rec) (cr_requirements rec)) \<and>
    check_claims_locked F (path_resources rec) (pd_channel (cr_path rec)) (cr_id rec) (cr_reservation rec) = NoConflict \<and>
    objects F' = map_put (cr_id rec) u (objects F) \<and> cr_state u = Active \<and> cr_authority_confirmed u \<and>
    cr_activation_digest u = nil_digest \<and> cr_path u = cr_path rec \<and> cr_generation u = cr_generation rec + 1"
proof -
  obtain rec u where guards: "\<not> closed F" "map_of (attempts F) (cmq_attempt q) = None"
    "map_of (objects F) (cmq_connectivity q) = Some rec" "cr_state rec = Activating"
    "cmq_activation_digest q = cr_activation_digest rec" "cr_activation_digest rec \<noteq> nil_digest"
    "require_authority_locked F (cmq_authority q) (object_scope_locked F rec) = RNone"
    "healthy (assess_locked F (cr_path rec) (cr_requirements rec))"
    "check_claims_locked F (path_resources rec) (pd_channel (cr_path rec)) (cr_id rec) (cr_reservation rec) = NoConflict"
    and stored: "objects F' = map_put (cr_id rec) u (objects F)"
      "reload_connectivity (limits F) (active_record F q rec) = Some u"
    by (rule commit_activation_Applied [OF assms])
  have "cr_state u = Active" "cr_authority_confirmed u" "cr_activation_digest u = nil_digest"
      "cr_path u = cr_path rec" "cr_generation u = cr_generation rec + 1"
    using stored(2) by (auto simp: active_record_def reload_connectivity_def split: if_splits sum.splits)
  then show ?thesis using guards stored(1) by (auto simp: require_authority_RNone)
qed

theorem activation_commits_on_grounds_witness:
  "\<exists>rec u. map_of (objects sample_pending) (cmq_connectivity sample_commit) = Some rec \<and> cr_state u = Active \<and>
     objects (snd (commit_activation sample_io sample_commit sample_pending)) =
       map_put (cr_id rec) u (objects sample_pending)"
  using activation_commits_on_grounds [OF prod.collapse [symmetric] sample_commit_applied] by blast

text \<open>C10. Presenting a committed activation again, at once, is answered from the attempt log: the outcome is an
  idempotent replay and the runtime does not change. The limits are valid and the attempt log is within them,
  as they are in every state of a process that came up open.\<close>

theorem activation_replay_is_idempotent:
  assumes "commit_activation io q F = (r, F')" "av_outcome r = Applied" "logs_inv F" "valid_limits F"
  shows "\<exists>r'. commit_activation io' q F' = (r', F') \<and> av_outcome r' = IdempotentReplay"
  using assms by (rule commit_activation_replayed)

theorem activation_replay_is_idempotent_witness:
  "\<exists>r'. commit_activation sample_io sample_commit (snd (commit_activation sample_io sample_commit sample_pending)) =
     (r', snd (commit_activation sample_io sample_commit sample_pending)) \<and> av_outcome r' = IdempotentReplay"
  using activation_replay_is_idempotent [OF prod.collapse [symmetric] sample_commit_applied pending_logs pending_limits]
  by blast



text \<open>C12. Authority is handed over. After a grant is acquired, no token of another grant that overlaps its scope is
  current: the older grants are fenced. The token of the new grant is current at once exactly when its scope is
  stored as it was asked for, which is so unless a scope that is not a site names one, and when the lease does
  not wrap the tick around.\<close>

theorem acquired_authority_takes_over:
  assumes "acquire_authority io q F = (r, F')" "au_outcome r = Applied"
  shows "(check_authority_locked F' (au_token r) = Current \<longleftrightarrow>
      (scope_kind (aq_scope q) = ScopeSite \<or> scope_site (aq_scope q) = 0) \<and> tick F < tick F + aq_lease_ticks q) \<and>
    (\<forall>t. overlaps (tok_scope t) (aq_scope q) \<longrightarrow> check_authority_locked F' t = Current \<longrightarrow>
       tok_grant t = tok_grant (au_token r))"
  using acquired_token_iff [OF assms] acquired_token_displaces [OF assms] by blast

theorem acquired_authority_takes_over_witness:
  "check_authority_locked with_grant (au_token (fst (acquire_authority sample_io sample_authority with_span))) = Current"
proof -
  have "tick with_span < tick with_span + aq_lease_ticks sample_authority" "scope_site (aq_scope sample_authority) = 0"
    by (simp_all add: with_span_state sample_state_def sample_authority_def scope_global_def)
  then show ?thesis
    using acquired_authority_takes_over [OF prod.collapse [symmetric] sample_acquired(1)]
    unfolding with_grant_def by blast
qed

section \<open>Restart\<close>

text \<open>C13. A restart is conservative. Whatever the store holds, a runtime that comes up open accepts no
  token that exists, has nothing in flight and no confirmed authority on a committed path, and runs
  under the boot sequence after the one that the records it replayed end in.\<close>

theorem restart_is_conservative:
  assumes "construct io inst op opened records = Inr F" "\<not> closed F"
  shows "conservative F \<and> (\<forall>t. check_authority_locked F t \<noteq> Current) \<and>
    (\<exists>F1. replay records ((initial_fabric op)\<lparr>store_open := True, journal := records\<rparr>) = (Ok, F1) \<and>
       boot F = boot F1 + 1)"
  using construct_conservative [OF assms] conservative_no_authority construct_boot [OF assms] by metis

theorem restart_is_conservative_witness:
  "\<exists>F. sample_restart = Inr F \<and> check_authority_locked F sample_token \<noteq> Current"
proof -
  obtain F where F: "sample_restart = Inr F" "\<not> closed F" using sample_restarted by blast
  from restart_is_conservative [OF F(1) [unfolded sample_restart_def] F(2)] F(1) show ?thesis by blast
qed

section \<open>Admission\<close>

text \<open>C14. A token is accepted for a scope exactly when it names a live grant of the running incarnation
  with its holder, epoch and scope, the grant has not expired, no live grant of a newer epoch overlaps
  it, and its scope covers the one asked for.\<close>

theorem token_accepted_iff:
  "require_authority_locked F t s = RNone \<longleftrightarrow>
     tok_grant t \<noteq> 0 \<and> tok_epoch t \<noteq> 0 \<and> covers (tok_scope t) s \<and>
     (\<exists>g. map_of (grants F) (tok_grant t) = Some g \<and> grant_live g \<and> tok_holder t = gv_holder (gs_view g) \<and>
        tok_epoch t = gv_epoch (gs_view g) \<and> tok_scope t = gv_scope (gs_view g) \<and>
        boot_sequence (tok_incarnation t) = boot_sequence (incarnation F) \<and> tick F < gv_expiry_tick (gs_view g) \<and>
        \<not> has_overlapping_newer_epoch F (tok_scope t) (tok_epoch t))"
  by (auto simp: require_authority_RNone check_authority_locked_def token_is_nil_def grant_live_def Let_def
      split: option.splits if_splits)

text \<open>C15. A path is healthy exactly when it has something to assess, every segment is registered at the
  generation the path names, and every blocking requirement of the intent evaluates to known.\<close>

theorem healthy_means_proved:
  "healthy (assess_locked F path q) \<longleftrightarrow>
     (pd_segments path \<noteq> [] \<or> (\<exists>rq \<in> set (requirements_for F path q). rq_blocking rq)) \<and>
     (\<forall>s \<in> set (pd_segments path). \<exists>st. find_resource F (seg_resource s) = Some st \<and>
        rs_generation st = seg_generation s) \<and>
     (\<forall>rq \<in> set (requirements_for F path q). rq_blocking rq \<longrightarrow>
        ee_state (evaluate_requirement_locked F rq) = Known)"
  by (rule healthy_iff)

theorem healthy_means_proved_witness:
  "\<exists>st. find_resource sample_pending span_s = Some st \<and> rs_generation st = 1"
proof -
  have "PathSegment RoleSpan span_s 1 \<in> set (pd_segments sample_path)" by (simp add: sample_path_def)
  with sample_healthy show ?thesis unfolding healthy_means_proved by fastforce
qed

text \<open>C16. The conflict check decides about the records. It looks at the two indices only, and in every state that
  operations reach from a start on an empty store it passes exactly when, for every resource it is asked
  about: no other object that holds claims on the resource exists, unless the resource is shared and the object
  uses another channel; and no other reservation that is neither released nor consumed names the resource,
  unless the resource is shared and the reservation's object exists and uses another channel.\<close>

theorem conflict_check_exact:
  assumes "reach fresh_start trace_step hs"
  shows "check_claims_locked (hd hs) rs channel self own = NoConflict \<longleftrightarrow>
    (\<forall>res \<in> set rs.
       (\<forall>i r. map_of (objects (hd hs)) i = Some r \<longrightarrow> i \<noteq> self \<longrightarrow> holds_committed_claims r \<longrightarrow>
          res \<in> set (path_resources r) \<longrightarrow>
          \<not> resource_exclusive (resources (hd hs)) res \<and> pd_channel (cr_path r) \<noteq> channel) \<and>
       (\<forall>i v. map_of (reservations (hd hs)) i = Some v \<longrightarrow> i \<noteq> own \<longrightarrow> \<not> rv_released v \<longrightarrow> \<not> rv_consumed v \<longrightarrow>
          res \<in> set (rv_resources v) \<longrightarrow>
          \<not> resource_exclusive (resources (hd hs)) res \<and>
          (\<exists>r. map_of (objects (hd hs)) (rv_connectivity v) = Some r \<and> pd_channel (cr_path r) \<noteq> channel)))"
  by (rule conflict_check_records [OF reachable_claims [OF assms]])

theorem conflict_check_exact_witness:
  "check_claims_locked (hd sample_trace) [span_s] 0 1 0 = NoConflict"
  unfolding conflict_check_exact [OF sample_trace_reachable] by (simp add: sample_trace_records)

section \<open>Routes and paths\<close>

text \<open>C17. A declared route is sound and shortest: the route that is resolved for an intent is an
  unbroken chain of registered ports and of links that join them, from the source to the
  destination, within the segment bound, and no declared chain between the two ports is shorter.\<close>

theorem declared_route_is_shortest:
  assumes "ordered_keys (resources F)" "resolve_declared_route_locked F it = Inr path"
  shows "length (pd_segments path) \<le> max_path_segments (limits F) \<and>
    chain_to F (in_source_port it) (in_destination_port it)
      (if in_direction it = Reverse then rev (pd_segments path) else pd_segments path) \<and>
    (\<forall>segs. chain_to F (in_source_port it) (in_destination_port it) segs \<longrightarrow> length (pd_segments path) \<le> length segs)"
  using resolve_declared_route_chain [OF assms] resolve_declared_route_shortest [OF assms(2)] by blast

theorem declared_route_is_shortest_witness:
  "chain_to with_span (derive_resource KPort ''p'') (derive_resource KPort ''q'') (pd_segments sample_path)"
proof -
  have "ordered_keys (resources with_span)"
    using ports_ordered
    by (simp add: with_span_state sample_state_def sample_topology_def ordered_keys_def less_ResourceRef_def
        less_ResourceKind_def)
  moreover have "resolve_declared_route_locked with_span sample_intent = Inr sample_path"
    by (rule sample_route) (simp_all add: with_span_state sample_state_def)
  ultimately show ?thesis using declared_route_is_shortest by fastforce
qed

text \<open>C18. A declared route is found: when two distinct registered ports are joined by some chain of declared links, the
  search terminates with a route, or reports that it exceeded its bounds, or refuses the intent because it names
  a channel that is not registered; it never answers that there is no route.\<close>

theorem declared_route_is_found:
  assumes "is_registered_port F (in_source_port it)" "is_registered_port F (in_destination_port it)"
    and "chain_to F (in_source_port it) (in_destination_port it) segs"
    and "in_source_port it \<noteq> in_destination_port it"
  shows "(\<exists>path. resolve_declared_route_locked F it = Inr path) \<or>
    resolve_declared_route_locked F it = Inl CapacityExceeded \<or>
    resolve_declared_route_locked F it = Inl NotFound \<and> in_channel it \<noteq> 0 \<and> \<not> registered_channel F (in_channel it)"
  using assms by (rule resolve_declared_route_complete)

theorem declared_route_is_found_witness:
  "(\<exists>path. resolve_declared_route_locked with_span sample_intent = Inr path) \<or>
   resolve_declared_route_locked with_span sample_intent = Inl CapacityExceeded"
proof -
  have "is_registered_port with_span (derive_resource KPort ''p'')" "is_registered_port with_span (derive_resource KPort ''q'')"
    by (simp_all add: is_registered_port_def find_resource_def port_ref_def with_span_state sample_state_def
        topology_rows enrolled_fields row_fields)
  moreover have "chain_to with_span (derive_resource KPort ''p'') (derive_resource KPort ''q'') (pd_segments sample_path)"
    by (simp add: chain_to_def sample_path_def port_segment_def current_segment_def joins_def find_resource_def
        port_ref_def with_span_state sample_state_def topology_rows enrolled_fields row_fields link_near_def
        link_far_def)
  ultimately show ?thesis
    using declared_route_is_found [of with_span sample_intent] less_imp_neq [OF ports_ordered] by auto
qed

text \<open>C19. A route that a planner proposes is taken over literally: the segments are the proposed
  resources in their order, without repetition, each at its registered generation, between two
  ports and within the segment bound.\<close>

theorem proposed_route_is_literal:
  assumes "describe_route_locked F proposed channel direction origin = Inr path"
  shows "map seg_resource (pd_segments path) = proposed \<and> distinct proposed \<and>
    list_all (current_segment F) (pd_segments path) \<and> seg_role (hd (pd_segments path)) = RolePort \<and>
    seg_role (last (pd_segments path)) = RolePort \<and> 2 \<le> length (pd_segments path) \<and>
    length (pd_segments path) \<le> max_path_segments (limits F)"
  using describe_route_Inr [OF assms] by simp

theorem proposed_route_is_literal_witness: "distinct [port_p, span_s, port_q]"
proof -
  have "describe_route_locked with_span [port_p, span_s, port_q] 0 Forward [] = Inr (sample_path\<lparr>pd_route_origin := []\<rparr>)"
    using less_imp_neq [OF ports_ordered]
    by (simp add: describe_route_locked_def find_resource_def with_span_state sample_state_def topology_rows
        enrolled_fields row_fields with_channel_def sample_path_def default_limits_def)
  from proposed_route_is_literal [OF this] show ?thesis by blast
qed

text \<open>C20. The canonical text identifies a path: two paths that are accepted and have one canonical text
  have the same segments, channel and direction.\<close>

theorem canonical_text_identifies_path:
  assumes "canonicalize_path p lim = Inr c" "canonicalize_path q lim = Inr d"
    and "cp_canonical_text c = cp_canonical_text d"
  shows "pd_segments p = pd_segments q \<and> pd_channel p = pd_channel q \<and>
    pd_channel_generation p = pd_channel_generation q \<and> pd_direction p = pd_direction q"
proof (rule canonical_text_inj)
  show "canonical_text p = canonical_text q"
    using assms by (simp add: canonicalize_path_Inr)
  show "pd_channel p = 0 \<longleftrightarrow> pd_channel_generation p = 0" "pd_channel q = 0 \<longleftrightarrow> pd_channel_generation q = 0"
    using assms(1,2) by (simp_all add: canonicalize_path_Inr validate_path_structure_Ok)
qed

theorem canonical_text_identifies_path_witness:
  "pd_segments sample_path = pd_segments (sample_path\<lparr>pd_route_origin := ''planner''\<rparr>)"
proof -
  have "canonicalize_path (sample_path\<lparr>pd_route_origin := ''planner''\<rparr>) default_limits = Inr sample_canonical"
    using sample_canonicalized
    by (simp add: canonicalize_path_Inr validate_path_structure_Ok canonical_text_def sample_path_def)
  from canonical_text_identifies_path [OF sample_canonicalized this] show ?thesis by blast
qed

text \<open>C21. A path is accepted exactly when it has between two segments and the bound, every segment names a
  resource and a generation, it begins and ends at a port, names a channel with a generation or
  neither, and repeats no resource; the reverse of an accepted path is accepted, and reversing
  twice gives the path back.\<close>

theorem path_structure_exact:
  "(validate_path_structure p lim = Ok \<longleftrightarrow>
     2 \<le> length (pd_segments p) \<and> length (pd_segments p) \<le> max_path_segments lim \<and>
     (\<forall>s \<in> set (pd_segments p). \<not> ref_is_nil (seg_resource s) \<and> seg_generation s \<noteq> 0) \<and>
     seg_role (hd (pd_segments p)) = RolePort \<and> seg_role (last (pd_segments p)) = RolePort \<and>
     (pd_channel p = 0 \<longleftrightarrow> pd_channel_generation p = 0) \<and> distinct (map seg_resource (pd_segments p))) \<and>
   (validate_path_structure (reversed_path p) lim = Ok \<longleftrightarrow> validate_path_structure p lim = Ok) \<and>
   reversed_path (reversed_path p) = p"
  by (simp add: validate_path_structure_Ok [of p] reversed_path_structure reversed_path_involutive)

theorem path_structure_exact_witness:
  "validate_path_structure (reversed_path sample_path) default_limits = Ok"
  using path_structure_exact [of sample_path default_limits] sample_canonicalized by (simp add: canonicalize_path_Inr)

section \<open>Evidence and lifecycle\<close>

text \<open>C22. An observation counts as known exactly when the producer said so, its validity window is not
  empty and holds the current tick, and it was taken in for the running incarnation and for the current
  generation of its subject, each as far as the policy asks for it.\<close>

theorem known_evidence_is_current:
  "apply_policy r pol inc gen now = Known \<longleftrightarrow>
    ev_state r = Known \<and>
    (enforce_validity_window pol \<longrightarrow> now < valid_until_tick (ev_provenance r) \<and>
       observed_tick (ev_provenance r) < valid_until_tick (ev_provenance r)) \<and>
    (require_current_incarnation pol \<longrightarrow> boot_sequence inc \<noteq> 0 \<longrightarrow>
       boot_sequence (ingested_incarnation (ev_provenance r)) = boot_sequence inc) \<and>
    (require_current_generation pol \<longrightarrow> gen \<noteq> 0 \<longrightarrow> observed_generation (ev_provenance r) = gen)"
  by (auto simp: apply_policy_def Let_def not_le split: if_splits)

theorem known_evidence_is_current_witness:
  "apply_policy sample_observation conservative_policy (incarnation with_grant) 1 20 = Known \<and>
   apply_policy sample_observation conservative_policy (incarnation with_grant) 1 30 \<noteq> Known"
  unfolding known_evidence_is_current
  by (simp add: sample_observation_def conservative_policy_def with_grant_state sample_state_def)

text \<open>Evidence is composed pessimistically: the aggregate is known only when there is at least one state
  and every state is known, and otherwise it is one of the states that were composed.\<close>

theorem composition_is_pessimistic:
  "(compose_all states = Known \<longleftrightarrow> states \<noteq> [] \<and> (\<forall>s \<in> set states. s = Known)) \<and>
   (states \<noteq> [] \<longrightarrow> compose_all states \<noteq> Known \<longrightarrow> compose_all states \<in> set states)"
  using compose_all_Known_iff compose_all_member by blast

theorem composition_is_pessimistic_witness: "compose_all [Known, Stale, Known] \<noteq> Known"
  using composition_is_pessimistic [of "[Known, Stale, Known]"] by simp

text \<open>The transition table: the successors of every state, the states without successor being
  exactly the terminal ones.\<close>

theorem transition_table_exact:
  "(transition_allowed a b \<longleftrightarrow> b \<in> (case a of
      Proposed \<Rightarrow> {Validated, Withdrawing, Retired, SRefused}
    | Validated \<Rightarrow> {Reserved, Withdrawing, Retired, SRefused}
    | Reserved \<Rightarrow> {Activating, Withdrawing, SRefused}
    | Activating \<Rightarrow> {Active, Failed, Withdrawing}
    | Active \<Rightarrow> {Degraded, Failed, Withdrawing}
    | Degraded \<Rightarrow> {Active, Failed, Withdrawing}
    | Failed \<Rightarrow> {Withdrawing, Retired, SRefused}
    | Withdrawing \<Rightarrow> {Failed, Retired}
    | Retired \<Rightarrow> {}
    | SRefused \<Rightarrow> {Withdrawing, Retired})) \<and>
   (is_terminal_state a \<longleftrightarrow> {c. transition_allowed a c} = {})"
  using transition_allowed_iff [of a b] terminal_has_no_successor [of a] by blast

section \<open>Identities and digests\<close>

text \<open>A digest printed as text parses back to the same digest.\<close>

theorem digest_round_trip: "digest_parse (digest_to_string d) = Some d"
  by (rule digest_parse_to_string)

text \<open>C26. The table-driven CRC-32C of the store equals the bit-by-bit definition of the
  checksum.\<close>

theorem crc_matches_reference: "crc_update st bytes = crc_update_bitwise st bytes"
  by (simp add: crc_update_eq_bitwise)

text \<open>A resource reference printed as text parses back to itself, and a reference of
  unknown kind is refused.\<close>

theorem resource_ref_round_trip:
  "ref_parse (ref_to_string r) = (if ref_kind r = KUnknown then None else Some r)"
  by (rule ref_parse_to_string)

text \<open>A name is valid exactly when no reason is found against it, and a valid name is not empty and
  contains neither a line break nor the separator of the text format.\<close>

theorem valid_names_are_plain:
  "(names_valid name n \<longleftrightarrow> names_invalid_reason name n = NameUnspecified) \<and>
   (names_valid name n \<longrightarrow> CHR 0x0A \<notin> set name \<and> CHR ''='' \<notin> set name \<and> name \<noteq> [])"
  using names_valid_iff_no_reason names_valid_no_control by blast

theorem valid_names_are_plain_witness: "CHR 0x0A \<notin> set ''span-1''"
  using valid_names_are_plain [of "''span-1''" 128]
  by (simp add: names_valid_def is_name_byte_def is_separator_def)

text \<open>Limits are accepted exactly when every limit is positive, the four that size buffers are within their
  ceilings, and the history of one object fits into the history of all.\<close>

theorem limits_accepted_iff:
  "limits_validate l = Ok \<longleftrightarrow>
     (\<forall>v \<in> set (limits_checks l). 0 < v) \<and> max_path_segments l \<le> 4096 \<and>
     max_evidence_detail_length l \<le> 65536 \<and> max_record_payload_bytes l \<le> 2 ^ 30 \<and>
     max_frame_payload_bytes l \<le> 2 ^ 30 \<and>
     max_attempt_history_per_object l \<le> max_attempt_history_total l"
  by (rule limits_validate_Ok_iff)

theorem limits_accepted_iff_witness:
  "0 < hd (limits_checks default_limits) \<and> limits_validate (default_limits\<lparr>max_path_segments := 5000\<rparr>) \<noteq> Ok"
  using default_limits_valid unfolding limits_accepted_iff by (simp add: limits_checks_def)

section \<open>Commits as text\<close>

text \<open>C30. Fields written under a token are read back exactly, whatever characters their values hold, as long as
  the keys are plain and distinct; beyond the bounds on fields the text is refused.\<close>

theorem text_round_trip:
  assumes "plain_key token" "list_all (\<lambda>f. plain_key (fst f)) fs" "distinct (map fst fs)"
  shows "reader_parse (tw_text (write_fields fs (write_token token new_writer))) lim =
    (if length fs > kMaxFields \<or> length fs > max_journal_records lim then Inl CapacityExceeded
     else Inr (new_reader token fs))"
  using reader_parse_render [of token fs lim] assms
  by (simp add: write_fields_text write_token_def new_writer_def list_all_iff)

theorem text_round_trip_witness:
  "reader_parse (tw_text (write_fields [(''k'', [newline, backslash, CHR ''='']), (''l'', [])]
     (write_token ''t'' new_writer))) default_limits =
   Inr (new_reader ''t'' [(''k'', [newline, backslash, CHR ''='']), (''l'', [])])"
  using text_round_trip [of "''t''" "[(''k'', [newline, backslash, CHR ''='']), (''l'', [])]" default_limits]
  by (simp add: plain_key_def kMaxFields_def default_limits_def)

text \<open>C31. What the reader accepts, from any text: the token and the keys are not empty and hold neither a separator
  nor a line break, no key repeats, the fields are within both bounds, and none is marked yet.\<close>

theorem parsed_text_is_well_formed:
  assumes "reader_parse s lim = Inr rd"
  shows "plain_key (rd_token rd) \<and> list_all (\<lambda>f. plain_key (fst f)) (rd_fields rd) \<and> distinct (map fst (rd_fields rd)) \<and>
    length (rd_fields rd) \<le> min kMaxFields (max_journal_records lim) \<and>
    rd_consumed rd = replicate (length (rd_fields rd)) False"
  using reader_parse_well_formed [OF assms] by (simp add: well_formed_fields_def list_all_iff)

theorem parsed_text_is_well_formed_witness: "plain_key (rd_token (new_reader ''t'' [(''k'', ''v'')]))"
proof -
  have "reader_parse (''t'' @ newline # render [(''k'', ''v'')]) default_limits = Inr (new_reader ''t'' [(''k'', ''v'')])"
    using reader_parse_render [of "''t''" "[(''k'', ''v'')]" default_limits]
    by (simp add: plain_key_def kMaxFields_def default_limits_def)
  from parsed_text_is_well_formed [OF this] show ?thesis by simp
qed

text \<open>C32. A commit that goes through the text, as the code does it (encode the bundle, decode the payload, apply the
  decoded fields), does exactly what the commit on items does, in its success and in each of its failures. The kind of the
  record is one of those the code commits, and the counts of dropped transitions fit into 64 bits.\<close>

theorem text_commit_refines_commit:
  assumes "kind \<noteq> RkUnknown" "list_all item_sized (map snd items)"
  shows "commit_text io kind items F = commit io kind (map snd items) F"
  using commit_text_items [of kind items io F] assms by (simp add: list_all_iff)

theorem text_commit_refines_commit_witness:
  "commit_text sample_io RkRuntimeState [(\<lparr>it_detail = [], it_history = \<lambda>_. []\<rparr>, ResetItem)] (hd sample_trace) =
   commit sample_io RkRuntimeState [ResetItem] (hd sample_trace)"
  using text_commit_refines_commit [of RkRuntimeState "[(\<lparr>it_detail = [], it_history = \<lambda>_. []\<rparr>, ResetItem)]"] by simp

section \<open>The store file\<close>

text \<open>A restart in this section is opening the file for writing with the default policy for a damaged tail, which
  discards it, while every system call succeeds (\<open>reopen\<close>); what it finds are the records of the opened store.
  The records are assumed to fit: a payload is within the configured bound and below 4 GiB.\<close>

text \<open>C33. The file refines the journal. Appending a commit to a file that holds the commits of the journal returns
  what the journal append returns, and what a restart would then find in the file is the journal, for every
  number of bytes the operating system accepts and whether or not it can flush them.\<close>

theorem file_refines_journal:
  assumes "holds (map stored commits) s" "list_all (fits (st_limits s)) (map stored commits)"
    "length (sr_payload (stored c)) < 2 ^ 32" "store_active F" "journal F = map plain_commit commits"
    "append_record env (sr_kind (stored c)) (sr_payload (stored c)) s = (status, s')"
    "store_append (io\<lparr>io_append := append_io env s (stored c)\<rparr>) (fst c) (map snd (snd c)) F = (outcome, F')"
  shows "status = outcome \<and> (\<exists>commits'. journal F' = map plain_commit commits' \<and>
    recovered (st_limits s) (st_file s') = Some (map stored commits'))"
  by (rule append_refines_journal [OF assms])

theorem file_refines_journal_witness:
  "\<exists>commits'. recovered default_limits (st_file (snd (append_record calm (sr_kind (stored sample_texted))
     (sr_payload (stored sample_texted)) (opened_store default_limits [])))) = Some (map stored commits')"
proof -
  let ?call = "append_record calm (sr_kind (stored sample_texted)) (sr_payload (stored sample_texted)) (opened_store default_limits [])"
  let ?model = "store_append (sample_io\<lparr>io_append := append_io calm (opened_store default_limits []) (stored sample_texted)\<rparr>)
      (fst sample_texted) (map snd (snd sample_texted)) disk_fabric"
  show ?thesis
    using file_refines_journal [of "[]" "opened_store default_limits []" sample_texted disk_fabric calm "fst ?call" "snd ?call"
        sample_io "fst ?model" "snd ?model"] empty_file [of default_limits] disk_fabric_active sample_payload_length
    by auto
qed

text \<open>C34. A restart replays the journal. On a file that holds the frames of some commits and perhaps part of one more,
  opening succeeds, and replaying the payloads it finds does what replaying the commits does.\<close>

theorem restart_replays_the_journal:
  assumes "list_all replayable commits" "list_all (fits lim) (map stored commits)" "fits lim r" "n < length (record_frame r)"
  shows "\<exists>rp s. reopen lim (Some (store_image (map stored commits) @ take n (record_frame r))) = (Ok, rp, s) \<and>
    replay_file (st_records s) F = replay (map plain_commit commits) F"
  using reopen_torn [OF assms(2-4)] replay_stored [OF assms(1), of F] by (simp add: opened_store_holds)

theorem restart_replays_the_journal_witness:
  "\<exists>rp s. reopen default_limits (Some (store_image [stored sample_texted] @ take 3 (record_frame sample_frame))) = (Ok, rp, s) \<and>
     replay_file (st_records s) disk_fabric = replay [plain_commit sample_texted] disk_fabric"
  using restart_replays_the_journal [of "[sample_texted]" default_limits sample_frame 3 disk_fabric]
    sample_texted_replayable sample_texted_fits sample_frame_fits sample_frame_length by simp

text \<open>C35. Acknowledged commits survive. After any run of appends that ends at the first failure, a restart finds
  what was there before, then every record that was acknowledged, and at most the one whose append failed.\<close>

theorem acknowledged_commits_survive:
  assumes "store_ready s" "store_found s = Some rs" "list_all (\<lambda>c. fits (st_limits s) (snd c)) calls"
    "append_all calls s = (acknowledged, s')"
  shows "\<exists>more rest. store_found s' = Some (rs @ acknowledged @ more) \<and> length more \<le> 1 \<and>
    map snd calls = acknowledged @ more @ rest"
  using store_log.acknowledged_survive [of s rs calls acknowledged s'] assms
  by (auto simp: append_all_run list_all_iff case_prod_beta)

theorem acknowledged_commits_survive_witness:
  "\<exists>more. store_found (snd (append_all [(calm, sample_frame)] (opened_store default_limits []))) =
     Some (fst (append_all [(calm, sample_frame)] (opened_store default_limits [])) @ more)"
  using acknowledged_commits_survive [of "opened_store default_limits []" "[]" "[(calm, sample_frame)]"
      "fst (append_all [(calm, sample_frame)] (opened_store default_limits []))"
      "snd (append_all [(calm, sample_frame)] (opened_store default_limits []))"]
    empty_file_ready [of default_limits] empty_file(2) [of default_limits] sample_frame_fits
  by auto

text \<open>C36. Changes of the file are atomic. However an append is cut off, a restart finds the records before it, and the
  new one exactly if all its bytes were accepted; after a rewrite it finds the old records or the new one alone.\<close>

theorem store_changes_are_atomic:
  assumes "holds rs s" "list_all (fits (st_limits s)) rs" "fits (st_limits s) r"
  shows "(case append_record env (sr_kind r) (sr_payload r) s of (status, s') \<Rightarrow>
      recovered (st_limits s) (st_file s') = Some (if length (record_frame r) \<le> se_write env then rs @ [r] else rs) \<and>
      (status = Ok \<longrightarrow> length (record_frame r) \<le> se_write env)) \<and>
    (case rewrite_store env (sr_kind r) (sr_payload r) s of (status, s') \<Rightarrow>
      recovered (st_limits s) (st_file s') \<in> {Some rs, Some [r]} \<and>
      (status = Ok \<longrightarrow> recovered (st_limits s) (st_file s') = Some [r]))"
  using append_recovered [OF assms] append_spec(4) [OF assms(1,3)] rewrite_recovered [OF assms]
  by (auto split: prod.splits)

theorem store_changes_are_atomic_witness:
  "recovered default_limits (st_file (snd (append_record (calm\<lparr>se_write := 5\<rparr>) 1 [7] (opened_store default_limits [])))) = Some []"
  using store_changes_are_atomic [of "[]" "opened_store default_limits []" sample_frame "calm\<lparr>se_write := 5\<rparr>"]
    empty_file [of default_limits] sample_frame_fits sample_frame_length
  by (simp add: case_prod_beta sample_frame_def)

text \<open>C37. Damage in the middle of a file. A payload that no longer matches its checksum is refused when another frame
  follows; a damaged first byte of a frame, however, is taken for a torn tail, and every record behind it is lost.\<close>

theorem damage_in_the_middle:
  assumes "list_all (fits lim) rs" "fits lim r" "length payload = length (sr_payload r)"
    "frame_crc (ucast (sr_kind r)) (of_nat (length payload)) payload \<noteq>
     frame_crc (ucast (sr_kind r)) (of_nat (length payload)) (sr_payload r)" "x \<noteq> hd (record_frame r)"
  shows "recovered lim (Some (store_image rs @ frame_header r @ payload @ record_frame q @ rest)) = None \<and>
    recovered lim (Some (store_image rs @ x # tl (record_frame r) @ record_frame q @ rest)) = Some rs"
  using recovered_damaged_payload [OF assms(1-4)] recovered_damaged_magic [OF assms(1,5)] by blast

theorem damage_in_the_middle_witness:
  "recovered default_limits (Some (store_image [sample_frame] @ frame_header sample_frame @ [8] @ record_frame sample_frame @ [])) = None \<and>
   recovered default_limits (Some (store_image [sample_frame] @ 0 # tl (record_frame sample_frame) @ record_frame sample_frame @ [])) =
     Some [sample_frame]"
  by (rule damage_in_the_middle)
    (simp_all add: sample_frame_fits sample_crc_differs [simplified] frame_first kRecordMagic_def, simp_all add: sample_frame_def)

text \<open>C38. Inspecting a file reports what opening it finds: the same records, the same end of the valid part, and a
  torn tail exactly when opening discards one. Opening succeeds, the file holds a whole header and is not larger
  than an inspection accepts, and the system calls of the inspection succeed.\<close>

theorem inspection_reports_what_opening_finds:
  assumes "reopen lim (Some f) = (Ok, rp, s)" "kHeaderBytes \<le> length f" "length f \<le> max_journal_bytes lim + 2 ^ 20"
    "ie_stat env" "ie_size env" "ie_open env" "ie_read env"
  shows "\<exists>insp. inspect_persistence env (Some f) lim = Inr insp \<and> pi_header_valid insp \<and>
    pi_records insp = length (st_records s) \<and> pi_valid_bytes insp = st_valid_bytes s \<and>
    pi_tail_torn insp = (rp_status rp = RsTailDiscarded) \<and> pi_file_bytes insp = length f"
  by (rule inspection_agrees [OF assms])

theorem inspection_reports_what_opening_finds_witness:
  "\<exists>insp. inspect_persistence sample_inspect (Some (store_image [])) default_limits = Inr insp \<and> pi_records insp = 0"
  using inspection_reports_what_opening_finds [OF reopen_image [of default_limits "[]"], of sample_inspect]
  by (auto simp: sample_inspect_def store_image_def frames_def default_limits_def opened_store_def new_store_def kHeaderBytes_def)

text \<open>C39. The scan of a file ends within the file, and after at most one record per sixteen bytes, whatever the file
  holds behind its header.\<close>

theorem scan_ends_within_the_file:
  assumes "kHeaderBytes \<le> length f"
  shows "case scan_records lim ok f kHeaderBytes [] of (ended, rs, last_good) \<Rightarrow>
    last_good \<le> length f \<and> kHeaderBytes + kRecordHeaderBytes * length rs \<le> last_good"
  using scan_bounded [OF _ assms, of lim ok "[]"] by (auto split: prod.splits)

theorem scan_ends_within_the_file_witness:
  "case scan_records default_limits (\<lambda>_. True) (store_image [sample_frame]) kHeaderBytes [] of (ended, rs, last_good) \<Rightarrow>
     last_good \<le> length (store_image [sample_frame])"
  using scan_ends_within_the_file [OF store_image_length [of "[sample_frame]"], of default_limits "\<lambda>_. True"]
  by (simp add: case_prod_beta)

section \<open>The control protocol\<close>

text \<open>C23. A node is safe for every client: whatever bytes any number of clients send, cut in any way and interleaved in
  any way, what they do to the runtime is a run of its operations from the state in which it started. On a store
  that was empty, no resource is committed twice, the indices agree with the records and grants do not overlap;
  on any store with which the runtime came up open, histories and logs stay within their bounds.\<close>

theorem node_refines_runtime:
  assumes "reach node_init node_step n"
  shows "reach process_start trace_step (remdups_adj (nd_trace n)) \<and>
    (fresh_start [last (nd_trace n)] \<longrightarrow> reach fresh_start trace_step (remdups_adj (nd_trace n)) \<and>
      no_incompatible_claims (nd_fabric n) \<and> commit_index_matches_objects (nd_fabric n) \<and>
      at_most_one_current_grant_per_scope (nd_fabric n)) \<and>
    (\<not> closed (last (nd_trace n)) \<longrightarrow> bounded_histories_stay_bounded (nd_fabric n))"
proof -
  have run: "nd_trace n \<noteq> []" "reach process_start trace_step (remdups_adj (nd_trace n))"
    using node_run.reach_inv [OF assms] by (simp_all add: follows_machine_def)
  have "claims_inv (nd_fabric n) \<and> grants_inv (nd_fabric n)" if "fresh_start [last (nd_trace n)]"
    using node_first_life [where start = fresh_start, OF assms that] reachable_claims exclusive_grants.reachable by metis
  moreover have "bounded_histories_stay_bounded (nd_fabric n)" if "opened_start [last (nd_trace n)]"
    using node_first_life [where start = opened_start, OF assms that] within_bounds.lived bounds_checked by metis
  moreover have "process_start [last (nd_trace n)]"
    using trace_origin [OF run(2) single_start(1)] by (simp add: last_remdups_adj)
  ultimately show ?thesis
    using run(2) node_first_life [OF assms, of fresh_start] claims_inv_compatible claims_inv_index_matches grants_inv_unique
    by (auto simp: opened_start_def)
qed

theorem node_refines_runtime_witness:
  "reach node_init node_step served_node \<and> no_incompatible_claims (nd_fabric served_node)"
  using node_refines_runtime [OF served_node_reachable] served_node_reachable sample_start_fresh served_node_origin by simp

text \<open>C24. The connection bound. The list of clients that the bound is checked against never grows beyond the configured
  number, and each connection keeps at most one frame of the largest size. In a run in which no connection is
  accepted under a handle that is still listed, no more connections than configured are open. Without that the
  bound fails: a thread closes its socket before it erases the handle, a connection accepted under the same
  handle in between is erased with it, and more connections than configured can then be open.\<close>

theorem connections_are_bounded:
  "(reach node_init node_step n \<longrightarrow> length (nd_clients n) \<le> max_connections (nd_limits n) \<and>
      list_all (\<lambda>c. pending_bytes (cn_codec c) \<le> max_frame_payload_bytes (nd_limits n) + kFrameHeaderBytes) (nd_workers n)) \<and>
   (reach node_init undisturbed_step n \<longrightarrow> length (open_connections n) \<le> max_connections (nd_limits n)) \<and>
   (\<exists>m. reach node_init node_step m \<and> max_connections (nd_limits m) < length (open_connections m))"
proof -
  have "length (nd_clients n) \<le> max_connections (nd_limits n) \<and>
      list_all (\<lambda>c. pending_bytes (cn_codec c) \<le> max_frame_payload_bytes (nd_limits n) + kFrameHeaderBytes) (nd_workers n)"
    if "reach node_init node_step n"
    using node_limits.reach_inv [OF that] by (auto simp: node_bounded_def codec_bounded_def list_all_iff)
  moreover have "max_connections (nd_limits m) < length (open_connections m)"
    if "m = pair_node [5, 6] [(fresh_worker 4)\<lparr>cn_phase := Ended\<rparr>, fresh_worker 4, fresh_worker 5, fresh_worker 6]" for m
    by (simp add: that pair_node_def pair_limits_def open_connections_def new_connection_def)
  ultimately show ?thesis using undisturbed_open crowded_reachable by blast
qed

theorem connections_are_bounded_witness:
  "length (nd_clients served_node) \<le> max_connections (nd_limits served_node)"
  using connections_are_bounded [of served_node] served_node_reachable by simp

text \<open>C25. A request comes back answered. The hypotheses: connecting and both sends succeed; nothing of an earlier stream is
  left in the codec of the client or of the connection, and neither has failed; the request, under the
  identifier that the client gives it when it has none, is sound; request and response fit into a frame, and
  the response into the bounds on fields; the bytes that reach the client are those of the answer. Then the
  bytes of the request, cut in any way, give the node exactly that request, and the bytes of the answer, cut in
  any way, make the call return the response that the dispatcher built, under the operation and the
  identifier of the request; the client is left as it was but for its counters, ready for the next call.\<close>

theorem requests_are_answered:
  assumes "outgoing_request request c = (outgoing, c1)" "message_sound lim outgoing"
    and "frame_fits lim (message_frame (fcl_next_sequence c) outgoing)"
    and "fcl_codec c = new_codec (fcl_limits c)"
    and "response = fst (dispatch_request cx outgoing F)"
    and "frame_fits (fcl_limits c) (message_frame (fcl_next_sequence c) response)"
    and "length (pm_fields response) < kMaxFields" "length (pm_fields response) < max_journal_records (fcl_limits c)"
    and "concat pieces = fst (snd (client_send Ok Ok outgoing c1))"
    and "concat answers = fst (snd (serve_frame lim cx True (message_frame (fcl_next_sequence c) outgoing) F))"
    and "[] \<notin> set answers"
  shows "feed_all pieces (new_codec lim) = ([message_frame (fcl_next_sequence c) outgoing], new_codec lim) \<and>
    client_call Ok Ok answers request c =
      Some (Inr response, [], c1\<lparr>fcl_connected := True, fcl_next_sequence := fcl_next_sequence c + 1\<rparr>) \<and>
    pm_operation response = pm_operation outgoing \<and> pm_request_id response = pm_request_id outgoing"
  using exchange [OF assms] .

theorem requests_are_answered_witness:
  "client_call Ok Ok [frame_bytes (message_frame 1 (fst (dispatch_request sample_cx shutdown_request sample_start)))]
     shutdown_request sample_client =
   Some (Inr (fst (dispatch_request sample_cx shutdown_request sample_start)), [],
     sample_client\<lparr>fcl_connected := True, fcl_next_sequence := 2\<rparr>)"
proof -
  let ?r = "fst (dispatch_request sample_cx shutdown_request sample_start)"
  have "client_call Ok Ok [frame_bytes (message_frame 1 ?r)] shutdown_request sample_client =
      Some (Inr ?r, [], sample_client\<lparr>fcl_connected := True, fcl_next_sequence := fcl_next_sequence sample_client + 1\<rparr>)"
    by (rule requests_are_answered [of shutdown_request sample_client shutdown_request sample_client default_limits ?r
          sample_cx sample_start "[frame_bytes (message_frame 1 shutdown_request)]", THEN conjunct2, THEN conjunct1])
      (use shutdown_call(6) in \<open>simp_all add: sample_client_state sample_messages_sound sample_messages_fit
        shutdown_answer_fits shutdown_call shutdown_call(3) [THEN not_sym]\<close>)
  then show ?thesis by (simp add: sample_client_state)
qed

text \<open>C27. Frames do not depend on how the stream is cut. Frames written one after the other and the beginning of a further
  one are taken out exactly, in order, and the beginning is kept, whatever pieces the bytes arrive in; and for any
  bytes at all, two ways to cut them give the same frames and fail alike.\<close>

theorem frames_survive_chunking:
  assumes "list_all (frame_fits lim) fs" "frame_fits lim g" "k < length (frame_bytes g)"
    and "concat ds = concat (map frame_bytes fs) @ take k (frame_bytes g)" "concat es = concat es'"
  shows "feed_all ds (new_codec lim) = (fs, (new_codec lim)\<lparr>fc_buffer := take k (frame_bytes g)\<rparr>) \<and>
    fst (feed_all es (new_codec lim)) = fst (feed_all es' (new_codec lim)) \<and>
    stream_failed (snd (feed_all es (new_codec lim))) = stream_failed (snd (feed_all es' (new_codec lim)))"
  using feed_all_stream [OF assms(1) frame_at_cut [OF assms(2,3)] assms(4)] feed_all_chunks [OF assms(5)] by blast

theorem frames_survive_chunking_witness:
  "feed_all [frame_bytes (message_frame 1 tick_request) @ take 3 (frame_bytes (message_frame 2 shutdown_request))]
     (new_codec default_limits) =
   ([message_frame 1 tick_request],
    (new_codec default_limits)\<lparr>fc_buffer := take 3 (frame_bytes (message_frame 2 shutdown_request))\<rparr>)"
  using frames_survive_chunking [of default_limits "[message_frame 1 tick_request]" "message_frame 2 shutdown_request" 3
      "[frame_bytes (message_frame 1 tick_request) @ take 3 (frame_bytes (message_frame 2 shutdown_request))]" "[]" "[]"]
    sample_messages_fit length_frame_bytes [of "message_frame 2 shutdown_request"]
  by (simp add: kFrameHeaderBytes_def)

text \<open>C28. Requests without effect: a query leaves the runtime as it is, an operation that the dispatcher does not know is
  refused, and a request on an object or a reservation without a readable target, attempt and authority token is
  refused before the runtime is called.\<close>

theorem requests_without_effect:
  "(pm_operation request \<in> set query_operations \<longrightarrow> snd (dispatch_request cx request F) = F) \<and>
   (pm_operation request \<notin> set (query_operations @ object_operations @ reservation_operations @ other_operations) \<longrightarrow>
      dispatch_request cx request F =
        (failure_response request ''unsupported_boundary'' ''the operation is not part of the control-plane surface'', F)) \<and>
   (pm_operation request \<in> set object_operations \<longrightarrow> target_fields ''connectivity'' request = None \<longrightarrow>
      dispatch_request cx request F = (failure_response request ''invalid_argument'' ''the request fields are malformed'', F)) \<and>
   (pm_operation request \<in> set reservation_operations \<longrightarrow> target_fields ''reservation'' request = None \<longrightarrow>
      dispatch_request cx request F = (failure_response request ''invalid_argument'' ''the request fields are malformed'', F))"
  using query_keeps unknown_refused target_required by blast

theorem requests_without_effect_witness:
  "dispatch_request sample_cx topology_request sample_start =
     (failure_response topology_request ''unsupported_boundary'' ''the operation is not part of the control-plane surface'',
      sample_start)"
  using requests_without_effect [of topology_request sample_cx sample_start]
  by (simp add: topology_request_def operation_lists)

text \<open>C29. The texts of an identity. Printed as hexadecimal digits or as a resource reference, an identity is
  read back, whatever the kind of the reference; printed as a decimal number it is read back only below ten or
  from the seventeenth digit on, because shorter digits are taken for hexadecimal.\<close>

theorem identity_texts:
  "parse_id (hex_encode i) = Some i \<and>
   (k \<noteq> KUnknown \<longrightarrow> parse_id (ref_to_string (ResourceRef k i)) = Some i) \<and>
   (parse_id (to_decimal i) = Some i \<longleftrightarrow> unat i < 10 \<or> 10 ^ 16 \<le> unat i)"
  using parse_id_hex parse_id_ref parse_id_decimal by blast

theorem identity_texts_witness:
  "parse_id (ref_to_string (ResourceRef KSpan 16)) = Some 16 \<and> parse_id (to_decimal 16) \<noteq> Some 16"
  using identity_texts [of 16 KSpan] by simp

text \<open>C40. The reports agree about a committed path that is active: it is listed as authorized exactly when diagnosing it
  finds neither unconfirmed authority nor a blocking requirement that is not known, its entry gives no reason
  then, and its explanation finds every segment at the registered generation and known.\<close>

theorem reports_agree:
  assumes "map_of (objects F) i = Some r" "distinct (map fst (objects F))" "cr_state r = Active"
    "pd_segments (cr_path r) \<noteq> []" "explain F i = Inr e"
  shows "(i \<in> set (pr_authorized (active_paths F)) \<longleftrightarrow>
      list_all (\<lambda>d. \<not> blocking_diagnostic d) (object_diagnostics F (i, r))) \<and>
    (i \<in> set (pr_authorized (active_paths F)) \<longleftrightarrow> unauthorized_reason (active_entry F i r) = []) \<and>
    (i \<in> set (pr_authorized (active_paths F)) \<longrightarrow> pe_authority_confirmed e \<and>
      list_all (\<lambda>s. sp_generation_current s \<and> sp_evidence_state s = Known) (pe_segments e))"
  using authorized_undiagnosed [OF assms(1-4)] authorized_explained [OF assms(1-3,5)] authorized_entry [OF assms(1-3)]
    authorized_no_reason by blast

theorem reports_agree_witness:
  "\<exists>e. explain active_fabric (derive_named ''connectivity'' ''c'') = Inr e \<and>
     (derive_named ''connectivity'' ''c'' \<in> set (pr_authorized (active_paths active_fabric)) \<longleftrightarrow>
      list_all (\<lambda>d. \<not> blocking_diagnostic d)
        (object_diagnostics active_fabric
          (derive_named ''connectivity'' ''c'', active_record sample_pending sample_commit pending_object)))"
  using reports_agree [OF active_fabric_object] active_fabric_object(1) by (auto simp: explain_def Let_def)

end
